(* ===== verification/Prelude.thy ===== *)
theory Prelude
  imports "HOL-Library.Word"
begin

text \<open>
  Shared vocabulary of the development: the machine integers of the C and Rust sources as
  words, little-endian byte encodings, overlaying a buffer with freshly written bytes, Rust's
  checked arithmetic, and the lemma collections the component theories rewrite with.
\<close>

section \<open>Machine integers\<close>

type_synonym u8 = "8 word"
type_synonym u16 = "16 word"
type_synonym u32 = "32 word"
type_synonym u64 = "64 word"

text \<open>C's \<open>int\<close> and Rust's \<open>i32\<close> are the same 32-bit words, read through \<open>sint\<close>.\<close>

type_synonym i32 = "32 word"

text \<open>
  Collections: \<open>layout_simps\<close> evaluates C type layouts, \<open>event_simps\<close> unfolds the event
  records and their codecs, \<open>step_simps\<close> unfolds the handlers of the BPF program, and
  \<open>text_simps\<close> evaluates the string functions of the user-space program.
\<close>

named_theorems layout_simps
named_theorems event_simps
named_theorems step_simps
named_theorems text_simps

section \<open>Checked and saturating arithmetic of Rust\<close>

definition checked_add :: "'a::len word \<Rightarrow> 'a word \<Rightarrow> 'a word option" where
  "checked_add a b = (if uint a + uint b < 2 ^ LENGTH('a) then Some (a + b) else None)"

definition checked_sub :: "'a::len word \<Rightarrow> 'a word \<Rightarrow> 'a word option" where
  "checked_sub a b = (if b \<le> a then Some (a - b) else None)"

definition saturating_add :: "'a::len word \<Rightarrow> 'a word \<Rightarrow> 'a word" where
  "saturating_add a b = (if uint a + uint b < 2 ^ LENGTH('a) then a + b else - 1)"

lemma uint_add_no_overflow:
  fixes a b :: "'a::len word"
  assumes "uint a + uint b < 2 ^ LENGTH('a)"
  shows "uint (a + b) = uint a + uint b"
  using assms by (simp add: uint_word_ariths)

lemma uint_sub_no_borrow:
  fixes a b :: "'a::len word"
  assumes "b \<le> a"
  shows "uint (a - b) = uint a - uint b"
  using assms by (simp add: uint_minus_simple_alt word_le_def)

lemma checked_add_Some_iff:
  "checked_add a b = Some c \<longleftrightarrow>
     uint a + uint b < 2 ^ LENGTH('a) \<and> uint c = uint a + uint (b :: 'a::len word)"
  by (auto simp: checked_add_def uint_add_no_overflow intro!: word_uint_eqI)

lemma checked_sub_Some_iff:
  "checked_sub a b = Some c \<longleftrightarrow> b \<le> a \<and> uint c = uint a - uint (b :: 'a::len word)"
  by (auto simp: checked_sub_def uint_sub_no_borrow intro!: word_uint_eqI)

lemma uint_saturating_add:
  "uint (saturating_add a b) = min (uint a + uint b) (2 ^ LENGTH('a) - 1)" for a b :: "'a::len word"
  by (auto simp: saturating_add_def uint_add_no_overflow unsigned_minus_1_eq_mask mask_eq_exp_minus_1)

lemma uint_ucast_up:
  assumes "LENGTH('a) \<le> LENGTH('b)"
  shows "uint (ucast (w :: 'a::len word) :: 'b::len word) = uint w"
proof -
  have "uint w < 2 ^ LENGTH('a)" by (rule uint_lt2p)
  also have "(2::int) ^ LENGTH('a) \<le> 2 ^ LENGTH('b)" using assms by (rule power_increasing) simp
  finally have "uint w mod 2 ^ LENGTH('b) = uint w" by simp
  then show ?thesis by (simp add: unsigned_ucast_eq take_bit_eq_mod)
qed

lemma unat_ucast_up:
  "LENGTH('a) \<le> LENGTH('b) \<Longrightarrow> unat (ucast (w :: 'a::len word) :: 'b::len word) = unat w"
  by (simp only: unat_eq_nat_uint uint_ucast_up)

lemma of_nat_word_inj:
  assumes "(of_nat m :: 'a::len word) = of_nat n" and "m < 2 ^ LENGTH('a)" and "n < 2 ^ LENGTH('a)"
  shows "m = n"
proof -
  have "unat (of_nat m :: 'a word) = unat (of_nat n :: 'a word)" using assms(1) by simp
  then show ?thesis using assms(2,3) by (simp add: unat_of_nat take_bit_nat_eq_self)
qed

lemma unat_of_nat_small: "n < 2 ^ LENGTH('a) \<Longrightarrow> unat (of_nat n :: 'a::len word) = n"
  by (simp add: unat_of_nat take_bit_nat_eq_self)

lemma unat_of_nat_le: "unat (of_nat n :: 'a::len word) \<le> n"
  by (simp add: unat_of_nat)

lemma unat_min_of_nat: "unat (min w (of_nat n) :: 'a::len word) \<le> n"
  using unat_of_nat_le [of n, where 'a = 'a]
  by (metis min.cobounded2 order_trans word_le_nat_alt)

section \<open>Little-endian encodings\<close>

primrec le_int :: "u8 list \<Rightarrow> int" where
  "le_int [] = 0"
| "le_int (b # bs) = uint b + 256 * le_int bs"

definition le_word :: "u8 list \<Rightarrow> 'a::len word" where
  "le_word bs = word_of_int (le_int bs)"

primrec int_le :: "nat \<Rightarrow> int \<Rightarrow> u8 list" where
  "int_le 0 v = []"
| "int_le (Suc k) v = word_of_int v # int_le k (v div 256)"

definition word_le :: "nat \<Rightarrow> 'a::len word \<Rightarrow> u8 list" where
  "word_le k w = int_le k (uint w)"

lemma length_int_le [simp]: "length (int_le k v) = k"
  by (induction k arbitrary: v) auto

lemma length_word_le [simp]: "length (word_le k w) = k"
  by (simp add: word_le_def)

lemma le_int_nonneg [simp]: "0 \<le> le_int bs"
  by (induction bs) auto

lemma le_int_bound: "le_int bs < 256 ^ length bs"
proof (induction bs)
  case Nil
  then show ?case by simp
next
  case (Cons b bs)
  have "uint b < 256" using uint_lt2p [of b] by simp
  with Cons show ?case by simp
qed

lemma le_int_int_le: "le_int (int_le k v) = v mod 256 ^ k"
proof (induction k arbitrary: v)
  case 0
  then show ?case by simp
next
  case (Suc k)
  have "uint (word_of_int v :: u8) = v mod 256"
    by (simp add: uint_word_of_int)
  moreover have "v mod 256 ^ Suc k = v mod 256 + 256 * (v div 256 mod 256 ^ k)"
    by (simp add: zmod_zmult2_eq add.commute)
  ultimately show ?case using Suc by simp
qed

lemma int_le_le_int: "int_le (length bs) (le_int bs) = bs"
proof (induction bs)
  case Nil
  then show ?case by simp
next
  case (Cons b bs)
  have b: "uint b < 256" using uint_lt2p [of b] by simp
  have "word_of_int (uint b + 256 * le_int bs) = (word_of_int (uint b) :: u8)"
    by (rule word_uint_eqI) (simp only: uint_word_of_int, simp)
  moreover have "(uint b + 256 * le_int bs) div 256 = le_int bs"
    using b by simp
  ultimately show ?case using Cons by simp
qed

text \<open>The encoding of a word on enough bytes decodes to it, and decoding then encoding is exact.\<close>

lemma le_word_word_le:
  fixes w :: "'a::len word"
  assumes "LENGTH('a) \<le> 8 * k"
  shows "le_word (word_le k w) = w"
proof -
  have "uint w < 2 ^ LENGTH('a)" by (rule uint_lt2p)
  also have "(2::int) ^ LENGTH('a) \<le> 2 ^ (8 * k)" using assms by (rule power_increasing) simp
  also have "(2::int) ^ (8 * k) = 256 ^ k" by (simp add: power_mult)
  finally have "uint w mod 256 ^ k = uint w" by simp
  then show ?thesis by (simp add: le_word_def word_le_def le_int_int_le)
qed

lemma le_word64 [simp]: "le_word (word_le 8 w) = (w :: u64)"
  and le_word32 [simp]: "le_word (word_le 4 v) = (v :: u32)"
  and le_word16 [simp]: "le_word (word_le 2 x) = (x :: u16)"
  and le_word8 [simp]: "le_word (word_le (Suc 0) y) = (y :: u8)"
  by (rule le_word_word_le; simp)+

lemma word_le_8bit [simp]: "word_le (Suc 0) (y :: u8) = [y]"
  by (simp add: word_le_def)

lemma le_int_zeros [simp]: "le_int (replicate n 0) = 0"
  by (induction n) auto

lemma le_word_zeros [simp]: "le_word (replicate n 0) = 0"
  by (simp add: le_word_def)

section \<open>Overwriting a prefix of a buffer\<close>

text \<open>
  A read helper writes the bytes \<open>bs\<close> to the start of its destination: the rest of the
  destination stays. \<open>overlay_at\<close> is the same at an offset inside the destination.
\<close>

definition overlay :: "'a list \<Rightarrow> 'a list \<Rightarrow> 'a list" where
  "overlay bs dst = bs @ drop (length bs) dst"

definition overlay_at :: "nat \<Rightarrow> 'a list \<Rightarrow> 'a list \<Rightarrow> 'a list" where
  "overlay_at i bs dst = take i dst @ overlay bs (drop i dst)"

lemma length_overlay: "length bs \<le> length dst \<Longrightarrow> length (overlay bs dst) = length dst"
  by (simp add: overlay_def)

lemma length_overlay_at:
  "i + length bs \<le> length dst \<Longrightarrow> length (overlay_at i bs dst) = length dst"
  by (simp add: overlay_at_def overlay_def)

lemma overlay_full [simp]: "length bs = length dst \<Longrightarrow> overlay bs dst = bs"
  by (simp add: overlay_def)

lemma overlay_replicate_full [simp]: "length bs = n \<Longrightarrow> overlay bs (replicate n z) = bs"
  by simp

lemma overlay_Nil [simp]: "overlay [] dst = dst"
  by (simp add: overlay_def)

lemma take_overlay_at_prefix:
  "i + length bs \<le> length dst \<Longrightarrow>
   take (i + length bs) (overlay_at i bs dst) = take i dst @ bs"
  by (simp add: overlay_at_def overlay_def)

lemma take_overlay_at_before: "j \<le> i \<Longrightarrow> i \<le> length dst \<Longrightarrow> take j (overlay_at i bs dst) = take j dst"
  by (simp add: overlay_at_def overlay_def)

section \<open>Lists and maps\<close>

lemma sum_list_map_add: "(\<Sum>x\<leftarrow>xs. f x + g x) = (\<Sum>x\<leftarrow>xs. f x) + (\<Sum>x\<leftarrow>xs. g x :: nat)"
  by (induction xs) auto

lemma card_dom_upd:
  assumes "finite (dom m)"
  shows "card (dom (m(k \<mapsto> v))) = (if m k = None then Suc (card (dom m)) else card (dom m))"
  using assms by (auto simp: insert_absorb domIff)

lemma finite_dom_upd [simp]: "finite (dom (m(k \<mapsto> v))) = finite (dom m)"
  by simp

lemma card_dom_delete:
  "finite (dom m) \<Longrightarrow> card (dom (m(k := None))) \<le> card (dom m)"
  by (auto intro: card_mono)

end
