(* ===== verification/CLayout.thy ===== *)
theory CLayout
  imports Prelude
begin

text \<open>
  The layout rules of C on the LP64 targets the program is built for (x86_64, aarch64 and the
  64-bit BPF target): sizes, alignments and bit offsets of scalars, arrays, structs, unions,
  anonymous members and bit-fields. Rust's \<open>repr(C)\<close> follows the same rules. The reader of a
  user-space struct field in the BPF program is compiled to the offset these rules give, so the
  offsets of the model are computed from the declarations and never written by hand.
\<close>

section \<open>C types\<close>

datatype ctype =
    CInt nat                         \<comment> \<open>scalar of so many bytes, aligned to its size\<close>
  | CPtr
  | CArr nat ctype
  | CStruct "cmember list"
  | CUnion "cmember list"
and cmember =
    Member string ctype
  | Bits string nat nat              \<comment> \<open>bit-field: name, bytes of the declared type, width\<close>
  | Anon ctype

definition round_up :: "nat \<Rightarrow> nat \<Rightarrow> nat" where
  "round_up a n = (n + a - 1) div a * a"

fun alignof :: "ctype \<Rightarrow> nat" and aligns :: "cmember list \<Rightarrow> nat" and
    member_align :: "cmember \<Rightarrow> nat" where
  "alignof (CInt n) = n"
| "alignof CPtr = 8"
| "alignof (CArr n t) = alignof t"
| "alignof (CStruct ms) = aligns ms"
| "alignof (CUnion ms) = aligns ms"
| "aligns [] = 1"
| "aligns (m # ms) = max (member_align m) (aligns ms)"
| "member_align (Member nm t) = alignof t"
| "member_align (Bits nm s w) = (if nm = [] then 1 else s)"
| "member_align (Anon t) = alignof t"

text \<open>
  The bit offset at which a member starts when the bits before \<open>p\<close> are taken. A bit-field that
  would cross a boundary of its declared type moves to the next one; a zero-width field only
  moves the position.
\<close>

fun place :: "cmember \<Rightarrow> nat \<Rightarrow> nat" where
  "place (Member nm t) p = round_up (8 * alignof t) p"
| "place (Anon t) p = round_up (8 * alignof t) p"
| "place (Bits nm s w) p =
     (if w = 0 then round_up (8 * s) p
      else if p div (8 * s) = (p + w - 1) div (8 * s) then p
      else round_up (8 * s) p)"

fun sizeof :: "ctype \<Rightarrow> nat" and member_bits :: "cmember \<Rightarrow> nat" and
    struct_end :: "cmember list \<Rightarrow> nat \<Rightarrow> nat" and union_bits :: "cmember list \<Rightarrow> nat" where
  "sizeof (CInt n) = n"
| "sizeof CPtr = 8"
| "sizeof (CArr n t) = n * sizeof t"
| "sizeof (CStruct ms) = round_up (aligns ms) ((struct_end ms 0 + 7) div 8)"
| "sizeof (CUnion ms) = round_up (aligns ms) ((union_bits ms + 7) div 8)"
| "member_bits (Member nm t) = 8 * sizeof t"
| "member_bits (Bits nm s w) = w"
| "member_bits (Anon t) = 8 * sizeof t"
| "struct_end [] p = p"
| "struct_end (m # ms) p = struct_end ms (place m p + member_bits m)"
| "union_bits [] = 0"
| "union_bits (m # ms) = max (member_bits m) (union_bits ms)"

text \<open>Where the members of a struct go: each with its first bit and its number of bits.\<close>

fun placements :: "cmember list \<Rightarrow> nat \<Rightarrow> (cmember \<times> nat \<times> nat) list" where
  "placements [] p = []"
| "placements (m # ms) p =
     (m, place m p, member_bits m) # placements ms (place m p + member_bits m)"

text \<open>
  The bit offset and width of a named field, looking through anonymous structs and unions as C's
  name lookup does.
\<close>

fun field_in :: "string \<Rightarrow> ctype \<Rightarrow> (nat \<times> nat) option" and
    field_struct :: "string \<Rightarrow> cmember list \<Rightarrow> nat \<Rightarrow> (nat \<times> nat) option" and
    field_union :: "string \<Rightarrow> cmember list \<Rightarrow> (nat \<times> nat) option" and
    field_member :: "string \<Rightarrow> cmember \<Rightarrow> (nat \<times> nat) option" where
  "field_in f (CStruct ms) = field_struct f ms 0"
| "field_in f (CUnion ms) = field_union f ms"
| "field_in f (CInt n) = None"
| "field_in f CPtr = None"
| "field_in f (CArr n t) = None"
| "field_struct f [] p = None"
| "field_struct f (m # ms) p =
     (case field_member f m of
        Some (q, w) \<Rightarrow> Some (place m p + q, w)
      | None \<Rightarrow> field_struct f ms (place m p + member_bits m))"
| "field_union f [] = None"
| "field_union f (m # ms) =
     (case field_member f m of Some r \<Rightarrow> Some r | None \<Rightarrow> field_union f ms)"
| "field_member f (Member nm t) = (if f = nm then Some (0, 8 * sizeof t) else None)"
| "field_member f (Bits nm s w) = (if f = nm then Some (0, w) else None)"
| "field_member f (Anon t) = field_in f t"

text \<open>\<open>offsetof\<close>: the byte offset of a field; a name the type does not have has no offset.\<close>

definition field_offset :: "ctype \<Rightarrow> string \<Rightarrow> nat option" where
  "field_offset t f = map_option (\<lambda>(q, w). q div 8) (field_in f t)"

definition offsetof :: "ctype \<Rightarrow> string \<Rightarrow> nat" where
  "offsetof t f = (case field_offset t f of Some n \<Rightarrow> n | None \<Rightarrow> 0)"

lemmas layout_eval [layout_simps] =
  round_up_def field_offset_def offsetof_def

section \<open>Soundness of the rules\<close>

text \<open>Types whose scalars have a positive size, and whose bit-fields fit their declared type.\<close>

fun wf_type :: "ctype \<Rightarrow> bool" and wf_member :: "cmember \<Rightarrow> bool" where
  "wf_type (CInt n) = (0 < n)"
| "wf_type CPtr = True"
| "wf_type (CArr n t) = wf_type t"
| "wf_type (CStruct ms) = list_all wf_member ms"
| "wf_type (CUnion ms) = list_all wf_member ms"
| "wf_member (Member nm t) = wf_type t"
| "wf_member (Bits nm s w) = (0 < s \<and> w \<le> 8 * s)"
| "wf_member (Anon t) = wf_type t"

lemma round_up_ge: "0 < a \<Longrightarrow> n \<le> round_up a n"
  unfolding round_up_def
  using div_mult_mod_eq [of "n + a - 1" a] mod_less_divisor [of a "n + a - 1"] by linarith

lemma round_up_lt: "0 < a \<Longrightarrow> round_up a n < n + a"
  unfolding round_up_def
  using div_times_less_eq_dividend [of "n + a - 1" a] by linarith

lemma round_up_dvd [simp]: "a dvd round_up a n"
  by (simp add: round_up_def)

lemma round_up_exact: "0 < a \<Longrightarrow> a dvd n \<Longrightarrow> round_up a n = n"
  using round_up_ge [of a n] round_up_lt [of a n]
  by (metis dvd_diff_nat dvd_imp_le le_add_diff_inverse less_add_eq_less add.commute
      nat_add_left_cancel_less not_le round_up_dvd zero_less_diff le_neq_implies_less)

lemma align_pos:
  shows "wf_type t \<Longrightarrow> 0 < alignof t" and "list_all wf_member ms \<Longrightarrow> 0 < aligns ms"
    and "wf_member m \<Longrightarrow> 0 < member_align m"
  by (induction t and ms and m rule: alignof_aligns_member_align.induct) auto

lemma place_ge: "wf_member m \<Longrightarrow> p \<le> place m p"
  by (cases m) (auto intro!: round_up_ge simp: align_pos)

lemma struct_end_ge: "list_all wf_member ms \<Longrightarrow> p \<le> struct_end ms p"
proof (induction ms arbitrary: p)
  case Nil
  then show ?case by simp
next
  case (Cons m ms)
  then have "p \<le> place m p + member_bits m"
    using place_ge [of m p] by (simp add: trans_le_add1)
  also have "\<dots> \<le> struct_end ms (place m p + member_bits m)"
    using Cons by simp
  finally show ?case by simp
qed

lemma struct_end_bytes: "list_all wf_member ms \<Longrightarrow> struct_end ms 0 \<le> 8 * sizeof (CStruct ms)"
  using round_up_ge [of "aligns ms" "(struct_end ms 0 + 7) div 8"] align_pos(2) [of ms]
  by fastforce

lemma union_bytes: "list_all wf_member ms \<Longrightarrow> union_bits ms \<le> 8 * sizeof (CUnion ms)"
  using round_up_ge [of "aligns ms" "(union_bits ms + 7) div 8"] align_pos(2) [of ms]
  by fastforce

text \<open>The size of a type is a multiple of its alignment, so array elements stay aligned.\<close>

lemma sizeof_aligned: "alignof t dvd sizeof t"
  by (induction t rule: ctype.induct [where ?P2.0 = "\<lambda>_. True"]) auto

text \<open>Consecutive members do not overlap, and every one ends inside the struct.\<close>

lemma placements_start:
  "list_all wf_member ms \<Longrightarrow> (m, s, w) \<in> set (placements ms p) \<Longrightarrow> p \<le> s"
proof (induction ms arbitrary: p)
  case Nil
  then show ?case by simp
next
  case (Cons m' ms)
  have "p \<le> place m' p" using Cons.prems(1) by (simp add: place_ge)
  with Cons show ?case by fastforce
qed

lemma placements_end:
  "list_all wf_member ms \<Longrightarrow> (m, s, w) \<in> set (placements ms p) \<Longrightarrow> s + w \<le> struct_end ms p"
proof (induction ms arbitrary: p)
  case Nil
  then show ?case by simp
next
  case (Cons m' ms)
  then show ?case using struct_end_ge [of ms "place m' p + member_bits m'"] by auto
qed

lemma placements_disjoint:
  "list_all wf_member ms \<Longrightarrow>
   sorted_wrt (\<lambda>(m, s, w) (m', s', w'). s + w \<le> s') (placements ms p)"
proof (induction ms arbitrary: p)
  case Nil
  then show ?case by simp
next
  case (Cons m ms)
  then show ?case by (auto dest: placements_start)
qed

lemma field_bounds:
  shows "field_in f t = Some (q, w) \<Longrightarrow> wf_type t \<Longrightarrow> q + w \<le> 8 * sizeof t"
    and "field_struct f ms p = Some (q, w) \<Longrightarrow> list_all wf_member ms \<Longrightarrow>
         p \<le> q \<and> q + w \<le> struct_end ms p"
    and "field_union f ms = Some (q, w) \<Longrightarrow> list_all wf_member ms \<Longrightarrow> q + w \<le> union_bits ms"
    and "field_member f m = Some (q, w) \<Longrightarrow> wf_member m \<Longrightarrow> q + w \<le> member_bits m"
proof (induction f t and f ms p and f ms and f m arbitrary: q w and q w and q w and q w
    rule: field_in_field_struct_field_union_field_member.induct)
  case (1 f ms)
  then show ?case using struct_end_bytes [of ms] by fastforce
next
  case (2 f ms)
  then show ?case using union_bytes [of ms] by fastforce
next
  case (7 f m ms p)
  have wf: "wf_member m" "list_all wf_member ms" using "7.prems" by auto
  note ge = place_ge [OF wf(1), of p] struct_end_ge [OF wf(2), of "place m p + member_bits m"]
  show ?case
  proof (cases "field_member f m")
    case None
    with 7 wf ge show ?thesis by fastforce
  next
    case (Some r)
    with "7.prems" wf "7.IH"(1) [of "fst r" "snd r"] ge show ?thesis by (cases r) auto
  qed
next
  case (9 f m ms)
  then show ?case by (auto split: option.splits)
qed (auto split: if_splits)

section \<open>All fields at once\<close>

text \<open>
  The table of all fields of a type with their bits, computed in one pass; looking a field up in
  it is \<open>field_in\<close>.
\<close>

definition shift_fields :: "nat \<Rightarrow> (string \<times> nat \<times> nat) list \<Rightarrow> (string \<times> nat \<times> nat) list" where
  "shift_fields p = map (\<lambda>(f, q, w). (f, p + q, w))"

fun fields_of :: "ctype \<Rightarrow> (string \<times> nat \<times> nat) list" and
    fields_struct :: "cmember list \<Rightarrow> nat \<Rightarrow> (string \<times> nat \<times> nat) list" and
    fields_union :: "cmember list \<Rightarrow> (string \<times> nat \<times> nat) list" and
    fields_member :: "cmember \<Rightarrow> (string \<times> nat \<times> nat) list" where
  "fields_of (CStruct ms) = fields_struct ms 0"
| "fields_of (CUnion ms) = fields_union ms"
| "fields_of (CInt n) = []"
| "fields_of CPtr = []"
| "fields_of (CArr n t) = []"
| "fields_struct [] p = []"
| "fields_struct (m # ms) p =
     shift_fields (place m p) (fields_member m) @ fields_struct ms (place m p + member_bits m)"
| "fields_union [] = []"
| "fields_union (m # ms) = fields_member m @ fields_union ms"
| "fields_member (Member nm t) = [(nm, 0, 8 * sizeof t)]"
| "fields_member (Bits nm s w) = [(nm, 0, w)]"
| "fields_member (Anon t) = fields_of t"

lemma shift_fields_simps [simp]:
  "shift_fields p [] = []"
  "shift_fields p ((f, q, w) # xs) = (f, p + q, w) # shift_fields p xs"
  by (simp_all add: shift_fields_def)

lemma map_of_shift_fields:
  "map_of (shift_fields p xs) f = map_option (\<lambda>(q, w). (p + q, w)) (map_of xs f)"
  by (induction xs) (auto simp: shift_fields_def)

lemma map_of_fields:
  "map_of (fields_of t) f = field_in f t"
  "map_of (fields_struct ms p) f = field_struct f ms p"
  "map_of (fields_union ms) f = field_union f ms"
  "map_of (fields_member m) f = field_member f m"
proof (induction t and ms p and ms and m rule: fields_of_fields_struct_fields_union_fields_member.induct)
  case (7 m ms p)
  then show ?case
    by (simp add: map_add_def map_of_shift_fields split: option.splits)
next
  case (9 m ms)
  then show ?case by (simp add: map_add_def split: option.splits)
qed auto

lemma fields_ofD: "fields_of t = tab \<Longrightarrow> field_in f t = map_of tab f"
  by (simp flip: map_of_fields)

end
