(* ===== verification/BpfMaps.thy ===== *)
theory BpfMaps
  imports Prelude "HOL-Library.AList"
begin

text \<open>
  The BPF hash maps the program keeps its per-thread state in. The map helpers
  \<open>bpf_map_lookup_elem\<close>, \<open>bpf_map_update_elem\<close> and \<open>bpf_map_delete_elem\<close> are kernel code: the
  handlers take them as the argument \<open>map_ops\<close>, and the locale \<open>hash_map\<close> states what bpf(2)
  documents of a \<open>BPF_MAP_TYPE_HASH\<close> map with \<open>max_entries\<close>: an update of a key that is absent from
  a full map fails (\<open>E2BIG\<close>) and changes nothing. An association list with distinct keys meets
  these laws, so they can hold.
\<close>

section \<open>The helpers as an argument\<close>

record ('m, 'v) map_ops =
  map_lookup :: "'m \<Rightarrow> u32 \<Rightarrow> 'v option"
  map_update :: "'m \<Rightarrow> u32 \<Rightarrow> 'v \<Rightarrow> 'm"
  map_delete :: "'m \<Rightarrow> u32 \<Rightarrow> 'm"

definition entries :: "('m, 'v) map_ops \<Rightarrow> 'm \<Rightarrow> nat" where
  "entries ops m = card (dom (map_lookup ops m))"

text \<open>Whether an update of a key takes effect.\<close>

definition has_room :: "('m, 'v) map_ops \<Rightarrow> nat \<Rightarrow> 'm \<Rightarrow> u32 \<Rightarrow> bool" where
  "has_room ops cap m k \<longleftrightarrow> map_lookup ops m k \<noteq> None \<or> entries ops m < cap"

locale hash_map =
  fixes ops :: "('m, 'v) map_ops"
    and cap :: nat
    and invar :: "'m \<Rightarrow> bool"
  assumes lookup_update:
      "invar m \<Longrightarrow> has_room ops cap m k \<Longrightarrow>
       map_lookup ops (map_update ops m k v) = (map_lookup ops m)(k \<mapsto> v)"
    and lookup_update_full:
      "invar m \<Longrightarrow> \<not> has_room ops cap m k \<Longrightarrow>
       map_lookup ops (map_update ops m k v) = map_lookup ops m"
    and lookup_delete:
      "invar m \<Longrightarrow> map_lookup ops (map_delete ops m k) = (map_lookup ops m)(k := None)"
    and invar_update: "invar m \<Longrightarrow> invar (map_update ops m k v)"
    and invar_delete: "invar m \<Longrightarrow> invar (map_delete ops m k)"
    and invar_bounded: "invar m \<Longrightarrow> entries ops m \<le> cap"
begin

lemmas laws = lookup_update lookup_update_full lookup_delete invar_update invar_delete

text \<open>What a handler sees of a key after an update or a delete, whatever the map's load.\<close>

lemma lookup_update_cases:
  "invar m \<Longrightarrow>
   map_lookup ops (map_update ops m k v) k' =
     (if k' = k \<and> has_room ops cap m k then Some v else map_lookup ops m k')"
  by (cases "has_room ops cap m k") (simp_all add: lookup_update lookup_update_full)

lemma lookup_delete_cases:
  "invar m \<Longrightarrow>
   map_lookup ops (map_delete ops m k) k' = (if k' = k then None else map_lookup ops m k')"
  by (simp add: lookup_delete)

text \<open>A property of every stored value survives updates with values that have it.\<close>

lemma values_update:
  assumes "invar m" and "\<And>k v. map_lookup ops m k = Some v \<Longrightarrow> P k v" and "P k v"
    and "map_lookup ops (map_update ops m k v) k' = Some v'"
  shows "P k' v'"
  using assms by (auto simp: lookup_update_cases split: if_splits)

lemma values_delete:
  assumes "invar m" and "\<And>k v. map_lookup ops m k = Some v \<Longrightarrow> P k v"
    and "map_lookup ops (map_delete ops m k) k' = Some v'"
  shows "P k' v'"
  using assms by (auto simp: lookup_delete_cases split: if_splits)

text \<open>
  When all keys ever stored lie in a set no larger than the map, every one of them has room.
\<close>

lemma has_room_within:
  assumes "dom (map_lookup ops m) \<subseteq> T" and "card T \<le> cap" and "k \<in> T"
  shows "has_room ops cap m k"
proof (cases "map_lookup ops m k")
  case None
  with assms have "dom (map_lookup ops m) \<subset> T" by blast
  then have "entries ops m < card T"
    unfolding entries_def by (simp add: psubset_card_mono)
  with assms(2) show ?thesis by (simp add: has_room_def)
qed (simp add: has_room_def)

lemma has_room_present: "map_lookup ops m k = Some v \<Longrightarrow> has_room ops cap m k"
  by (simp add: has_room_def)

end

section \<open>A reference implementation of the laws\<close>

definition alist_ops :: "nat \<Rightarrow> ((u32 \<times> 'v) list, 'v) map_ops" where
  "alist_ops cap =
     \<lparr>map_lookup = map_of,
      map_update = (\<lambda>m k v. if map_of m k \<noteq> None \<or> length m < cap then AList.update k v m else m),
      map_delete = (\<lambda>m k. AList.delete k m)\<rparr>"

definition alist_invar :: "nat \<Rightarrow> (u32 \<times> 'v) list \<Rightarrow> bool" where
  "alist_invar cap m \<longleftrightarrow> distinct (map fst m) \<and> length m \<le> cap"

lemma alist_ops_simps [simp]:
  "map_lookup (alist_ops cap) = map_of"
  "map_update (alist_ops cap) m k v =
     (if map_of m k \<noteq> None \<or> length m < cap then AList.update k v m else m)"
  "map_delete (alist_ops cap) m k = AList.delete k m"
  by (simp_all add: alist_ops_def)

lemma entries_alist: "distinct (map fst m) \<Longrightarrow> entries (alist_ops cap) m = length m"
  by (metis alist_ops_simps(1) distinct_card dom_map_of_conv_image_fst entries_def length_map
      list.set_map)

lemma length_alist_update:
  "length (AList.update k v m) = (if map_of m k = None then Suc (length m) else length m)"
  by (induction m) auto

lemma length_alist_delete: "length (AList.delete k m) \<le> length m"
  by (simp add: AList.delete_eq)

lemma alist_hash_map: "hash_map (alist_ops cap) cap (alist_invar cap)"
proof (unfold_locales, goal_cases)
  case (1 m k v)
  then show ?case
    by (auto simp: has_room_def entries_alist alist_invar_def update_conv')
next
  case (2 m k v)
  then show ?case by (auto simp: has_room_def entries_alist alist_invar_def)
next
  case (3 m k)
  then show ?case by (simp add: delete_conv')
next
  case (4 m k v)
  then show ?case
    by (auto simp: alist_invar_def length_alist_update distinct_update)
next
  case (5 m k)
  then show ?case
    using length_alist_delete [of k m] by (auto simp: alist_invar_def distinct_delete)
next
  case (6 m)
  then show ?case by (simp add: alist_invar_def entries_alist)
qed

interpretation alist: hash_map "alist_ops cap" cap "alist_invar cap" for cap
  by (rule alist_hash_map)

lemma alist_invar_Nil [simp]: "alist_invar cap []"
  by (simp add: alist_invar_def)

end
