(* ===== verification/Events.thy ===== *)
theory Events
  imports CLayout
begin

text \<open>
  The records that cross from the BPF program to user space: \<open>bpf/common.h\<close> and its Rust mirror
  \<open>src/types.rs\<close>. The values are HOL records with the sources' fields; the memory layout of the
  two declarations is a \<open>ctype\<close> each, and the two layouts are shown to agree field by field,
  which is what lets user space copy the raw bytes of an event over its own struct.
\<close>

section \<open>Constants\<close>

definition MAX_ENTRIES :: nat where "MAX_ENTRIES = 10240"
definition CHUNKNAME_LEN :: nat where "CHUNKNAME_LEN = 128"
definition MAX_LUA_DEPTH :: nat where "MAX_LUA_DEPTH = 8"
definition PERF_MAX_STACK_DEPTH :: nat where "PERF_MAX_STACK_DEPTH = 32"
definition USER_STACK_SNAPSHOT_SIZE :: nat where "USER_STACK_SNAPSHOT_SIZE = 4096"
definition USER_STACK_SNAPSHOT_CHUNK_SIZE :: nat where
  "USER_STACK_SNAPSHOT_CHUNK_SIZE = 512"

lemmas common_consts =
  MAX_ENTRIES_def CHUNKNAME_LEN_def MAX_LUA_DEPTH_def PERF_MAX_STACK_DEPTH_def
  USER_STACK_SNAPSHOT_SIZE_def USER_STACK_SNAPSHOT_CHUNK_SIZE_def

text \<open>\<open>enum func_type\<close>: the values stored in the 32-bit field \<open>type\<close> of an event.\<close>

definition FUNC_TYPE_LUA :: i32 where "FUNC_TYPE_LUA = 0"
definition FUNC_TYPE_C :: i32 where "FUNC_TYPE_C = 1"
definition FUNC_TYPE_F :: i32 where "FUNC_TYPE_F = 2"
definition FUNC_TYPE_JIT :: i32 where "FUNC_TYPE_JIT = 3"

lemmas func_types = FUNC_TYPE_LUA_def FUNC_TYPE_C_def FUNC_TYPE_F_def FUNC_TYPE_JIT_def

lemma func_types_distinct [simp]:
  "FUNC_TYPE_LUA \<noteq> FUNC_TYPE_C" "FUNC_TYPE_LUA \<noteq> FUNC_TYPE_F" "FUNC_TYPE_LUA \<noteq> FUNC_TYPE_JIT"
  "FUNC_TYPE_C \<noteq> FUNC_TYPE_F" "FUNC_TYPE_C \<noteq> FUNC_TYPE_JIT" "FUNC_TYPE_F \<noteq> FUNC_TYPE_JIT"
  "FUNC_TYPE_C \<noteq> FUNC_TYPE_LUA" "FUNC_TYPE_F \<noteq> FUNC_TYPE_LUA" "FUNC_TYPE_JIT \<noteq> FUNC_TYPE_LUA"
  "FUNC_TYPE_F \<noteq> FUNC_TYPE_C" "FUNC_TYPE_JIT \<noteq> FUNC_TYPE_C" "FUNC_TYPE_JIT \<noteq> FUNC_TYPE_F"
  by (simp_all add: func_types)

section \<open>Values\<close>

record sample_key =
  sk_pid :: u32
  sk_tid :: u32
  sk_seq :: u32

record native_event =
  ne_key :: sample_key
  ne_ip_cnt :: u32
  ne_stack_len :: u32
  ne_ip :: u64
  ne_sp :: u64
  ne_fp :: u64
  ne_lr :: u64
  ne_ips :: "u64 list"      \<comment> \<open>\<open>PERF_MAX_STACK_DEPTH\<close> slots\<close>
  ne_stack :: "u8 list"     \<comment> \<open>\<open>USER_STACK_SNAPSHOT_SIZE\<close> bytes\<close>

record lua_stack_event =
  le_key :: sample_key
  le_level :: i32
  le_type :: i32
  le_name :: "u8 list"      \<comment> \<open>\<open>CHUNKNAME_LEN\<close> bytes\<close>
  le_funcp :: u64
  le_line :: i32

text \<open>The array fields have the lengths the C declarations fix.\<close>

definition wf_native :: "native_event \<Rightarrow> bool" where
  "wf_native e \<longleftrightarrow> length (ne_ips e) = PERF_MAX_STACK_DEPTH \<and>
                 length (ne_stack e) = USER_STACK_SNAPSHOT_SIZE"

definition wf_lua :: "lua_stack_event \<Rightarrow> bool" where
  "wf_lua e \<longleftrightarrow> length (le_name e) = CHUNKNAME_LEN"

text \<open>\<open>Default\<close> of \<open>types.rs\<close>, which is also the zero value a per-CPU map slot starts with.\<close>

definition default_key :: sample_key where
  "default_key = \<lparr>sk_pid = 0, sk_tid = 0, sk_seq = 0\<rparr>"

definition default_native :: native_event where
  "default_native =
     \<lparr>ne_key = default_key, ne_ip_cnt = 0, ne_stack_len = 0, ne_ip = 0, ne_sp = 0, ne_fp = 0,
      ne_lr = 0, ne_ips = replicate PERF_MAX_STACK_DEPTH 0,
      ne_stack = replicate USER_STACK_SNAPSHOT_SIZE 0\<rparr>"

definition default_lua :: lua_stack_event where
  "default_lua =
     \<lparr>le_key = default_key, le_level = 0, le_type = 0, le_name = replicate CHUNKNAME_LEN 0,
      le_funcp = 0, le_line = 0\<rparr>"

lemma wf_default [simp]: "wf_native default_native" "wf_lua default_lua"
  by (simp_all add: wf_native_def wf_lua_def default_native_def default_lua_def)

section \<open>Layouts\<close>

definition sample_key_t :: ctype where
  "sample_key_t = CStruct
     [Member ''pid'' (CInt 4), Member ''tid'' (CInt 4), Member ''seq'' (CInt 4)]"

definition native_event_t :: ctype where
  "native_event_t = CStruct
     [Member ''key'' sample_key_t,
      Member ''ip_cnt'' (CInt 4), Member ''stack_len'' (CInt 4),
      Member ''ip'' (CInt 8), Member ''sp'' (CInt 8), Member ''fp'' (CInt 8),
      Member ''lr'' (CInt 8),
      Member ''ips'' (CArr PERF_MAX_STACK_DEPTH (CInt 8)),
      Member ''stack'' (CArr USER_STACK_SNAPSHOT_SIZE (CInt 1))]"

definition lua_stack_event_t :: ctype where
  "lua_stack_event_t = CStruct
     [Member ''key'' sample_key_t,
      Member ''level'' (CInt 4), Member ''type'' (CInt 4),
      Member ''name'' (CArr CHUNKNAME_LEN (CInt 1)),
      Member ''funcp'' (CInt 8), Member ''line'' (CInt 4)]"

text \<open>The \<open>repr(C)\<close> structs of \<open>types.rs\<close>, with their own constants.\<close>

definition rs_CHUNKNAME_LEN :: nat where "rs_CHUNKNAME_LEN = 128"
definition rs_PERF_MAX_STACK_DEPTH :: nat where "rs_PERF_MAX_STACK_DEPTH = 32"
definition rs_USER_STACK_SNAPSHOT_SIZE :: nat where "rs_USER_STACK_SNAPSHOT_SIZE = 4096"

definition SampleKey_t :: ctype where
  "SampleKey_t = CStruct
     [Member ''pid'' (CInt 4), Member ''tid'' (CInt 4), Member ''seq'' (CInt 4)]"

definition NativeEvent_t :: ctype where
  "NativeEvent_t = CStruct
     [Member ''key'' SampleKey_t,
      Member ''ip_cnt'' (CInt 4), Member ''stack_len'' (CInt 4),
      Member ''ip'' (CInt 8), Member ''sp'' (CInt 8), Member ''fp'' (CInt 8),
      Member ''lr'' (CInt 8),
      Member ''ips'' (CArr rs_PERF_MAX_STACK_DEPTH (CInt 8)),
      Member ''stack'' (CArr rs_USER_STACK_SNAPSHOT_SIZE (CInt 1))]"

definition LuaStackEvent_t :: ctype where
  "LuaStackEvent_t = CStruct
     [Member ''key'' SampleKey_t,
      Member ''level'' (CInt 4), Member ''type'' (CInt 4),
      Member ''name'' (CArr rs_CHUNKNAME_LEN (CInt 1)),
      Member ''funcp'' (CInt 8), Member ''line'' (CInt 4)]"

lemmas rs_consts =
  rs_CHUNKNAME_LEN_def rs_PERF_MAX_STACK_DEPTH_def rs_USER_STACK_SNAPSHOT_SIZE_def

lemmas event_layouts [layout_simps] =
  sample_key_t_def native_event_t_def lua_stack_event_t_def
  SampleKey_t_def NativeEvent_t_def LuaStackEvent_t_def

text \<open>The evaluated layout facts the codecs and the sampler use.\<close>

lemma native_event_layout:
  "sizeof native_event_t = 4408" "offsetof native_event_t ''key'' = 0"
  "offsetof native_event_t ''ip_cnt'' = 12" "offsetof native_event_t ''stack_len'' = 16"
  "offsetof native_event_t ''ip'' = 24" "offsetof native_event_t ''sp'' = 32"
  "offsetof native_event_t ''fp'' = 40" "offsetof native_event_t ''lr'' = 48"
  "offsetof native_event_t ''ips'' = 56" "offsetof native_event_t ''stack'' = 312"
  by (simp_all add: layout_simps common_consts)

lemma lua_stack_event_layout:
  "sizeof lua_stack_event_t = 168" "offsetof lua_stack_event_t ''key'' = 0"
  "offsetof lua_stack_event_t ''level'' = 12" "offsetof lua_stack_event_t ''type'' = 16"
  "offsetof lua_stack_event_t ''name'' = 20" "offsetof lua_stack_event_t ''funcp'' = 152"
  "offsetof lua_stack_event_t ''line'' = 160"
  by (simp_all add: layout_simps common_consts)

lemma rust_layouts:
  "sizeof NativeEvent_t = 4408" "sizeof LuaStackEvent_t = 168"
  by (simp_all add: layout_simps rs_consts)

lemma rust_mirror:
  "SampleKey_t = sample_key_t" "NativeEvent_t = native_event_t" "LuaStackEvent_t = lua_stack_event_t"
  by (simp_all add: layout_simps rs_consts common_consts)

end
