(* ===== verification/BpfEnv.thy ===== *)
theory BpfEnv
  imports BpfMaps Events
begin

text \<open>
  What a run of the BPF program is given: the read-only configuration user space fills in before
  loading (\<open>rodata\<close> of \<open>profile.bpf.c\<close>), the registers of the context, and the user-memory probes.
\<close>

section \<open>Configuration\<close>

record config =
  kernel_stacks_only :: bool
  user_stacks_only :: bool
  disable_lua_user_trace :: bool
  collect_native_stacks :: bool
  include_idle :: bool
  targ_pid :: i32
  targ_tid :: i32

definition default_config :: config where
  "default_config =
     \<lparr>kernel_stacks_only = False, user_stacks_only = False, disable_lua_user_trace = False,
      collect_native_stacks = False, include_idle = False, targ_pid = - 1, targ_tid = - 1\<rparr>"

text \<open>
  \<open>targ_pid != -1 && targ_pid != pid\<close>: the \<open>pid_t\<close> is compared with a \<open>u32\<close> after conversion to
  unsigned, which is equality of the 32-bit words.
\<close>

definition pid_filtered :: "config \<Rightarrow> u32 \<Rightarrow> bool" where
  "pid_filtered cfg pid \<longleftrightarrow> targ_pid cfg \<noteq> - 1 \<and> targ_pid cfg \<noteq> pid"

section \<open>Registers and the current task\<close>

datatype arch = X86_64 | Aarch64

text \<open>
  The registers the program reads: the first argument, instruction, stack and frame pointer and
  the return register through libbpf's \<open>PT_REGS_*\<close> macros, and the first word of the context.
\<close>

record pt_regs =
  PT_REGS_PARM1 :: u64
  PT_REGS_IP :: u64
  PT_REGS_SP :: u64
  PT_REGS_FP :: u64
  PT_REGS_RET :: u64
  regs_word0 :: u64

text \<open>\<open>get_pid_tid\<close> splits the value of \<open>bpf_get_current_pid_tgid\<close>.\<close>

definition get_pid_tid :: "u64 \<Rightarrow> u32 \<times> u32" where
  "get_pid_tid ptg = (ucast (drop_bit 32 ptg), ucast ptg)"

definition pid_of :: "u64 \<Rightarrow> u32" where "pid_of ptg = fst (get_pid_tid ptg)"
definition tid_of :: "u64 \<Rightarrow> u32" where "tid_of ptg = snd (get_pid_tid ptg)"

definition pid_tgid :: "u32 \<Rightarrow> u32 \<Rightarrow> u64" where
  "pid_tgid pid tid = push_bit 32 (ucast pid) + ucast tid"

lemma get_pid_tid_eq: "get_pid_tid ptg = (pid_of ptg, tid_of ptg)"
  by (simp add: pid_of_def tid_of_def)

lemma tid_of_eq [simp]: "tid_of ptg = ucast ptg"
  by (simp add: tid_of_def get_pid_tid_def)

lemma pid_of_eq [simp]: "pid_of ptg = ucast (drop_bit 32 ptg)"
  by (simp add: pid_of_def get_pid_tid_def)

definition get_lua_state_arg1 :: "arch \<Rightarrow> pt_regs \<Rightarrow> u64" where
  "get_lua_state_arg1 a ctx = (case a of Aarch64 \<Rightarrow> regs_word0 ctx | X86_64 \<Rightarrow> PT_REGS_PARM1 ctx)"

section \<open>User-memory probes\<close>

text \<open>
  \<open>bpf_probe_read_user(dst, n, a)\<close> is an argument \<open>rd\<close> of the model: \<open>rd a n\<close> is whether the read
  succeeded and the bytes the destination starts with afterwards. \<open>probe_law\<close> is what the helper
  documents: it never writes more than \<open>n\<close> bytes and a successful read fills all \<open>n\<close>.
\<close>

type_synonym probe = "u64 \<Rightarrow> nat \<Rightarrow> bool \<times> u8 list"

definition probe_law :: "probe \<Rightarrow> bool" where
  "probe_law rd \<longleftrightarrow> (\<forall>a n. length (snd (rd a n)) \<le> n \<and> (fst (rd a n) \<longrightarrow> length (snd (rd a n)) = n))"

text \<open>\<open>LUARD_T\<close>: a zeroed local, then a probe whose result is ignored.\<close>

definition LUARD_T :: "probe \<Rightarrow> u64 \<Rightarrow> nat \<Rightarrow> u8 list" where
  "LUARD_T rd a n = overlay (snd (rd a n)) (replicate n 0)"

definition rd_u64 :: "probe \<Rightarrow> u64 \<Rightarrow> u64" where "rd_u64 rd a = le_word (LUARD_T rd a 8)"
definition rd_u32 :: "probe \<Rightarrow> u64 \<Rightarrow> u32" where "rd_u32 rd a = le_word (LUARD_T rd a 4)"
definition rd_u16 :: "probe \<Rightarrow> u64 \<Rightarrow> u16" where "rd_u16 rd a = le_word (LUARD_T rd a 2)"
definition rd_u8 :: "probe \<Rightarrow> u64 \<Rightarrow> u8" where "rd_u8 rd a = le_word (LUARD_T rd a 1)"

lemmas rd_defs = rd_u64_def rd_u32_def rd_u16_def rd_u8_def

text \<open>
  A target's memory as a partial map from addresses to bytes gives such a probe: a read succeeds
  exactly when every byte of the range is mapped, and a failed one leaves the destination zeroed.
\<close>

type_synonym user_mem = "u64 \<Rightarrow> u8 option"

fun mem_range :: "user_mem \<Rightarrow> u64 \<Rightarrow> nat \<Rightarrow> u8 list option" where
  "mem_range M a 0 = Some []"
| "mem_range M a (Suc n) =
     (case M a of None \<Rightarrow> None
      | Some b \<Rightarrow> (case mem_range M (a + 1) n of None \<Rightarrow> None | Some bs \<Rightarrow> Some (b # bs)))"

definition probe_of :: "user_mem \<Rightarrow> probe" where
  "probe_of M a n = (case mem_range M a n of Some bs \<Rightarrow> (True, bs) | None \<Rightarrow> (False, replicate n 0))"

lemma mem_range_length: "mem_range M a n = Some bs \<Longrightarrow> length bs = n"
  by (induction M a n arbitrary: bs rule: mem_range.induct) (auto split: option.splits)

lemma probe_of_law [simp]: "probe_law (probe_of M)"
  by (auto simp: probe_law_def probe_of_def mem_range_length split: option.splits)

text \<open>
  A probe over a few known cells, for concrete runs: each cell is an address with its bytes.
\<close>

definition probe_cells :: "(u64 \<times> u8 list) list \<Rightarrow> probe" where
  "probe_cells cells a n =
     (case map_of cells a of
        Some bs \<Rightarrow> if n \<le> length bs then (True, take n bs) else (False, replicate n 0)
      | None \<Rightarrow> (False, replicate n 0))"

lemma probe_cells_law [simp]: "probe_law (probe_cells cells)"
  by (auto simp: probe_law_def probe_cells_def split: option.splits)

lemma length_LUARD_T: "probe_law rd \<Longrightarrow> length (LUARD_T rd a n) = n"
  by (simp add: LUARD_T_def length_overlay probe_law_def)

lemma LUARD_T_ok: "probe_law rd \<Longrightarrow> fst (rd a n) \<Longrightarrow> LUARD_T rd a n = snd (rd a n)"
  by (simp add: LUARD_T_def probe_law_def)

text \<open>A probe that fails and writes nothing or zeros reads as 0, never as garbage.\<close>

lemma LUARD_T_failed:
  assumes "snd (rd a n) = [] \<or> snd (rd a n) = replicate n 0"
  shows "LUARD_T rd a n = replicate n 0"
  using assms by (auto simp: LUARD_T_def)

end
