(* ===== verification/LuaTracker.thy ===== *)
theory LuaTracker
  imports BpfEnv
begin

text \<open>
  The per-thread tracker of the running \<open>lua_State\<close>: the uprobe \<open>handle_entry_lua\<close> on
  \<open>lua_resume\<close>/\<open>lua_pcall\<close> and the uretprobe \<open>handle_return_lua\<close> on these and on \<open>lua_yield\<close>
  (\<open>bpf/profile.bpf.c\<close>). Its abstract specification is a counter of open calls per thread together
  with the state most recently entered.
\<close>

section \<open>Handlers\<close>

record lua_state_slot =
  slot_ptr :: u64
  slot_depth :: u32

definition handle_entry_lua ::
    "config \<Rightarrow> arch \<Rightarrow> ('m, lua_state_slot) map_ops \<Rightarrow> u64 \<Rightarrow> pt_regs \<Rightarrow> 'm \<Rightarrow> 'm" where
  "handle_entry_lua cfg arch ops ptg ctx m =
     (let (pid, tid) = get_pid_tid ptg in
      if pid_filtered cfg pid then m
      else let L = get_lua_state_arg1 arch ctx in
      if L = 0 then m
      else let old = map_lookup ops m tid;
               slot = \<lparr>slot_ptr = L, slot_depth = 1\<rparr>;
               slot = (case old of
                         Some o' \<Rightarrow> if slot_depth o' < 0xffff
                                   then slot\<lparr>slot_depth := slot_depth o' + 1\<rparr> else slot
                       | None \<Rightarrow> slot)
           in map_update ops m tid slot)"

definition handle_return_lua ::
    "config \<Rightarrow> ('m, lua_state_slot) map_ops \<Rightarrow> u64 \<Rightarrow> 'm \<Rightarrow> 'm" where
  "handle_return_lua cfg ops ptg m =
     (let (pid, tid) = get_pid_tid ptg in
      if pid_filtered cfg pid then m
      else case map_lookup ops m tid of
             None \<Rightarrow> map_delete ops m tid
           | Some slot \<Rightarrow>
               if slot_depth slot \<le> 1 then map_delete ops m tid
               else map_update ops m tid (slot\<lparr>slot_depth := slot_depth slot - 1\<rparr>))"

section \<open>Runs of the probes\<close>

datatype lua_probe = Entry u64 pt_regs | Return u64

fun probe_step ::
    "config \<Rightarrow> arch \<Rightarrow> ('m, lua_state_slot) map_ops \<Rightarrow> lua_probe \<Rightarrow> 'm \<Rightarrow> 'm" where
  "probe_step cfg arch ops (Entry ptg ctx) m = handle_entry_lua cfg arch ops ptg ctx m"
| "probe_step cfg arch ops (Return ptg) m = handle_return_lua cfg ops ptg m"

fun probe_run ::
    "config \<Rightarrow> arch \<Rightarrow> ('m, lua_state_slot) map_ops \<Rightarrow> lua_probe list \<Rightarrow> 'm \<Rightarrow> 'm" where
  "probe_run cfg arch ops [] m = m"
| "probe_run cfg arch ops (e # es) m = probe_run cfg arch ops es (probe_step cfg arch ops e m)"

fun probe_id :: "lua_probe \<Rightarrow> u64" where
  "probe_id (Entry ptg ctx) = ptg"
| "probe_id (Return ptg) = ptg"

section \<open>Abstract specification: open calls of one thread\<close>

record open_calls =
  calls :: nat              \<comment> \<open>entered and not yet left\<close>
  last_entered :: u64

fun spec_step :: "config \<Rightarrow> arch \<Rightarrow> u32 \<Rightarrow> lua_probe \<Rightarrow> open_calls \<Rightarrow> open_calls" where
  "spec_step cfg arch tid (Entry ptg ctx) s =
     (if tid_of ptg = tid \<and> \<not> pid_filtered cfg (pid_of ptg) \<and> get_lua_state_arg1 arch ctx \<noteq> 0
      then \<lparr>calls = Suc (calls s), last_entered = get_lua_state_arg1 arch ctx\<rparr> else s)"
| "spec_step cfg arch tid (Return ptg) s =
     (if tid_of ptg = tid \<and> \<not> pid_filtered cfg (pid_of ptg) then s\<lparr>calls := calls s - 1\<rparr> else s)"

fun spec_run :: "config \<Rightarrow> arch \<Rightarrow> u32 \<Rightarrow> lua_probe list \<Rightarrow> open_calls \<Rightarrow> open_calls" where
  "spec_run cfg arch tid [] s = s"
| "spec_run cfg arch tid (e # es) s = spec_run cfg arch tid es (spec_step cfg arch tid e s)"

text \<open>The largest number of open calls on the way.\<close>

fun spec_peak :: "config \<Rightarrow> arch \<Rightarrow> u32 \<Rightarrow> lua_probe list \<Rightarrow> open_calls \<Rightarrow> nat" where
  "spec_peak cfg arch tid [] s = calls s"
| "spec_peak cfg arch tid (e # es) s =
     max (calls s) (spec_peak cfg arch tid es (spec_step cfg arch tid e s))"

text \<open>A slot represents the open calls: none means no call, otherwise depth and last state.\<close>

definition represents :: "lua_state_slot option \<Rightarrow> open_calls \<Rightarrow> bool" where
  "represents slot s \<longleftrightarrow>
     (case slot of None \<Rightarrow> calls s = 0
      | Some o' \<Rightarrow> 0 < calls s \<and> unat (slot_depth o') = calls s \<and> slot_ptr o' = last_entered s)"

lemma calls_le_peak: "calls s \<le> spec_peak cfg arch tid es s"
  by (cases es) auto

definition no_calls :: open_calls where "no_calls = \<lparr>calls = 0, last_entered = 0\<rparr>"

text \<open>The invariant of every stored slot.\<close>

definition slot_ok :: "lua_state_slot \<Rightarrow> bool" where
  "slot_ok o' \<longleftrightarrow> slot_ptr o' \<noteq> 0 \<and> 1 \<le> slot_depth o' \<and> slot_depth o' \<le> 0xffff"

definition slots_ok :: "('m, lua_state_slot) map_ops \<Rightarrow> 'm \<Rightarrow> bool" where
  "slots_ok ops m \<longleftrightarrow> (\<forall>tid o'. map_lookup ops m tid = Some o' \<longrightarrow> slot_ok o')"

lemma slot_depth_inc:
  "d < 0xffff \<Longrightarrow> unat (d + 1 :: u32) = Suc (unat d) \<and> 1 \<le> d + 1 \<and> d + 1 \<le> 0xffff"
  by (simp add: word_less_nat_alt word_le_nat_alt unat_word_ariths)

lemma slot_depth_dec: "\<not> d \<le> 1 \<Longrightarrow> unat (d - 1 :: u32) = unat d - 1 \<and> 1 \<le> d - 1 \<and> d - 1 \<le> d"
  by (simp add: word_le_nat_alt unat_sub)

section \<open>Laws of the handlers over any lawful hash map\<close>

locale lua_states_map = hash_map ops cap invar
  for ops :: "('m, lua_state_slot) map_ops" and cap and invar
begin

lemma entry_lookup:
  assumes "invar m"
  shows "map_lookup ops (handle_entry_lua cfg arch ops ptg ctx m) tid =
    (if tid_of ptg = tid \<and> \<not> pid_filtered cfg (pid_of ptg) \<and> get_lua_state_arg1 arch ctx \<noteq> 0
        \<and> has_room ops cap m tid
     then Some \<lparr>slot_ptr = get_lua_state_arg1 arch ctx,
                slot_depth = (case map_lookup ops m tid of
                    Some o' \<Rightarrow> if slot_depth o' < 0xffff then slot_depth o' + 1 else 1
                  | None \<Rightarrow> 1)\<rparr>
     else map_lookup ops m tid)"
  using assms
  by (auto simp: handle_entry_lua_def get_pid_tid_eq Let_def lookup_update_cases
      split: option.splits)

lemma return_lookup:
  assumes "invar m"
  shows "map_lookup ops (handle_return_lua cfg ops ptg m) tid =
    (if tid_of ptg = tid \<and> \<not> pid_filtered cfg (pid_of ptg)
     then (case map_lookup ops m tid of
             None \<Rightarrow> None
           | Some o' \<Rightarrow> if slot_depth o' \<le> 1 then None
                       else Some (o'\<lparr>slot_depth := slot_depth o' - 1\<rparr>))
     else map_lookup ops m tid)"
  using assms
  by (auto simp: handle_return_lua_def get_pid_tid_eq Let_def lookup_update_cases
      lookup_delete_cases has_room_present split: option.splits)

lemma probe_step_invar: "invar m \<Longrightarrow> invar (probe_step cfg arch ops e m)"
  by (cases e)
     (auto simp: handle_entry_lua_def handle_return_lua_def get_pid_tid_eq Let_def
       invar_update invar_delete split: option.splits)

lemma probe_run_invar: "invar m \<Longrightarrow> invar (probe_run cfg arch ops es m)"
  by (induction es arbitrary: m) (auto simp: probe_step_invar)

lemma probe_step_slots_ok:
  assumes "invar m" and "slots_ok ops m"
  shows "slots_ok ops (probe_step cfg arch ops e m)"
proof (cases e)
  case (Entry ptg ctx)
  with assms show ?thesis
    by (auto simp: slots_ok_def entry_lookup slot_ok_def dest: slot_depth_inc split: option.splits)
next
  case (Return ptg)
  with assms show ?thesis
    by (force simp: slots_ok_def return_lookup slot_ok_def dest: slot_depth_dec
        split: option.splits if_splits)
qed

text \<open>One step keeps the representation of a thread, provided its slot can be stored.\<close>

lemma probe_step_represents:
  assumes "invar m" and "represents (map_lookup ops m tid) s"
    and room: "has_room ops cap m tid"
    and depth: "calls (spec_step cfg arch tid e s) \<le> 0xffff"
  shows "represents (map_lookup ops (probe_step cfg arch ops e m) tid)
           (spec_step cfg arch tid e s)"
proof (cases e)
  case (Entry ptg ctx)
  have small: "unat d < 0xffff \<Longrightarrow> d < (0xffff :: u32)" for d by unat_arith
  show ?thesis
  proof (cases "map_lookup ops m tid")
    case None
    with Entry assms show ?thesis by (auto simp: entry_lookup represents_def)
  next
    case (Some o')
    with Entry assms show ?thesis
      by (auto simp: entry_lookup represents_def small slot_depth_inc)
  qed
next
  case (Return ptg)
  show ?thesis
  proof (cases "map_lookup ops m tid")
    case None
    with Return assms show ?thesis by (auto simp: return_lookup represents_def)
  next
    case (Some o')
    have "slot_depth o' \<le> 1 \<longleftrightarrow> unat (slot_depth o') \<le> 1" by unat_arith
    with Some Return assms show ?thesis
      by (auto simp: return_lookup represents_def slot_depth_dec)
  qed
qed

lemma probe_step_dom:
  assumes "invar m" and "dom (map_lookup ops m) \<subseteq> T" and "tid_of (probe_id e) \<in> T"
  shows "dom (map_lookup ops (probe_step cfg arch ops e m)) \<subseteq> T"
  using assms
  by (cases e) (force simp: entry_lookup return_lookup dom_def split: if_splits option.splits)+

lemma probe_run_represents:
  assumes "invar m" and "dom (map_lookup ops m) \<subseteq> T" and "card T \<le> cap" and "tid \<in> T"
    and "\<forall>e \<in> set es. tid_of (probe_id e) \<in> T"
    and "represents (map_lookup ops m tid) s"
    and "spec_peak cfg arch tid es s \<le> 0xffff"
  shows "represents (map_lookup ops (probe_run cfg arch ops es m) tid)
           (spec_run cfg arch tid es s)"
  using assms
proof (induction es arbitrary: m s)
  case Nil
  then show ?case by simp
next
  case (Cons e es)
  have room: "has_room ops cap m tid"
    using Cons.prems by (intro has_room_within)
  have "calls (spec_step cfg arch tid e s) \<le> 0xffff"
    using Cons.prems(7) calls_le_peak [of "spec_step cfg arch tid e s" cfg arch tid es] by simp
  then have rep: "represents (map_lookup ops (probe_step cfg arch ops e m) tid)
      (spec_step cfg arch tid e s)"
    using Cons.prems room by (intro probe_step_represents)
  have "dom (map_lookup ops (probe_step cfg arch ops e m)) \<subseteq> T"
    using Cons.prems by (intro probe_step_dom) auto
  with Cons.prems rep show ?case
    by (simp add: Cons.IH probe_step_invar)
qed

lemma probe_run_slots_ok:
  "invar m \<Longrightarrow> slots_ok ops m \<Longrightarrow> slots_ok ops (probe_run cfg arch ops es m)"
  by (induction es arbitrary: m) (auto simp: probe_step_invar probe_step_slots_ok)

text \<open>Probes of other threads, and of processes that are not the target, change nothing.\<close>

lemma probe_run_other:
  assumes "invar m"
    and "\<forall>e \<in> set es. tid_of (probe_id e) \<noteq> tid \<or> pid_filtered cfg (pid_of (probe_id e))"
  shows "map_lookup ops (probe_run cfg arch ops es m) tid = map_lookup ops m tid"
  using assms
proof (induction es arbitrary: m)
  case Nil
  then show ?case by simp
next
  case (Cons e es)
  then have "map_lookup ops (probe_step cfg arch ops e m) tid = map_lookup ops m tid"
    by (cases e) (auto simp: entry_lookup return_lookup)
  with Cons show ?case by (simp add: probe_step_invar)
qed

end

interpretation lua_states: lua_states_map "alist_ops MAX_ENTRIES" MAX_ENTRIES
    "alist_invar MAX_ENTRIES"
  by unfold_locales

section \<open>Properties\<close>

lemma probe_run_from_empty:
  assumes "hash_map ops MAX_ENTRIES invar" and "invar m" and "map_lookup ops m = Map.empty"
    and "card ((\<lambda>e. tid_of (probe_id e)) ` set es) < MAX_ENTRIES"
    and "spec_peak cfg arch tid es no_calls \<le> 0xffff"
  shows "represents (map_lookup ops (probe_run cfg arch ops es m) tid)
           (spec_run cfg arch tid es no_calls)"
proof -
  let ?T = "insert tid ((\<lambda>e. tid_of (probe_id e)) ` set es)"
  have "card ?T \<le> MAX_ENTRIES"
    using assms(4) by (simp add: card_insert_if)
  with assms show ?thesis
    by (intro lua_states_map.probe_run_represents [where T = ?T and invar = invar])
       (auto simp: lua_states_map_def represents_def no_calls_def)
qed

text \<open>
  C4. The tracker refines the abstract call counter of every thread: after any interleaving of
  probe events of at most \<open>MAX_ENTRIES\<close> threads, a thread has a slot exactly when it has open
  \<open>lua_resume\<close>/\<open>lua_pcall\<close> calls, the slot's depth is their number, and its pointer is the state
  entered last, as long as no more than 65535 calls are open at once.
\<close>

theorem tracker_refines_open_calls:
  assumes "hash_map ops MAX_ENTRIES invar" and "invar m" and "map_lookup ops m = Map.empty"
    and "card ((\<lambda>e. tid_of (probe_id e)) ` set es) < MAX_ENTRIES"
    and "spec_peak cfg arch tid es no_calls \<le> 0xffff"
  shows "represents (map_lookup ops (probe_run cfg arch ops es m) tid)
           (spec_run cfg arch tid es no_calls)"
  using assms by (rule probe_run_from_empty)

definition example_regs :: "u64 \<Rightarrow> pt_regs" where
  "example_regs L = \<lparr>PT_REGS_PARM1 = L, PT_REGS_IP = 0x401000, PT_REGS_SP = 0x7ffc0000,
     PT_REGS_FP = 0x7ffc0040, PT_REGS_RET = 0, regs_word0 = 0\<rparr>"

lemmas tracker_eval =
  handle_entry_lua_def handle_return_lua_def get_pid_tid_def pid_filtered_def default_config_def
  get_lua_state_arg1_def example_regs_def Let_def MAX_ENTRIES_def

lemma tracker_refines_open_calls_witness:
  "represents (map_lookup (alist_ops MAX_ENTRIES)
       (probe_run default_config X86_64 (alist_ops MAX_ENTRIES)
          [Entry 7 (example_regs 0x5000), Entry 7 (example_regs 0x6000), Return 7] []) 7)
     \<lparr>calls = 1, last_entered = 0x6000\<rparr>"
proof -
  let ?es = "[Entry 7 (example_regs 0x5000), Entry 7 (example_regs 0x6000), Return 7]"
  have spec: "spec_run default_config X86_64 7 ?es no_calls = \<lparr>calls = 1, last_entered = 0x6000\<rparr>"
    by (simp add: tracker_eval no_calls_def)
  show ?thesis
    using tracker_refines_open_calls [OF alist_hash_map, of "[]" ?es default_config X86_64 7] spec
    by (simp add: tracker_eval no_calls_def card_insert_if)
qed

text \<open>
  C38. Every slot the tracker ever stores names a non-null \<open>lua_State\<close> and has a depth between 1
  and 65535, from any map that does and in particular from the empty one.
\<close>

theorem tracker_slots_invariant:
  assumes "hash_map ops cap invar" and "invar m" and "slots_ok ops m"
  shows "slots_ok ops (probe_run cfg arch ops es m)"
  using assms by (intro lua_states_map.probe_run_slots_ok [where invar = invar])
    (auto simp: lua_states_map_def)

lemma tracker_slots_invariant_witness:
  "slots_ok (alist_ops 2) (probe_run default_config Aarch64 (alist_ops 2)
     [Entry 7 (example_regs 0x5000), Entry 7 (example_regs 0x6000), Return 7, Entry 9 (example_regs 0)] [])"
  by (rule tracker_slots_invariant [OF alist_hash_map]) (simp_all add: slots_ok_def)

text \<open>
  Probes of other threads, and of any process but the target, never change a thread's slot.
\<close>

theorem tracker_isolates_threads:
  assumes "hash_map ops cap invar" and "invar m"
    and "\<forall>e \<in> set es. tid_of (probe_id e) \<noteq> tid \<or> pid_filtered cfg (pid_of (probe_id e))"
  shows "map_lookup ops (probe_run cfg arch ops es m) tid = map_lookup ops m tid"
  using assms by (intro lua_states_map.probe_run_other [where invar = invar])
    (auto simp: lua_states_map_def)

lemma tracker_isolates_threads_witness:
  "map_of (probe_run (default_config\<lparr>targ_pid := 3\<rparr>) X86_64 (alist_ops 2)
     [Entry (pid_tgid 3 8) (example_regs 0x5000), Entry (pid_tgid 4 7) (example_regs 0x6000)]
     [(7, \<lparr>slot_ptr = 0x1000, slot_depth = 1\<rparr>)]) 7 = Some \<lparr>slot_ptr = 0x1000, slot_depth = 1\<rparr>"
  using tracker_isolates_threads [OF alist_hash_map, of 2 "[(7, \<lparr>slot_ptr = 0x1000, slot_depth = 1\<rparr>)]"
      "[Entry (pid_tgid 3 8) (example_regs 0x5000), Entry (pid_tgid 4 7) (example_regs 0x6000)]"
      7 "default_config\<lparr>targ_pid := 3\<rparr>" X86_64]
  by (simp add: alist_invar_def pid_filtered_def pid_tgid_def default_config_def)

text \<open>
  The depth does not saturate: entering a call with 65535 open ones restarts it at 1, so the
  next return drops the state of a thread that is still inside Lua.
\<close>

theorem tracker_depth_overflow_restarts:
  assumes "hash_map ops cap invar" and "invar m"
    and "map_lookup ops m (tid_of ptg) = Some \<lparr>slot_ptr = L, slot_depth = 0xffff\<rparr>"
    and "\<not> pid_filtered cfg (pid_of ptg)" and "get_lua_state_arg1 arch ctx \<noteq> 0"
  shows "map_lookup ops (handle_return_lua cfg ops ptg (handle_entry_lua cfg arch ops ptg ctx m))
           (tid_of ptg) = None"
proof -
  from assms have L: "lua_states_map ops cap invar" by (simp add: lua_states_map_def)
  have "invar (handle_entry_lua cfg arch ops ptg ctx m)"
    using lua_states_map.probe_step_invar [OF L, of m cfg arch "Entry ptg ctx"] assms by simp
  then show ?thesis
    using assms hash_map.has_room_present [OF assms(1) assms(3)]
    by (simp add: lua_states_map.return_lookup [OF L] lua_states_map.entry_lookup [OF L])
qed

lemma tracker_depth_overflow_restarts_witness:
  "map_lookup (alist_ops 4) (handle_return_lua default_config (alist_ops 4) 7
     (handle_entry_lua default_config X86_64 (alist_ops 4) 7 (example_regs 0x6000)
       [(7, \<lparr>slot_ptr = 0x1000, slot_depth = 0xffff\<rparr>)])) 7 = None"
  using tracker_depth_overflow_restarts [OF alist_hash_map, of 4
      "[(7, \<lparr>slot_ptr = 0x1000, slot_depth = 0xffff\<rparr>)]" 7 "0x1000" default_config X86_64
      "example_regs 0x6000"]
  by (simp add: alist_invar_def tracker_eval)

text \<open>
  A return does not restore the caller's state: after a nested call has come back, the slot
  still names the inner \<open>lua_State\<close> while the thread runs the outer one.
\<close>

theorem tracker_return_keeps_inner_state:
  assumes "hash_map ops cap invar" and "invar m"
    and "map_lookup ops m (tid_of ptg) = None" and "entries ops m < cap"
    and "\<not> pid_filtered cfg (pid_of ptg)"
    and "get_lua_state_arg1 arch outer \<noteq> 0" and "get_lua_state_arg1 arch inner \<noteq> 0"
  shows "map_lookup ops (probe_run cfg arch ops [Entry ptg outer, Entry ptg inner, Return ptg] m)
           (tid_of ptg)
         = Some \<lparr>slot_ptr = get_lua_state_arg1 arch inner, slot_depth = 1\<rparr>"
proof -
  let ?m1 = "handle_entry_lua cfg arch ops ptg outer m"
  let ?m2 = "handle_entry_lua cfg arch ops ptg inner ?m1"
  from assms have L: "lua_states_map ops cap invar" by (simp add: lua_states_map_def)
  have i1: "invar ?m1" and i2: "invar ?m2"
    using lua_states_map.probe_run_invar [OF L, of m cfg arch "[Entry ptg outer]"]
      lua_states_map.probe_run_invar [OF L, of m cfg arch "[Entry ptg outer, Entry ptg inner]"]
      assms(2) by simp_all
  have m1: "map_lookup ops ?m1 (tid_of ptg) =
      Some \<lparr>slot_ptr = get_lua_state_arg1 arch outer, slot_depth = 1\<rparr>"
    using assms by (simp add: lua_states_map.entry_lookup [OF L] has_room_def)
  have m2: "map_lookup ops ?m2 (tid_of ptg) =
      Some \<lparr>slot_ptr = get_lua_state_arg1 arch inner, slot_depth = 2\<rparr>"
    using assms m1 hash_map.has_room_present [OF assms(1) m1]
    by (simp add: lua_states_map.entry_lookup [OF L i1])
  show ?thesis
    using assms m2 by (simp add: lua_states_map.return_lookup [OF L i2] word_le_nat_alt)
qed

lemma tracker_return_keeps_inner_state_witness:
  "map_lookup (alist_ops 4) (probe_run default_config X86_64 (alist_ops 4)
     [Entry 7 (example_regs 0x5000), Entry 7 (example_regs 0x6000), Return 7] []) 7
   = Some \<lparr>slot_ptr = 0x6000, slot_depth = 1\<rparr>"
  using tracker_return_keeps_inner_state [OF alist_hash_map, of 4 "[]" 7 default_config X86_64
      "example_regs 0x5000" "example_regs 0x6000"]
  by (simp add: tracker_eval entries_alist)

text \<open>
  \<open>lua_yield\<close> is counted as a second return of the resume it leaves: inside two nested calls,
  one yield followed by the return of the inner \<open>lua_resume\<close> drops the slot, although the outer
  call is still running.
\<close>

theorem tracker_yield_drops_outer_call:
  assumes "hash_map ops cap invar" and "invar m"
    and "map_lookup ops m (tid_of ptg) = Some \<lparr>slot_ptr = L, slot_depth = 2\<rparr>"
    and "\<not> pid_filtered cfg (pid_of ptg)"
  shows "map_lookup ops (probe_run cfg arch ops [Return ptg, Return ptg] m) (tid_of ptg) = None"
proof -
  from assms have L: "lua_states_map ops cap invar" by (simp add: lua_states_map_def)
  have "invar (handle_return_lua cfg ops ptg m)"
    using lua_states_map.probe_run_invar [OF L, of m cfg arch "[Return ptg]"] assms by simp
  then show ?thesis
    using assms by (simp add: lua_states_map.return_lookup [OF L])
qed

lemma tracker_yield_drops_outer_call_witness:
  "map_lookup (alist_ops 4) (probe_run default_config X86_64 (alist_ops 4) [Return 7, Return 7]
     [(7, \<lparr>slot_ptr = 0x1000, slot_depth = 2\<rparr>)]) 7 = None"
  using tracker_yield_drops_outer_call [OF alist_hash_map, of 4
      "[(7, \<lparr>slot_ptr = 0x1000, slot_depth = 2\<rparr>)]" 7 "0x1000" default_config X86_64]
  by (simp add: alist_invar_def tracker_eval)

end
