(* ===== verification/LuaState.thy ===== *)
theory LuaState
  imports BpfEnv
begin

text \<open>
  LuaJIT's data structures as \<open>bpf/lua_state.h\<close> ports them (the GC64 layout, the only one the
  build script selects), and the accessors that read them from user memory. Every address is the
  address of the object plus the offset its declaration gives the field.
\<close>

unbundle bit_operations_syntax

section \<open>Layouts\<close>

definition GCRef_t :: ctype where "GCRef_t = CStruct [Member ''gcptr64'' (CInt 8)]"
definition MRef_t :: ctype where "MRef_t = CStruct [Member ''ptr64'' (CInt 8)]"

definition TValue_t :: ctype where
  "TValue_t = CUnion [Member ''u64'' (CInt 8), Member ''gcr'' GCRef_t, Member ''ftsz'' (CInt 8)]"

definition GCHeader :: "cmember list" where
  "GCHeader = [Member ''nextgc'' GCRef_t, Member ''marked'' (CInt 1), Member ''gct'' (CInt 1)]"

definition GCstr_t :: ctype where
  "GCstr_t = CStruct (GCHeader @
     [Member ''reserved'' (CInt 1), Member ''hashalg'' (CInt 1), Member ''sid'' (CInt 4),
      Member ''hash'' (CInt 4), Member ''len'' (CInt 4)])"

definition GCproto_t :: ctype where
  "GCproto_t = CStruct (GCHeader @
     [Member ''numparams'' (CInt 1), Member ''framesize'' (CInt 1), Member ''sizebc'' (CInt 4),
      Member ''unused_gc64'' (CInt 4), Member ''gclist'' GCRef_t, Member ''k'' MRef_t,
      Member ''uv'' MRef_t, Member ''sizekgc'' (CInt 4), Member ''sizekn'' (CInt 4),
      Member ''sizept'' (CInt 4), Member ''sizeuv'' (CInt 1), Member ''flags'' (CInt 1),
      Member ''trace'' (CInt 2), Member ''chunkname'' GCRef_t, Member ''firstline'' (CInt 4),
      Member ''numline'' (CInt 4), Member ''lineinfo'' MRef_t, Member ''uvinfo'' MRef_t,
      Member ''varinfo'' MRef_t])"

definition GCfuncHeader :: "cmember list" where
  "GCfuncHeader = GCHeader @
     [Member ''ffid'' (CInt 1), Member ''nupvalues'' (CInt 1), Member ''env'' GCRef_t,
      Member ''gclist'' GCRef_t, Member ''pc'' MRef_t]"

definition GCfuncC_t :: ctype where
  "GCfuncC_t = CStruct (GCfuncHeader @ [Member ''f'' CPtr, Member ''upvalue'' (CArr 1 TValue_t)])"

definition GCfuncL_t :: ctype where
  "GCfuncL_t = CStruct (GCfuncHeader @ [Member ''uvptr'' (CArr 1 GCRef_t)])"

definition GCfunc_t :: ctype where
  "GCfunc_t = CUnion [Member ''c'' GCfuncC_t, Member ''l'' GCfuncL_t]"

definition GChead_t :: ctype where
  "GChead_t = CStruct (GCHeader @
     [Member ''unused1'' (CInt 1), Member ''unused2'' (CInt 1), Member ''env'' GCRef_t,
      Member ''gclist'' GCRef_t, Member ''metatable'' GCRef_t])"

definition GCobj_t :: ctype where
  "GCobj_t = CUnion [Member ''gch'' GChead_t, Member ''str'' GCstr_t, Member ''pt'' GCproto_t,
                     Member ''fn'' GCfunc_t]"

definition lua_State_t :: ctype where
  "lua_State_t = CStruct (GCHeader @
     [Member ''dummy_ffid'' (CInt 1), Member ''status'' (CInt 1), Member ''glref'' MRef_t,
      Member ''gclist'' GCRef_t, Member ''base'' CPtr, Member ''top'' CPtr,
      Member ''maxstack'' MRef_t, Member ''stack'' MRef_t, Member ''openupval'' GCRef_t,
      Member ''env'' GCRef_t, Member ''cframe'' CPtr, Member ''stacksize'' (CInt 4),
      Member ''exdata'' CPtr, Member ''exdata2'' CPtr])"

lemmas lua_layouts [layout_simps] =
  GCRef_t_def MRef_t_def TValue_t_def GCHeader_def GCstr_t_def GCproto_t_def GCfuncHeader_def
  GCfuncC_t_def GCfuncL_t_def GCfunc_t_def GChead_t_def GCobj_t_def lua_State_t_def

lemma lua_sizes:
  "sizeof TValue_t = 8" "sizeof GCstr_t = 24" "sizeof GCproto_t = 104" "sizeof GCfuncC_t = 56"
  "sizeof GCfuncL_t = 48" "sizeof GCfunc_t = 56" "sizeof lua_State_t = 112"
  by (simp_all add: layout_simps)

lemma TValue_zero_offsets: "offsetof TValue_t ''ftsz'' = 0" "offsetof TValue_t ''gcr'' = 0"
  by (simp_all add: layout_simps)

lemma GCproto_offsets:
  "offsetof GCproto_t ''sizebc'' = 12" "offsetof GCproto_t ''chunkname'' = 64"
  "offsetof GCproto_t ''firstline'' = 72" "offsetof GCproto_t ''numline'' = 76"
  "offsetof GCproto_t ''lineinfo'' = 80"
  by (simp_all add: layout_simps)

lemma GCfunc_offsets:
  "offsetof GCfuncC_t ''ffid'' = 10" "offsetof GCfuncC_t ''f'' = 40" "offsetof GCfuncL_t ''pc'' = 32"
  "offsetof GChead_t ''gct'' = 9"
  by (simp_all add: layout_simps)

lemma lua_State_offsets:
  "offsetof lua_State_t ''glref'' = 16" "offsetof lua_State_t ''base'' = 32"
  "offsetof lua_State_t ''maxstack'' = 48" "offsetof lua_State_t ''stack'' = 56"
  by (simp_all add: layout_simps)

lemmas lua_offsets = lua_sizes TValue_zero_offsets GCproto_offsets GCfunc_offsets lua_State_offsets

section \<open>Constants\<close>

definition LJ_FR2 :: u64 where "LJ_FR2 = 1"
definition LJ_GCVMASK :: u64 where "LJ_GCVMASK = push_bit 47 1 - 1"
definition LJ_G_OFS_CUR_L :: u64 where "LJ_G_OFS_CUR_L = 376"
definition LJ_G_OFS_JIT_BASE :: u64 where "LJ_G_OFS_JIT_BASE = 384"
definition LJ_GCT_THREAD :: u8 where "LJ_GCT_THREAD = 6"
definition LJ_GCT_FUNC :: u8 where "LJ_GCT_FUNC = 8"
definition FF_LUA :: u8 where "FF_LUA = 0"
definition FF_C :: u8 where "FF_C = 1"

definition FRAME_LUA :: u64 where "FRAME_LUA = 0"
definition FRAME_C :: u64 where "FRAME_C = 1"
definition FRAME_CONT :: u64 where "FRAME_CONT = 2"
definition FRAME_VARG :: u64 where "FRAME_VARG = 3"
definition FRAME_TYPE :: u64 where "FRAME_TYPE = 3"
definition FRAME_P :: u64 where "FRAME_P = 4"
definition FRAME_TYPEP :: u64 where "FRAME_TYPEP = FRAME_TYPE OR FRAME_P"

lemmas lua_consts =
  LJ_FR2_def LJ_GCVMASK_def LJ_G_OFS_CUR_L_def LJ_G_OFS_JIT_BASE_def LJ_GCT_THREAD_def
  LJ_GCT_FUNC_def FF_LUA_def FF_C_def FRAME_LUA_def FRAME_C_def FRAME_CONT_def FRAME_VARG_def
  FRAME_TYPE_def FRAME_P_def FRAME_TYPEP_def

section \<open>Accessors\<close>

text \<open>\<open>&obj->field\<close>, and indexing a pointer to \<open>TValue\<close>.\<close>

definition field_addr :: "ctype \<Rightarrow> string \<Rightarrow> u64 \<Rightarrow> u64" where
  "field_addr t f obj = obj + of_nat (offsetof t f)"

definition tv_sub :: "u64 \<Rightarrow> u64 \<Rightarrow> u64" where
  "tv_sub p n = p - of_nat (sizeof TValue_t) * n"

lemma tv_sub_eq [simp]: "tv_sub p n = p - 8 * n"
  by (simp add: tv_sub_def lua_sizes)

definition frame_ftsz :: "probe \<Rightarrow> u64 \<Rightarrow> u64" where
  "frame_ftsz rd f = rd_u64 rd (field_addr TValue_t ''ftsz'' f)"

definition frame_pc :: "probe \<Rightarrow> u64 \<Rightarrow> u64" where
  "frame_pc rd f = rd_u64 rd (field_addr TValue_t ''ftsz'' f)"

definition frame_type :: "probe \<Rightarrow> u64 \<Rightarrow> u64" where
  "frame_type rd f = frame_ftsz rd f AND FRAME_TYPE"

definition frame_typep :: "probe \<Rightarrow> u64 \<Rightarrow> u64" where
  "frame_typep rd f = frame_ftsz rd f AND FRAME_TYPEP"

definition frame_islua :: "probe \<Rightarrow> u64 \<Rightarrow> bool" where
  "frame_islua rd f \<longleftrightarrow> frame_type rd f = FRAME_LUA"

definition frame_isvarg :: "probe \<Rightarrow> u64 \<Rightarrow> bool" where
  "frame_isvarg rd f \<longleftrightarrow> frame_typep rd f = FRAME_VARG"

definition frame_sized :: "probe \<Rightarrow> u64 \<Rightarrow> u64" where
  "frame_sized rd f = frame_ftsz rd f AND NOT FRAME_TYPEP"

definition frame_gc :: "probe \<Rightarrow> u64 \<Rightarrow> u64" where
  "frame_gc rd f = rd_u64 rd (field_addr TValue_t ''gcr'' (tv_sub f 1)) AND LJ_GCVMASK"

definition funcproto :: "probe \<Rightarrow> u64 \<Rightarrow> u64" where
  "funcproto rd fn = rd_u64 rd (field_addr GCfuncL_t ''pc'' fn) - of_nat (sizeof GCproto_t)"

definition proto_bc :: "u64 \<Rightarrow> u64" where
  "proto_bc pt = pt + of_nat (sizeof GCproto_t)"

definition valid_user_ptr :: "u64 \<Rightarrow> bool" where
  "valid_user_ptr p \<longleftrightarrow> 4096 \<le> p \<and> p \<le> LJ_GCVMASK"

definition gc_type :: "probe \<Rightarrow> u64 \<Rightarrow> u8" where
  "gc_type rd gco = rd_u8 rd (field_addr GChead_t ''gct'' gco)"

lemma TValue_offsets [simp]:
  "field_addr TValue_t ''ftsz'' f = f" "field_addr TValue_t ''gcr'' f = f"
  by (simp_all add: field_addr_def TValue_zero_offsets)

lemma LJ_GCVMASK_eq: "LJ_GCVMASK = mask 47"
  by (simp add: LJ_GCVMASK_def mask_eq_decr_exp push_bit_eq_mult)

text \<open>A masked GC reference is always at most \<open>LJ_GCVMASK\<close>.\<close>

lemma frame_gc_le: "frame_gc rd f \<le> LJ_GCVMASK"
  by (simp add: frame_gc_def word_and_le1)

lemma valid_frame_gc: "valid_user_ptr (frame_gc rd f) \<longleftrightarrow> 4096 \<le> frame_gc rd f"
  by (simp add: valid_user_ptr_def frame_gc_le)

text \<open>\<open>proto_bc\<close> undoes the subtraction in \<open>funcproto\<close>: the bytecode starts at the function's \<open>pc\<close>.\<close>

lemma proto_bc_funcproto: "proto_bc (funcproto rd fn) = rd_u64 rd (field_addr GCfuncL_t ''pc'' fn)"
  by (simp add: proto_bc_def funcproto_def)

text \<open>The size part of a frame word is a multiple of eight.\<close>

lemma FRAME_TYPEP_eq: "FRAME_TYPEP = mask 3"
  by (simp add: FRAME_TYPEP_def FRAME_TYPE_def FRAME_P_def mask_eq_decr_exp)

lemma frame_sized_aligned: "frame_sized rd f AND 7 = 0"
proof -
  have "(7 :: u64) = mask 3" by (simp add: mask_eq_decr_exp)
  then show ?thesis
    by (simp add: frame_sized_def FRAME_TYPEP_eq word_bw_assocs and.assoc)
qed

end
