(* ===== verification/LineInfo.thy ===== *)
theory LineInfo
  imports LuaState
begin

text \<open>
  From a frame to a source line (\<open>get_lua_line\<close> and \<open>get_frame_pc\<close> of \<open>bpf/profile.bpf.c\<close>), with
  the compressed line table of a prototype as the abstract specification.
\<close>

section \<open>Source functions\<close>

definition NO_BCPOS :: u32 where "NO_BCPOS = NOT 0"

text \<open>
  The result is C's \<open>int\<close>; \<open>numline\<close> is a signed \<open>BCLine\<close>, and the byte offset \<open>pc * 2\<close>, \<open>pc * 4\<close> is
  computed in 32 bits before it is added to the table's address.
\<close>

definition get_lua_line :: "probe \<Rightarrow> u64 \<Rightarrow> u32 \<Rightarrow> i32" where
  "get_lua_line rd pt pc =
     (let sizebc = rd_u32 rd (field_addr GCproto_t ''sizebc'' pt) in
      if pc > sizebc then - 1
      else let first = rd_u32 rd (field_addr GCproto_t ''firstline'' pt);
               numline = rd_u32 rd (field_addr GCproto_t ''numline'' pt);
               lineinfo_ptr = rd_u64 rd (field_addr GCproto_t ''lineinfo'' pt) in
      if lineinfo_ptr = 0 then 0
      else if pc = sizebc then first + numline
      else if pc = 0 then first
      else let pc = pc - 1 in
      if numline <s 256 then first + ucast (rd_u8 rd (lineinfo_ptr + ucast pc))
      else if numline <s 65536 then first + ucast (rd_u16 rd (lineinfo_ptr + ucast (pc * 2)))
      else first + rd_u32 rd (lineinfo_ptr + ucast (pc * 4)))"

text \<open>The difference of two \<open>BCIns\<close> pointers is the signed byte distance divided by four.\<close>

definition bcins_diff :: "u64 \<Rightarrow> u64 \<Rightarrow> u64" where
  "bcins_diff p q = signed_drop_bit 2 (p - q)"

definition get_frame_pc :: "probe \<Rightarrow> u64 \<Rightarrow> u64 \<Rightarrow> u32" where
  "get_frame_pc rd fn prev_frame =
     (if prev_frame = 0 then NO_BCPOS
      else let ftsz = frame_ftsz rd prev_frame;
               tp = ftsz AND FRAME_TYPE;
               ins = (if tp = FRAME_LUA then Some (frame_pc rd prev_frame)
                      else if ftsz AND FRAME_TYPEP = FRAME_CONT
                           then Some (frame_pc rd (tv_sub prev_frame 2))
                      else None)
           in case ins of
                None \<Rightarrow> NO_BCPOS
              | Some ins_ptr \<Rightarrow>
                  if ins_ptr = 0 then NO_BCPOS
                  else let pt = funcproto rd fn in
                       if pt = 0 then NO_BCPOS
                       else ucast (bcins_diff ins_ptr (proto_bc pt)) - 1)"

section \<open>Specification: the line table of a prototype\<close>

text \<open>
  LuaJIT stores the first line, the number of lines, and one delta per bytecode position between 1
  and \<open>sizebc - 1\<close>, in the narrowest of three widths that fits the number of lines.
\<close>

record line_table =
  lt_sizebc :: u32
  lt_first :: i32
  lt_num :: i32
  lt_delta :: "nat \<Rightarrow> u32"

definition delta_width :: "i32 \<Rightarrow> nat" where
  "delta_width n = (if n <s 256 then 1 else if n <s 65536 then 2 else 4)"

definition line_at :: "line_table \<Rightarrow> u32 \<Rightarrow> i32 option" where
  "line_at lt pc =
     (if pc > lt_sizebc lt then None
      else if pc = lt_sizebc lt then Some (lt_first lt + lt_num lt)
      else if pc = 0 then Some (lt_first lt)
      else Some (lt_first lt + lt_delta lt (unat pc - 1)))"

text \<open>The memory behind \<open>rd\<close> holds the table of the prototype at \<open>pt\<close>.\<close>

definition has_line_table :: "probe \<Rightarrow> u64 \<Rightarrow> line_table \<Rightarrow> bool" where
  "has_line_table rd pt lt \<longleftrightarrow>
     rd_u32 rd (field_addr GCproto_t ''sizebc'' pt) = lt_sizebc lt \<and>
     rd_u32 rd (field_addr GCproto_t ''firstline'' pt) = lt_first lt \<and>
     rd_u32 rd (field_addr GCproto_t ''numline'' pt) = lt_num lt \<and>
     (let table = rd_u64 rd (field_addr GCproto_t ''lineinfo'' pt); w = delta_width (lt_num lt) in
      table \<noteq> 0 \<and>
      (\<forall>i < unat (lt_sizebc lt) - 1. unat (lt_delta lt i) < 256 ^ w \<and>
         LUARD_T rd (table + of_nat (w * i)) w = word_le w (lt_delta lt i)))"

lemma le_word_word_le_small:
  fixes v :: u32
  assumes "unat v < 256 ^ k" and "LENGTH('a::len) = 8 * k"
  shows "(ucast (le_word (word_le k v) :: 'a word) :: u32) = v"
proof -
  have "uint v < 256 ^ k"
    using assms(1) by (metis of_nat_less_iff of_nat_numeral of_nat_power uint_nat)
  then have v: "le_int (word_le k v) = uint v" by (simp add: word_le_def le_int_int_le)
  have "(256::int) ^ k = 2 ^ LENGTH('a)" using assms(2) by (simp add: power_mult)
  with \<open>uint v < 256 ^ k\<close> have "uint (le_word (word_le k v) :: 'a word) = uint v"
    by (simp only: le_word_def v uint_word_of_int) simp
  then show ?thesis by (metis word_of_int_uint unsigned_ucast_eq ucast_id of_int_uint)
qed

lemma rd_delta8:
  assumes "LUARD_T rd a 1 = word_le 1 (d :: u32)" and "unat d < 256"
  shows "(ucast (rd_u8 rd a) :: u32) = d"
  using assms le_word_word_le_small [of d 1, where 'a = 8] by (simp add: rd_u8_def)

lemma rd_delta16:
  assumes "LUARD_T rd a 2 = word_le 2 (d :: u32)" and "unat d < 65536"
  shows "(ucast (rd_u16 rd a) :: u32) = d"
  using assms le_word_word_le_small [of d 2, where 'a = 16] by (simp add: rd_u16_def)

lemma rd_delta32: "LUARD_T rd a 4 = word_le 4 (d :: u32) \<Longrightarrow> rd_u32 rd a = d"
  by (simp add: rd_u32_def)

lemma ucast_times:
  fixes p :: u32
  assumes "unat p * w < 2 ^ 32" and "w < 2 ^ 32"
  shows "(ucast (p * of_nat w) :: u64) = of_nat (w * unat p)"
proof -
  have "unat (p * of_nat w) = unat p * w"
    using assms by (simp add: unat_word_ariths unat_of_nat take_bit_nat_eq_self_iff)
  then have "unat (ucast (p * of_nat w) :: u64) = w * unat p"
    by (simp add: unat_ucast_up mult.commute)
  then show ?thesis by (metis of_nat_unat ucast_id)
qed

section \<open>Correctness\<close>

lemma get_lua_line_eq:
  assumes "has_line_table rd pt lt" and "unat (lt_sizebc lt) * delta_width (lt_num lt) < 2 ^ 32"
  shows "get_lua_line rd pt pc = (case line_at lt pc of Some l \<Rightarrow> l | None \<Rightarrow> - 1)"
proof (cases "pc < lt_sizebc lt \<and> pc \<noteq> 0")
  case False
  with assms(1) show ?thesis
    by (auto simp: get_lua_line_def line_at_def has_line_table_def Let_def)
next
  case True
  let ?table = "rd_u64 rd (field_addr GCproto_t ''lineinfo'' pt)"
  let ?w = "delta_width (lt_num lt)" and ?d = "lt_delta lt (unat pc - 1)"
  have p1: "unat (pc - 1) = unat pc - 1"
    using True by (simp add: unat_sub word_le_nat_alt unat_gt_0 Suc_le_eq)
  have lt: "unat pc < unat (lt_sizebc lt)" using True by (simp add: word_less_nat_alt)
  have w: "unat pc - 1 < unat (lt_sizebc lt) - 1"
    using True lt by (simp add: unat_gt_0 diff_less_mono Suc_le_eq)
  have "unat (pc - 1) * ?w \<le> unat (lt_sizebc lt) * ?w"
    using p1 lt by (intro mult_right_mono) auto
  with assms(2) have small: "unat (pc - 1) * ?w < 2 ^ 32" by linarith
  have wd: "?w < 2 ^ 32" by (simp add: delta_width_def)
  have addr: "?table + ucast ((pc - 1) * of_nat ?w) = ?table + of_nat (?w * (unat pc - 1))"
    using ucast_times [OF small wd] p1 by simp
  have d: "unat ?d < 256 ^ ?w"
      "LUARD_T rd (?table + of_nat (?w * (unat pc - 1))) ?w = word_le ?w ?d"
    using assms(1) w by (auto simp: has_line_table_def Let_def)
  have tbl: "?table \<noteq> 0" "rd_u32 rd (field_addr GCproto_t ''sizebc'' pt) = lt_sizebc lt"
      "rd_u32 rd (field_addr GCproto_t ''firstline'' pt) = lt_first lt"
      "rd_u32 rd (field_addr GCproto_t ''numline'' pt) = lt_num lt"
    using assms(1) by (simp_all add: has_line_table_def Let_def)
  show ?thesis
    using True tbl d addr rd_delta8 [of rd _ ?d] rd_delta16 [of rd _ ?d] rd_delta32 [of rd _ ?d]
    by (auto simp: get_lua_line_def line_at_def Let_def delta_width_def split: if_splits)
qed

text \<open>
  C9. Line resolution computes the line table of the prototype: for every bytecode position it
  returns the table's line, and -1 exactly for positions past the end, whichever of the three
  delta widths the prototype uses (tables shorter than 4 GiB; LuaJIT's are at most 256 MiB).
\<close>

theorem get_lua_line_correct:
  assumes "has_line_table rd pt lt" and "unat (lt_sizebc lt) * delta_width (lt_num lt) < 2 ^ 32"
  shows "get_lua_line rd pt pc = (case line_at lt pc of Some l \<Rightarrow> l | None \<Rightarrow> - 1)"
  using assms by (rule get_lua_line_eq)

text \<open>A prototype at 0x10000 with three instructions, first line 10, and two one-byte deltas.\<close>

definition example_proto :: "(u64 \<times> u8 list) list" where
  "example_proto =
     [(0x1000c, [3, 0, 0, 0]), (0x10048, [10, 0, 0, 0]), (0x1004c, [5, 0, 0, 0]),
      (0x10050, [0, 0, 2, 0, 0, 0, 0, 0]), (0x20000, [2]), (0x20001, [4])]"

definition example_lines :: line_table where
  "example_lines = \<lparr>lt_sizebc = 3, lt_first = 10, lt_num = 5, lt_delta = (\<lambda>i. if i = 0 then 2 else 4)\<rparr>"

lemmas cells_eval = probe_cells_def rd_defs LUARD_T_def field_addr_def le_word_def lua_offsets

lemma example_proto_fields:
  "rd_u32 (probe_cells example_proto) 0x1000c = 3"
  "rd_u32 (probe_cells example_proto) 0x10048 = 10"
  "rd_u32 (probe_cells example_proto) 0x1004c = 5"
  "rd_u64 (probe_cells example_proto) 0x10050 = 0x20000"
  "LUARD_T (probe_cells example_proto) 0x20000 (Suc 0) = [2]"
  "LUARD_T (probe_cells example_proto) 0x20001 (Suc 0) = [4]"
  by (simp_all add: example_proto_def cells_eval)

lemma all_less_two: "(\<forall>i < (2::nat). P i) \<longleftrightarrow> P 0 \<and> P 1"
  by (auto simp: less_2_cases_iff)

lemma example_has_table: "has_line_table (probe_cells example_proto) 0x10000 example_lines"
  using example_proto_fields
  by (simp add: has_line_table_def field_addr_def lua_offsets example_lines_def delta_width_def
      Let_def all_less_two word_le_def word_sless_alt)

lemma get_lua_line_correct_witness:
  "get_lua_line (probe_cells example_proto) 0x10000 2 = 14"
  using get_lua_line_correct [OF example_has_table, of 2]
  by (simp add: example_lines_def delta_width_def line_at_def word_sless_alt)

section \<open>Correctness of the bytecode position\<close>

text \<open>The saved program counter a frame's predecessor keeps, if it is of a kind that keeps one.\<close>

definition saved_pc :: "probe \<Rightarrow> u64 \<Rightarrow> u64 option" where
  "saved_pc rd prev =
     (if frame_islua rd prev then Some (frame_pc rd prev)
      else if frame_typep rd prev = FRAME_CONT then Some (frame_pc rd (prev - 16))
      else None)"

lemma sint_small:
  fixes w :: u64
  assumes "uint w < 2 ^ 63"
  shows "sint w = uint w"
proof -
  have "signed_take_bit 63 (uint w) = uint w"
    by (rule signed_take_bit_int_eq_self) (use assms uint_ge_0 [of w] in linarith)+
  then show ?thesis by (simp add: sint_uint)
qed

lemma uint_of_nat_small: "n < 2 ^ 63 \<Longrightarrow> uint (of_nat n :: u64) = int n"
  by (simp only: uint_nat unat_of_nat) simp

lemma bcins_diff_exact:
  assumes "n < 2 ^ 32"
  shows "(ucast (bcins_diff (q + 4 * of_nat n) q) :: u32) = of_nat n"
proof -
  have "uint (of_nat (4 * n) :: u64) = int (4 * n)"
    using assms by (intro uint_of_nat_small) simp
  moreover have "int (4 * n) < 2 ^ 63" using assms by simp
  ultimately have "sint (of_nat (4 * n) :: u64) = 4 * int n"
    by (simp add: sint_small)
  then have "sint (signed_drop_bit 2 (of_nat (4 * n) :: u64)) = int n"
    by (simp add: sint_signed_drop_bit_eq drop_bit_eq_div)
  moreover have "sint (of_nat n :: u64) = int n"
    using assms by (simp add: sint_small uint_of_nat_small)
  ultimately have "signed_drop_bit 2 (of_nat (4 * n) :: u64) = of_nat n"
    by (metis signed_word_eqI)
  moreover have "(ucast (of_nat n :: u64) :: u32) = of_nat n"
    using assms by (intro word_uint_eqI) (simp add: unsigned_ucast_eq uint_nat unat_of_nat take_bit_nat_eq_self)
  ultimately show ?thesis by (simp add: bcins_diff_def)
qed

lemma get_frame_pc_eq:
  assumes "n + 1 < 2 ^ 32" and "funcproto rd fn \<noteq> 0"
    and "proto_bc (funcproto rd fn) + 4 * of_nat (n + 1) \<noteq> 0"
    and "saved_pc rd prev \<in> {None, Some (proto_bc (funcproto rd fn) + 4 * of_nat (n + 1))}"
  shows "get_frame_pc rd fn prev =
           (if prev = 0 \<or> saved_pc rd prev = None then NO_BCPOS else of_nat n)"
proof (cases "prev = 0 \<or> saved_pc rd prev = None")
  case True
  then show ?thesis
    by (auto simp: get_frame_pc_def saved_pc_def frame_islua_def frame_type_def frame_typep_def
        Let_def split: if_splits)
next
  case False
  with assms(2-4) have "get_frame_pc rd fn prev =
        ucast (bcins_diff (proto_bc (funcproto rd fn) + 4 * of_nat (n + 1))
                          (proto_bc (funcproto rd fn))) - 1"
    by (auto simp: get_frame_pc_def saved_pc_def frame_islua_def frame_type_def
        frame_typep_def Let_def split: if_splits)
  also have "\<dots> = of_nat n"
    using bcins_diff_exact [OF assms(1)] by simp
  finally show ?thesis using False by auto
qed

text \<open>
  C21. The bytecode position of a frame is the index of the call instruction: when the program
  counter its predecessor saved points at instruction \<open>n + 1\<close> of the function's bytecode, the result
  is \<open>n\<close>; after a predecessor that saves none, and for the topmost frame, there is no position.
\<close>

theorem get_frame_pc_correct:
  assumes "n + 1 < 2 ^ 32" and "funcproto rd fn \<noteq> 0"
    and "proto_bc (funcproto rd fn) + 4 * of_nat (n + 1) \<noteq> 0"
    and "saved_pc rd prev \<in> {None, Some (proto_bc (funcproto rd fn) + 4 * of_nat (n + 1))}"
  shows "get_frame_pc rd fn prev =
           (if prev = 0 \<or> saved_pc rd prev = None then NO_BCPOS else of_nat n)"
  using assms by (rule get_frame_pc_eq)

text \<open>A function at 0x30000 whose bytecode starts at 0x10068, called from its second instruction.\<close>

definition example_call :: "(u64 \<times> u8 list) list" where
  "example_call =
     [(0x30020, [0x68, 0, 1, 0, 0, 0, 0, 0]), (0x40000, [0x70, 0, 1, 0, 0, 0, 0, 0])]"

lemma example_call_fields:
  "rd_u64 (probe_cells example_call) 0x30020 = 0x10068"
  "rd_u64 (probe_cells example_call) 0x40000 = 0x10070"
  by (simp_all add: example_call_def cells_eval)

lemma get_frame_pc_correct_witness:
  "get_frame_pc (probe_cells example_call) 0x30000 0x40000 = 1"
proof -
  have fp: "funcproto (probe_cells example_call) 0x30000 = 0x10000"
    using example_call_fields by (simp add: funcproto_def field_addr_def lua_offsets)
  have "saved_pc (probe_cells example_call) 0x40000 = Some 0x10070"
    using example_call_fields
    by (simp add: saved_pc_def frame_islua_def frame_type_def frame_ftsz_def frame_pc_def
        FRAME_TYPE_def FRAME_LUA_def)
  then show ?thesis
    using get_frame_pc_correct [of 1 "probe_cells example_call" "0x30000" "0x40000"] fp
    by (simp add: proto_bc_def lua_sizes)
qed

end
