(* ===== verification/StackWalk.thy ===== *)
theory StackWalk
  imports LineInfo LuaTracker
begin

text \<open>
  The LuaJIT stack walker of the BPF program: \<open>emit_lua\<close>, which turns one frame into an event, and
  \<open>walk_lua_stack\<close>, which follows the frame links of the running \<open>lua_State\<close> for at most
  \<open>MAX_LUA_DEPTH\<close> frames. The abstract specification is the frame chain itself, a step relation on
  frame addresses, and the walker reports the chain's function frames in order.
\<close>

section \<open>Emitting a frame\<close>

text \<open>
  \<open>bpf_probe_read_user_str(dst, n, a)\<close> is the argument \<open>rdstr\<close>: the bytes the destination starts with
  afterwards, at most \<open>n\<close> of them.
\<close>

type_synonym str_probe = "u64 \<Rightarrow> nat \<Rightarrow> u8 list"

definition str_probe_law :: "str_probe \<Rightarrow> bool" where
  "str_probe_law rdstr \<longleftrightarrow> (\<forall>a n. length (rdstr a n) \<le> n)"

text \<open>The frame being emitted: its function object, the frame above it and the sample it is for.\<close>

record frame_ctx =
  fc_gco :: u64
  fc_prev :: u64
  fc_key :: sample_key
  fc_level :: i32
  fc_jit_top :: bool

text \<open>
  The scratch event is a per-CPU map value, \<open>None\<close> if its lookup fails; the result is the scratch
  event afterwards and the event that was output, if any.
\<close>

definition emit_lua ::
    "probe \<Rightarrow> str_probe \<Rightarrow> frame_ctx \<Rightarrow> lua_stack_event option \<Rightarrow>
     lua_stack_event option \<times> lua_stack_event option" where
  "emit_lua rd rdstr fc buf =
     (case buf of
        None \<Rightarrow> (None, None)
      | Some e0 \<Rightarrow>
          let fn = fc_gco fc;
              e = e0\<lparr>le_key := fc_key fc, le_level := fc_level fc, le_funcp := 0, le_line := 0,
                     le_type := 0, le_name := (le_name e0)[0 := 0]\<rparr>;
              ffid = rd_u8 rd (field_addr GCfuncC_t ''ffid'' fn)
          in if ffid = FF_LUA then
               let e = e\<lparr>le_type := (if fc_jit_top fc then FUNC_TYPE_JIT else FUNC_TYPE_LUA)\<rparr>;
                   pt = funcproto rd fn
               in if pt = 0 then (Some e, None)
               else let pc = get_frame_pc rd fn (fc_prev fc);
                        first = rd_u32 rd (field_addr GCproto_t ''firstline'' pt);
                        line = (if pc \<noteq> NO_BCPOS
                                then let r = get_lua_line rd pt pc in if 0 \<le>s r then r else first
                                else first);
                        e = e\<lparr>le_line := line\<rparr>;
                        str = rd_u64 rd (field_addr GCproto_t ''chunkname'' pt) AND LJ_GCVMASK;
                        e = (if str \<noteq> 0
                             then e\<lparr>le_name := overlay (rdstr (str + of_nat (sizeof GCstr_t)) CHUNKNAME_LEN)
                                                 (le_name e)\<rparr>
                             else e)
                    in (Some e, Some e)
             else if ffid = FF_C then
               let e = e\<lparr>le_type := FUNC_TYPE_C,
                         le_funcp := rd_u64 rd (field_addr GCfuncC_t ''f'' fn)\<rparr>
               in (Some e, Some e)
             else
               let e = e\<lparr>le_type := FUNC_TYPE_F, le_line := ucast ffid\<rparr>
               in (Some e, Some e))"

section \<open>The walk\<close>

record walk_env =
  we_L :: u64               \<comment> \<open>the \<open>lua_State\<close> being walked\<close>
  we_bot :: u64
  we_maxstack :: u64
  we_key :: sample_key
  we_jit :: bool            \<comment> \<open>\<open>on_jit_trace\<close>\<close>

record walk_state =
  w_frame :: u64
  w_prev :: u64
  w_out :: i32
  w_buf :: "lua_stack_event option"
  w_events :: "lua_stack_event list"   \<comment> \<open>output so far, oldest first\<close>

text \<open>Reporting the function frame the walk is at.\<close>

definition walk_emit :: "probe \<Rightarrow> str_probe \<Rightarrow> walk_env \<Rightarrow> walk_state \<Rightarrow> walk_state" where
  "walk_emit rd rdstr env s =
     (let (buf, ev) = emit_lua rd rdstr
            \<lparr>fc_gco = frame_gc rd (w_frame s), fc_prev = w_prev s, fc_key = we_key env,
             fc_level = w_out s, fc_jit_top = (we_jit env \<and> w_out s = 0)\<rparr>
            (w_buf s)
      in s\<lparr>w_buf := buf, w_out := w_out s + 1,
           w_events := w_events s @ (case ev of None \<Rightarrow> [] | Some e \<Rightarrow> [e])\<rparr>)"

text \<open>The address of the frame below, \<open>None\<close> where the loop breaks.\<close>

definition walk_next :: "probe \<Rightarrow> u64 \<Rightarrow> u64 \<Rightarrow> u64 option" where
  "walk_next rd stk_bot frame =
     (if frame_islua rd frame then
        let pc = frame_pc rd frame in
        if \<not> valid_user_ptr pc then None
        else let prev_ins = rd_u32 rd (pc - 4);
                 a = drop_bit 8 prev_ins AND 0xff;
                 next = tv_sub frame (1 + LJ_FR2 + ucast a)
             in if next \<ge> frame \<or> next < stk_bot then None else Some next
      else
        let size = frame_sized rd frame in
        if size \<le>s 0 \<or> size AND (of_nat (sizeof TValue_t) - 1) \<noteq> 0 then None
        else let next = frame - size
             in if next \<ge> frame \<or> next < stk_bot then None else Some next)"

text \<open>One iteration of the loop: the state after it, and whether the loop goes on.\<close>

definition walk_link :: "probe \<Rightarrow> walk_env \<Rightarrow> walk_state \<Rightarrow> walk_state \<times> bool" where
  "walk_link rd env s =
     (let s' = s\<lparr>w_prev := w_frame s\<rparr> in
      case walk_next rd (we_bot env) (w_frame s) of
        None \<Rightarrow> (s', False)
      | Some next \<Rightarrow> (s'\<lparr>w_frame := next\<rparr>, True))"

definition walk_body :: "probe \<Rightarrow> str_probe \<Rightarrow> walk_env \<Rightarrow> walk_state \<Rightarrow> walk_state \<times> bool" where
  "walk_body rd rdstr env s =
     (let frame = w_frame s in
      if frame \<le> we_bot env \<or> frame \<ge> we_maxstack env then (s, False)
      else let gco = frame_gc rd frame; vararg = frame_isvarg rd frame in
      if \<not> valid_user_ptr gco then (s, False)
      else let gct = gc_type rd gco in
      if gco \<noteq> we_L env \<and> \<not> vararg then
        (if gct \<noteq> LJ_GCT_FUNC then (s, False) else walk_link rd env (walk_emit rd rdstr env s))
      else if \<not> vararg \<and> gct \<noteq> LJ_GCT_THREAD then (s, False)
      else walk_link rd env s)"

fun walk_loop :: "nat \<Rightarrow> probe \<Rightarrow> str_probe \<Rightarrow> walk_env \<Rightarrow> walk_state \<Rightarrow> walk_state" where
  "walk_loop 0 rd rdstr env s = s"
| "walk_loop (Suc n) rd rdstr env s =
     (let (s', go) = walk_body rd rdstr env s in if go then walk_loop n rd rdstr env s' else s')"

text \<open>Reading \<open>lua_State\<close> and \<open>global_State\<close>: where the walk starts, if it starts at all.\<close>

definition walk_start :: "probe \<Rightarrow> u64 \<Rightarrow> sample_key \<Rightarrow> (walk_env \<times> u64) option" where
  "walk_start rd L key =
     (let stack_ptr = rd_u64 rd (field_addr lua_State_t ''stack'' L);
          maxstack_ptr = rd_u64 rd (field_addr lua_State_t ''maxstack'' L);
          stk_bot = stack_ptr + of_nat (sizeof TValue_t) * LJ_FR2;
          base_ptr = rd_u64 rd (field_addr lua_State_t ''base'' L);
          gptr = rd_u64 rd (field_addr lua_State_t ''glref'' L);
          cur_L_ptr = rd_u64 rd (gptr + LJ_G_OFS_CUR_L) AND LJ_GCVMASK;
          jit_base_ptr = rd_u64 rd (gptr + LJ_G_OFS_JIT_BASE);
          on_jit = (valid_user_ptr gptr \<and> cur_L_ptr = L \<and> jit_base_ptr > stk_bot \<and>
                    jit_base_ptr \<le> maxstack_ptr);
          base_ptr = (if on_jit then jit_base_ptr else base_ptr)
      in if base_ptr \<le> stk_bot \<or> base_ptr > maxstack_ptr then None
         else Some (\<lparr>we_L = L, we_bot = stk_bot, we_maxstack = maxstack_ptr, we_key = key,
                     we_jit = on_jit\<rparr>, tv_sub base_ptr 1))"

definition walk_lua_stack ::
    "probe \<Rightarrow> str_probe \<Rightarrow> ('m, lua_state_slot) map_ops \<Rightarrow> 'm \<Rightarrow> sample_key \<Rightarrow>
     lua_stack_event option \<Rightarrow> lua_stack_event option \<times> lua_stack_event list" where
  "walk_lua_stack rd rdstr ops states key buf =
     (case map_lookup ops states (sk_tid key) of
        None \<Rightarrow> (buf, [])
      | Some slot \<Rightarrow>
          if slot_ptr slot = 0 then (buf, [])
          else case walk_start rd (slot_ptr slot) key of
                 None \<Rightarrow> (buf, [])
               | Some (env, frame) \<Rightarrow>
                   let s = walk_loop MAX_LUA_DEPTH rd rdstr env
                             \<lparr>w_frame = frame, w_prev = 0, w_out = 0, w_buf = buf, w_events = []\<rparr>
                   in (w_buf s, w_events s))"

section \<open>Specification: the frame chain\<close>

text \<open>
  A frame the walker accepts lies strictly between the bottom and the end of the stack, and its
  object is a function, the thread itself (a dummy frame), or anything below a vararg frame.
\<close>

definition frame_ok :: "probe \<Rightarrow> walk_env \<Rightarrow> u64 \<Rightarrow> bool" where
  "frame_ok rd env f \<longleftrightarrow>
     we_bot env < f \<and> f < we_maxstack env \<and> valid_user_ptr (frame_gc rd f) \<and>
     (frame_isvarg rd f \<or>
      gc_type rd (frame_gc rd f) = (if frame_gc rd f = we_L env then LJ_GCT_THREAD else LJ_GCT_FUNC))"

text \<open>The frames that are reported: those of functions.\<close>

definition reported :: "probe \<Rightarrow> walk_env \<Rightarrow> u64 \<Rightarrow> bool" where
  "reported rd env f \<longleftrightarrow> frame_gc rd f \<noteq> we_L env \<and> \<not> frame_isvarg rd f"

inductive frame_step :: "probe \<Rightarrow> walk_env \<Rightarrow> u64 \<Rightarrow> u64 \<Rightarrow> bool" for rd env where
  lua_frame:
    "frame_ok rd env f \<Longrightarrow> frame_islua rd f \<Longrightarrow> valid_user_ptr (frame_pc rd f) \<Longrightarrow>
     g = f - 8 * (2 + ucast (drop_bit 8 (rd_u32 rd (frame_pc rd f - 4)) AND 0xff)) \<Longrightarrow>
     we_bot env \<le> g \<Longrightarrow> g < f \<Longrightarrow> frame_step rd env f g"
| sized_frame:
    "frame_ok rd env f \<Longrightarrow> \<not> frame_islua rd f \<Longrightarrow> 0 <s frame_sized rd f \<Longrightarrow>
     g = f - frame_sized rd f \<Longrightarrow> we_bot env \<le> g \<Longrightarrow> g < f \<Longrightarrow> frame_step rd env f g"

inductive_cases frame_stepE: "frame_step rd env f g"

inductive_simps frame_step_iff: "frame_step rd env f g"

text \<open>
  The chain of accepted frames from \<open>f\<close> on, to its end: each frame links to the next, and the last
  one has no successor or one that is not accepted.
\<close>

inductive complete_chain :: "probe \<Rightarrow> walk_env \<Rightarrow> u64 \<Rightarrow> u64 list \<Rightarrow> bool" for rd env where
  chain_end: "\<not> frame_ok rd env f \<Longrightarrow> complete_chain rd env f []"
| chain_last: "frame_ok rd env f \<Longrightarrow> (\<And>g. \<not> frame_step rd env f g) \<Longrightarrow> complete_chain rd env f [f]"
| chain_step: "frame_step rd env f g \<Longrightarrow> complete_chain rd env g fs \<Longrightarrow> complete_chain rd env f (f # fs)"

inductive_cases complete_chainE: "complete_chain rd env f fs"

text \<open>What the function frames of a chain emit, in order.\<close>

fun emit_chain ::
    "probe \<Rightarrow> str_probe \<Rightarrow> walk_env \<Rightarrow> u64 list \<Rightarrow> u64 \<Rightarrow> i32 \<Rightarrow> lua_stack_event option \<Rightarrow>
     lua_stack_event list" where
  "emit_chain rd rdstr env [] prev out buf = []"
| "emit_chain rd rdstr env (f # fs) prev out buf =
     (if reported rd env f
      then let (buf', ev) = emit_lua rd rdstr
                 \<lparr>fc_gco = frame_gc rd f, fc_prev = prev, fc_key = we_key env, fc_level = out,
                  fc_jit_top = (we_jit env \<and> out = 0)\<rparr> buf
           in (case ev of None \<Rightarrow> [] | Some e \<Rightarrow> [e]) @ emit_chain rd rdstr env fs f (out + 1) buf'
      else emit_chain rd rdstr env fs f out buf)"

section \<open>The chain is well founded\<close>

lemma frame_step_ok: "frame_step rd env f g \<Longrightarrow> frame_ok rd env f"
  by (auto elim: frame_stepE)

lemma frame_step_less: "frame_step rd env f g \<Longrightarrow> g < f \<and> we_bot env \<le> g"
  by (auto elim: frame_stepE)

lemma frame_step_deterministic:
  "frame_step rd env f g \<Longrightarrow> frame_step rd env f h \<Longrightarrow> g = h"
  by (auto elim!: frame_stepE)

lemma complete_chain_exists: "\<exists>fs. complete_chain rd env f fs"
proof (induction "unat f" arbitrary: f rule: less_induct)
  case less
  show ?case
  proof (cases "\<exists>g. frame_step rd env f g")
    case True
    then obtain g where g: "frame_step rd env f g" ..
    then have "unat g < unat f" by (simp add: frame_step_less flip: word_less_nat_alt)
    then obtain fs where "complete_chain rd env g fs" using less by blast
    with g show ?thesis by (blast intro: chain_step)
  next
    case False
    then show ?thesis by (metis chain_end chain_last)
  qed
qed

lemma complete_chain_unique:
  "complete_chain rd env f fs \<Longrightarrow> complete_chain rd env f gs \<Longrightarrow> fs = gs"
proof (induction arbitrary: gs rule: complete_chain.induct)
  case (chain_end f)
  from chain_end(2,1) show ?case by (cases rule: complete_chain.cases) (auto dest: frame_step_ok)
next
  case (chain_last f)
  from chain_last(3,1,2) show ?case by (cases rule: complete_chain.cases) auto
next
  case (chain_step f g fs)
  from chain_step.prems chain_step.hyps(1) obtain g' gs' where
    "gs = f # gs'" "frame_step rd env f g'" "complete_chain rd env g' gs'"
    by (cases rule: complete_chain.cases) (auto dest: frame_step_ok)
  then show ?case
    using chain_step frame_step_deterministic by blast
qed

lemma complete_chain_hd: "complete_chain rd env f (g # fs) \<Longrightarrow> g = f"
  by (auto elim: complete_chainE)

text \<open>The frames of a chain are accepted ones, and their addresses strictly decrease.\<close>

lemma complete_chain_frames:
  "complete_chain rd env f fs \<Longrightarrow>
   sorted_wrt (>) fs \<and> (\<forall>g \<in> set fs. frame_ok rd env g \<and> g \<le> f)"
proof (induction rule: complete_chain.induct)
  case (chain_step f g fs)
  then show ?case using frame_step_less frame_step_ok by fastforce
qed auto

section \<open>The loop follows the chain\<close>

lemma walk_emit_simps [simp]:
  "w_frame (walk_emit rd rdstr env s) = w_frame s"
  "w_prev (walk_emit rd rdstr env s) = w_prev s"
  "w_out (walk_emit rd rdstr env s) = w_out s + 1"
  by (simp_all add: walk_emit_def split: prod.split)

definition visit :: "probe \<Rightarrow> str_probe \<Rightarrow> walk_env \<Rightarrow> walk_state \<Rightarrow> walk_state" where
  "visit rd rdstr env s =
     (if reported rd env (w_frame s) then walk_emit rd rdstr env s else s)\<lparr>w_prev := w_frame s\<rparr>"

lemma walk_body_eq:
  "walk_body rd rdstr env s =
     (if frame_ok rd env (w_frame s)
      then (case walk_next rd (we_bot env) (w_frame s) of
              None \<Rightarrow> (visit rd rdstr env s, False)
            | Some g \<Rightarrow> ((visit rd rdstr env s)\<lparr>w_frame := g\<rparr>, True))
      else (s, False))"
  by (cases "walk_next rd (we_bot env) (w_frame s)")
     (simp_all add: walk_body_def walk_link_def visit_def frame_ok_def reported_def Let_def
       flip: not_le)

lemma sless_iff_not_sle: "\<not> (x :: u64) \<le>s 0 \<longleftrightarrow> 0 <s x"
  by (simp add: word_sle_eq word_sless_alt not_le)

lemma frame_size_check: "frame_sized rd f AND (of_nat (sizeof TValue_t) - 1) = 0"
  using frame_sized_aligned by (simp add: lua_sizes)

lemma walk_next_Some_iff:
  "walk_next rd stk_bot f = Some g \<longleftrightarrow>
     (if frame_islua rd f
      then valid_user_ptr (frame_pc rd f) \<and>
           g = f - 8 * (2 + ucast (drop_bit 8 (rd_u32 rd (frame_pc rd f - 4)) AND 0xff))
      else 0 <s frame_sized rd f \<and> g = f - frame_sized rd f) \<and> stk_bot \<le> g \<and> g < f"
proof (cases "frame_islua rd f")
  case True
  then show ?thesis by (auto simp: walk_next_def Let_def LJ_FR2_def)
next
  case False
  then show ?thesis
    by (auto simp: walk_next_def Let_def frame_size_check simp flip: sless_iff_not_sle)
qed

lemma frame_step_eq: "frame_step rd env f g \<longleftrightarrow> frame_ok rd env f \<and> walk_next rd (we_bot env) f = Some g"
  by (simp only: frame_step_iff walk_next_Some_iff) auto

lemma visit_emit_chain:
  "w_events (visit rd rdstr env s) @
     emit_chain rd rdstr env fs (w_frame s) (w_out (visit rd rdstr env s))
       (w_buf (visit rd rdstr env s))
   = w_events s @ emit_chain rd rdstr env (w_frame s # fs) (w_prev s) (w_out s) (w_buf s)"
  by (simp add: visit_def walk_emit_def Let_def split: prod.split)

lemma visit_prev [simp]: "w_prev (visit rd rdstr env s) = w_frame s"
  by (simp add: visit_def)

lemma walk_loop_chain:
  assumes "complete_chain rd env (w_frame s) fs"
  shows "w_events (walk_loop n rd rdstr env s) =
           w_events s @ emit_chain rd rdstr env (take n fs) (w_prev s) (w_out s) (w_buf s)"
  using assms
proof (induction n arbitrary: s fs)
  case 0
  then show ?case by simp
next
  case (Suc n)
  let ?v = "visit rd rdstr env s"
  from Suc.prems show ?case
  proof (cases rule: complete_chain.cases)
    case chain_end
    then show ?thesis by (simp add: walk_body_eq)
  next
    case chain_last
    then have "walk_next rd (we_bot env) (w_frame s) = None"
      by (cases "walk_next rd (we_bot env) (w_frame s)") (auto simp: frame_step_eq)
    then have "walk_loop (Suc n) rd rdstr env s = ?v"
      using chain_last by (simp add: walk_body_eq)
    with chain_last show ?thesis
      using visit_emit_chain [of rd rdstr env s "[]"] by simp
  next
    case (chain_step g gs)
    then have "walk_loop (Suc n) rd rdstr env s = walk_loop n rd rdstr env (?v\<lparr>w_frame := g\<rparr>)"
      by (simp add: walk_body_eq frame_step_eq)
    moreover have "w_events (walk_loop n rd rdstr env (?v\<lparr>w_frame := g\<rparr>)) =
        w_events ?v @ emit_chain rd rdstr env (take n gs) (w_frame s) (w_out ?v) (w_buf ?v)"
      using Suc.IH [of "?v\<lparr>w_frame := g\<rparr>" gs] chain_step by simp
    ultimately show ?thesis
      using chain_step visit_emit_chain [of rd rdstr env s "take n gs"] by simp
  qed
qed

section \<open>What is emitted\<close>

lemma emit_lua_event:
  assumes "emit_lua rd rdstr fc buf = (buf', Some e)"
  shows "le_key e = fc_key fc" and "le_level e = fc_level fc"
    and "le_type e \<in> {FUNC_TYPE_LUA, FUNC_TYPE_C, FUNC_TYPE_F, FUNC_TYPE_JIT}"
    and "le_type e = FUNC_TYPE_JIT \<longrightarrow> fc_jit_top fc"
  using assms by (auto simp: emit_lua_def Let_def split: option.splits if_splits)

lemma emit_lua_wf:
  assumes "emit_lua rd rdstr fc buf = (buf', ev)" and "str_probe_law rdstr"
    and "\<And>e. buf = Some e \<Longrightarrow> wf_lua e"
  shows "(\<forall>e. buf' = Some e \<longrightarrow> wf_lua e) \<and> (\<forall>e. ev = Some e \<longrightarrow> wf_lua e)"
  using assms
  by (auto simp: emit_lua_def Let_def wf_lua_def str_probe_law_def length_overlay
      split: option.splits if_splits)

lemma emit_chain_events:
  assumes "k + length fs < 2 ^ 32"
  shows "(\<forall>e \<in> set (emit_chain rd rdstr env fs prev (of_nat k) buf).
            le_key e = we_key env \<and> k \<le> unat (le_level e) \<and> unat (le_level e) < k + length fs \<and>
            (le_type e = FUNC_TYPE_JIT \<longrightarrow> we_jit env \<and> le_level e = 0)) \<and>
         sorted_wrt (\<lambda>e e'. unat (le_level e) < unat (le_level e'))
           (emit_chain rd rdstr env fs prev (of_nat k) buf)"
  using assms
proof (induction fs arbitrary: prev k buf)
  case Nil
  then show ?case by simp
next
  case (Cons f fs)
  show ?case
  proof (cases "reported rd env f")
    case False
    with Cons.prems Cons.IH [of k f buf] show ?thesis by (auto simp: less_SucI)
  next
    case True
    let ?fc = "\<lparr>fc_gco = frame_gc rd f, fc_prev = prev, fc_key = we_key env, fc_level = of_nat k,
                fc_jit_top = (we_jit env \<and> of_nat k = (0 :: i32))\<rparr>"
    obtain buf' ev where em: "emit_lua rd rdstr ?fc buf = (buf', ev)" by fastforce
    have chain: "emit_chain rd rdstr env (f # fs) prev (of_nat k) buf =
        (case ev of None \<Rightarrow> [] | Some e \<Rightarrow> [e]) @
        emit_chain rd rdstr env fs f (of_nat (Suc k)) buf'"
      using True em by (simp add: add.commute)
    have head: "le_key e = we_key env \<and> unat (le_level e) = k \<and>
        (le_type e = FUNC_TYPE_JIT \<longrightarrow> we_jit env \<and> le_level e = 0)" if "ev = Some e" for e
      using emit_lua_event [of rd rdstr ?fc buf buf' e] em that Cons.prems
      by (auto simp: unat_of_nat take_bit_nat_eq_self)
    have tail: "\<forall>e \<in> set (emit_chain rd rdstr env fs f (of_nat (Suc k)) buf').
        Suc k \<le> unat (le_level e)"
      using Cons.IH [of "Suc k" f buf'] Cons.prems by auto
    show ?thesis
      unfolding chain using Cons.IH [of "Suc k" f buf'] Cons.prems head tail
      by (cases ev) fastforce+
  qed
qed

lemma length_emit_chain:
  "length (emit_chain rd rdstr env fs prev out buf) \<le> length (filter (reported rd env) fs)"
proof (induction fs arbitrary: prev out buf)
  case Nil
  then show ?case by simp
next
  case (Cons f fs)
  then show ?case by (auto simp: Let_def intro: le_SucI split: prod.split option.split)
qed

lemma emit_chain_wf:
  assumes "str_probe_law rdstr" and "\<And>e. buf = Some e \<Longrightarrow> wf_lua e"
  shows "\<forall>e \<in> set (emit_chain rd rdstr env fs prev out buf). wf_lua e"
  using assms(2)
proof (induction fs arbitrary: prev out buf)
  case Nil
  then show ?case by simp
next
  case (Cons f fs)
  show ?case
  proof (cases "reported rd env f")
    case True
    let ?fc = "\<lparr>fc_gco = frame_gc rd f, fc_prev = prev, fc_key = we_key env, fc_level = out,
                fc_jit_top = (we_jit env \<and> out = 0)\<rparr>"
    obtain buf' ev where em: "emit_lua rd rdstr ?fc buf = (buf', ev)" by fastforce
    note wf = emit_lua_wf [OF em assms(1)] Cons.prems
    have "\<forall>e \<in> set (emit_chain rd rdstr env fs f (out + 1) buf'). wf_lua e"
      using wf by (intro Cons.IH) auto
    with True em wf show ?thesis by (auto split: option.splits)
  next
    case False
    moreover have "\<forall>e \<in> set (emit_chain rd rdstr env fs f out buf). wf_lua e"
      by (rule Cons.IH) (rule Cons.prems)
    ultimately show ?thesis by simp
  qed
qed

lemma walk_lua_stack_chain:
  assumes "map_lookup ops states (sk_tid key) = Some slot" and "slot_ptr slot \<noteq> 0"
    and "walk_start rd (slot_ptr slot) key = Some (env, f)" and "complete_chain rd env f fs"
  shows "snd (walk_lua_stack rd rdstr ops states key buf) =
           emit_chain rd rdstr env (take MAX_LUA_DEPTH fs) 0 0 buf"
  using assms walk_loop_chain [of rd env
      "\<lparr>w_frame = f, w_prev = 0, w_out = 0, w_buf = buf, w_events = []\<rparr>" fs]
  by (simp add: walk_lua_stack_def Let_def)

lemma walk_event_facts:
  assumes "str_probe_law rdstr" and "\<And>e. buf = Some e \<Longrightarrow> wf_lua e"
    and "evs = snd (walk_lua_stack rd rdstr ops states key buf)"
  shows "length evs \<le> MAX_LUA_DEPTH \<and>
    sorted_wrt (\<lambda>e e'. unat (le_level e) < unat (le_level e')) evs \<and>
    (\<forall>e \<in> set evs. le_key e = key \<and> unat (le_level e) < MAX_LUA_DEPTH \<and> wf_lua e \<and>
       (le_type e = FUNC_TYPE_JIT \<longrightarrow> le_level e = 0))"
proof (cases "evs = []")
  case True
  then show ?thesis by simp
next
  case False
  then obtain slot env f where w: "map_lookup ops states (sk_tid key) = Some slot"
      "slot_ptr slot \<noteq> 0" "walk_start rd (slot_ptr slot) key = Some (env, f)"
    by (auto simp: assms(3) walk_lua_stack_def split: option.splits if_splits)
  obtain fs where "complete_chain rd env f fs" using complete_chain_exists by blast
  then have evs: "evs =
      emit_chain rd rdstr env (take MAX_LUA_DEPTH fs) 0 0 buf"
    unfolding assms(3) by (rule walk_lua_stack_chain [OF w])
  have key: "we_key env = key"
    using w(3) by (auto simp: walk_start_def Let_def split: if_splits)
  have "length (emit_chain rd rdstr env (take MAX_LUA_DEPTH fs) 0 0 buf) \<le> MAX_LUA_DEPTH"
    using length_emit_chain [of rd rdstr env "take MAX_LUA_DEPTH fs" 0 0 buf]
      length_filter_le [of "reported rd env" "take MAX_LUA_DEPTH fs"] by simp
  moreover have "0 + length (take MAX_LUA_DEPTH fs) < 2 ^ 32" by (simp add: MAX_LUA_DEPTH_def)
  note emit_chain_events [OF this, of rd rdstr env 0 buf]
  moreover have "\<forall>e \<in> set (emit_chain rd rdstr env (take MAX_LUA_DEPTH fs) 0 0 buf). wf_lua e"
    using assms(1,2) by (intro emit_chain_wf) auto
  ultimately show ?thesis
    unfolding evs using key by fastforce
qed


section \<open>Properties\<close>

text \<open>
  C5. The walker refines the frame chain: for a thread with a tracked state it outputs exactly what
  the function frames among the first \<open>MAX_LUA_DEPTH\<close> frames of the chain emit, in order; such a
  chain always exists and is unique.
\<close>

theorem walk_reports_frame_chain:
  assumes "map_lookup ops states (sk_tid key) = Some slot" and "slot_ptr slot \<noteq> 0"
    and "walk_start rd (slot_ptr slot) key = Some (env, f)"
  shows "\<exists>!fs. complete_chain rd env f fs \<and>
           snd (walk_lua_stack rd rdstr ops states key buf) =
             emit_chain rd rdstr env (take MAX_LUA_DEPTH fs) 0 0 buf"
proof -
  obtain fs where "complete_chain rd env f fs" using complete_chain_exists by blast
  with walk_lua_stack_chain [OF assms] show ?thesis using complete_chain_unique by blast
qed

text \<open>The states the iterations of the loop start in, up to \<open>n\<close> of them.\<close>

fun walk_states :: "nat \<Rightarrow> probe \<Rightarrow> str_probe \<Rightarrow> walk_env \<Rightarrow> walk_state \<Rightarrow> walk_state list" where
  "walk_states 0 rd rdstr env s = []"
| "walk_states (Suc n) rd rdstr env s =
     s # (let (s', go) = walk_body rd rdstr env s in if go then walk_states n rd rdstr env s' else [])"

text \<open>An iteration that goes on has read an accepted frame and steps down inside the stack.\<close>

definition step_down :: "probe \<Rightarrow> walk_env \<Rightarrow> walk_state \<Rightarrow> walk_state \<Rightarrow> bool" where
  "step_down rd env s s' \<longleftrightarrow>
     we_bot env < w_frame s \<and> w_frame s < we_maxstack env \<and> valid_user_ptr (frame_gc rd (w_frame s)) \<and>
     we_bot env \<le> w_frame s' \<and> w_frame s' < w_frame s \<and> w_prev s' = w_frame s"

lemma walk_body_steps_down:
  assumes "walk_body rd rdstr env s = (s', True)"
  shows "step_down rd env s s'"
proof -
  from assms obtain g where ok: "frame_ok rd env (w_frame s)"
    and g: "walk_next rd (we_bot env) (w_frame s) = Some g"
    and s': "s' = (visit rd rdstr env s)\<lparr>w_frame := g\<rparr>"
    by (auto simp: walk_body_eq split: if_splits option.splits)
  then have "we_bot env \<le> g" "g < w_frame s" unfolding walk_next_Some_iff by blast+
  with ok show ?thesis by (simp add: step_down_def frame_ok_def s')
qed

lemma walk_states_hd: "walk_states (Suc n) rd rdstr env s \<noteq> [] \<and> hd (walk_states (Suc n) rd rdstr env s) = s"
  by simp

lemma walk_states_facts:
  "walk_loop (Suc n) rd rdstr env s = fst (walk_body rd rdstr env (last (walk_states (Suc n) rd rdstr env s))) \<and>
   successively (\<lambda>s s'. walk_body rd rdstr env s = (s', True) \<and> step_down rd env s s')
     (walk_states (Suc n) rd rdstr env s)"
proof (induction n arbitrary: s)
  case 0
  then show ?case by (simp split: prod.split)
next
  case (Suc n)
  obtain s' go where body: "walk_body rd rdstr env s = (s', go)" by fastforce
  show ?case
  proof (cases go)
    case True
    obtain t ts where ts: "walk_states (Suc n) rd rdstr env s' = t # ts" "t = s'"
      using walk_states_hd [of n rd rdstr env s'] by (metis list.collapse)
    have "walk_states (Suc (Suc n)) rd rdstr env s = s # t # ts"
      using body True ts by (simp del: walk_states.simps(2) add: walk_states.simps(2) [of "Suc n"])
    moreover have "walk_loop (Suc (Suc n)) rd rdstr env s = walk_loop (Suc n) rd rdstr env s'"
      using body True by (simp del: walk_loop.simps(2) add: walk_loop.simps(2) [of "Suc n"])
    ultimately show ?thesis
      using Suc.IH [of s'] body True walk_body_steps_down ts by simp
  qed (use body in simp)
qed

lemma strict_sorted_desc_distinct: "sorted_wrt (>) (xs :: u64 list) \<Longrightarrow> distinct xs"
  by (induction xs) auto

text \<open>
  C34. The walk stays inside the stack, whatever the memory holds. The loop runs through a list of
  states, each the result of an iteration on the one before, and its result is that of an iteration
  on the last. Every iteration that goes on is at a frame strictly between the bottom and the end of
  the Lua stack, with a plausible object, and moves strictly down but not below the bottom, keeping
  the frame it leaves as the previous one: so no frame is visited twice.
\<close>

theorem walk_stays_in_stack:
  "let ss = walk_states (Suc n) rd rdstr env s in
     walk_loop (Suc n) rd rdstr env s = fst (walk_body rd rdstr env (last ss)) \<and>
     successively (\<lambda>s s'. walk_body rd rdstr env s = (s', True) \<and>
        we_bot env < w_frame s \<and> w_frame s < we_maxstack env \<and> valid_user_ptr (frame_gc rd (w_frame s)) \<and>
        we_bot env \<le> w_frame s' \<and> w_frame s' < w_frame s \<and> w_prev s' = w_frame s) ss \<and>
     hd ss = s \<and> distinct (map w_frame ss)"
proof -
  let ?ss = "walk_states (Suc n) rd rdstr env s"
  note facts = walk_states_facts [of n rd rdstr env s]
  then have "successively (\<lambda>s s'. w_frame s' < w_frame s) ?ss"
    by (elim conjE, elim successively_mono) (simp_all add: step_down_def)
  then have "successively (>) (map w_frame ?ss)" by (simp only: successively_map)
  then have "sorted_wrt (>) (map w_frame ?ss)"
    by (subst (asm) successively_conv_sorted_wrt) (auto simp: transp_def)
  then have "distinct (map w_frame ?ss)"
    by (rule strict_sorted_desc_distinct)
  with facts show ?thesis unfolding Let_def step_down_def by simp
qed

text \<open>
  C22. A Lua function's event: with a prototype that has a line table and a caller-saved program
  counter at instruction \<open>n + 1\<close>, the line is the table's line for \<open>n\<close> (the first line where that is
  negative) and the name is what the string probe reads behind the chunk name's header.
\<close>

theorem emit_lua_function_frame:
  assumes "rd_u8 rd (field_addr GCfuncC_t ''ffid'' (fc_gco fc)) = FF_LUA"
    and "funcproto rd (fc_gco fc) = pt" and "pt \<noteq> 0"
    and "fc_prev fc \<noteq> 0" and "proto_bc pt + 4 * of_nat (n + 1) \<noteq> 0"
    and "saved_pc rd (fc_prev fc) = Some (proto_bc pt + 4 * of_nat (n + 1))"
    and "has_line_table rd pt lt" and "unat (lt_sizebc lt) * delta_width (lt_num lt) < 2 ^ 32"
    and "n + 1 < 2 ^ 32" and "line_at lt (of_nat n) = Some l"
    and "rd_u64 rd (field_addr GCproto_t ''chunkname'' pt) AND LJ_GCVMASK = str" and "str \<noteq> 0"
  shows "snd (emit_lua rd rdstr fc (Some e0)) =
    Some \<lparr>le_key = fc_key fc, le_level = fc_level fc,
          le_type = (if fc_jit_top fc then FUNC_TYPE_JIT else FUNC_TYPE_LUA),
          le_name = overlay (rdstr (str + 24) CHUNKNAME_LEN) ((le_name e0)[0 := 0]),
          le_funcp = 0, le_line = (if 0 \<le>s l then l else lt_first lt)\<rparr>"
proof -
  have pc: "get_frame_pc rd (fc_gco fc) (fc_prev fc) = of_nat n"
    using get_frame_pc_eq [of n rd "fc_gco fc" "fc_prev fc"] assms by simp
  have "(of_nat n :: u32) \<noteq> NO_BCPOS"
  proof
    assume "(of_nat n :: u32) = NO_BCPOS"
    then have "unat (of_nat n :: u32) = unat (- 1 :: u32)" by (simp add: NO_BCPOS_def)
    then show False
      using assms(9) by (simp add: unat_of_nat take_bit_nat_eq_self unsigned_minus_1_eq_mask mask_eq_exp_minus_1)
  qed
  moreover have "get_lua_line rd pt (of_nat n) = l"
    using get_lua_line_eq [OF assms(7,8)] assms(10) by simp
  moreover have "rd_u32 rd (field_addr GCproto_t ''firstline'' pt) = lt_first lt"
    using assms(7) by (simp add: has_line_table_def)
  ultimately show ?thesis
    using assms pc by (simp add: emit_lua_def Let_def lua_sizes)
qed

text \<open>
  The topmost reported frame of a walk, when it is the frame the walk starts at, has no saved
  program counter above it: a Lua function there is always reported at the first line of its
  definition, never at the line being executed.
\<close>

theorem walk_top_frame_has_definition_line:
  assumes "map_lookup ops states (sk_tid key) = Some slot" and "slot_ptr slot \<noteq> 0"
    and "walk_start rd (slot_ptr slot) key = Some (env, f)"
    and "frame_ok rd env f" and "reported rd env f"
    and "rd_u8 rd (field_addr GCfuncC_t ''ffid'' (frame_gc rd f)) = FF_LUA"
    and "funcproto rd (frame_gc rd f) = pt" and "pt \<noteq> 0"
  shows "\<exists>e evs. snd (walk_lua_stack rd rdstr ops states key (Some e0)) = e # evs \<and>
           le_level e = 0 \<and> le_line e = rd_u32 rd (field_addr GCproto_t ''firstline'' pt)"
proof -
  obtain fs where fs: "complete_chain rd env f fs" using complete_chain_exists by blast
  then have evs: "snd (walk_lua_stack rd rdstr ops states key (Some e0)) =
        emit_chain rd rdstr env (take MAX_LUA_DEPTH fs) 0 0 (Some e0)"
    by (rule walk_lua_stack_chain [OF assms(1-3)])
  from fs assms(4) obtain gs where "fs = f # gs"
    by (cases rule: complete_chain.cases) auto
  then have take: "take MAX_LUA_DEPTH fs = f # take 7 gs" by (simp add: MAX_LUA_DEPTH_def)
  show ?thesis
    unfolding evs take using assms(5-8)
    by (simp add: emit_lua_def get_frame_pc_def Let_def)
qed

text \<open>
  C39. A frame is marked as running on a JIT trace only when the VM says so: the global state the
  tracked \<open>lua_State\<close> refers to has that state as its current one, and its JIT base lies inside the
  state's stack.
\<close>

theorem jit_events_only_on_trace:
  assumes "e \<in> set (snd (walk_lua_stack rd rdstr ops states key buf))"
    and "le_type e = FUNC_TYPE_JIT"
  shows "\<exists>slot g. map_lookup ops states (sk_tid key) = Some slot \<and>
           g = rd_u64 rd (field_addr lua_State_t ''glref'' (slot_ptr slot)) \<and> valid_user_ptr g \<and>
           rd_u64 rd (g + LJ_G_OFS_CUR_L) AND LJ_GCVMASK = slot_ptr slot \<and>
           rd_u64 rd (field_addr lua_State_t ''stack'' (slot_ptr slot)) + 8 < rd_u64 rd (g + LJ_G_OFS_JIT_BASE) \<and>
           rd_u64 rd (g + LJ_G_OFS_JIT_BASE) \<le> rd_u64 rd (field_addr lua_State_t ''maxstack'' (slot_ptr slot))"
proof -
  from assms(1) obtain slot env f where w: "map_lookup ops states (sk_tid key) = Some slot"
      "slot_ptr slot \<noteq> 0" "walk_start rd (slot_ptr slot) key = Some (env, f)"
    by (auto simp: walk_lua_stack_def split: option.splits if_splits)
  obtain fs where "complete_chain rd env f fs" using complete_chain_exists by blast
  then have evs: "snd (walk_lua_stack rd rdstr ops states key buf) =
      emit_chain rd rdstr env (take MAX_LUA_DEPTH fs) 0 0 buf"
    by (rule walk_lua_stack_chain [OF w])
  have "0 + length (take MAX_LUA_DEPTH fs) < 2 ^ 32" by (simp add: MAX_LUA_DEPTH_def)
  from emit_chain_events [OF this, of rd rdstr env 0 buf] evs assms have "we_jit env" by auto
  then show ?thesis
    using w by (auto simp: walk_start_def Let_def lua_sizes LJ_FR2_def split: if_splits)
qed

section \<open>A concrete stack\<close>

text \<open>
  A state at 0x5000 whose stack holds a Lua function at 0x30000 called from a dummy frame of the
  thread: two frames, at 0x8020 and 0x8010, above the bottom at 0x8008. The global state at 0x70000
  says the function runs on a JIT trace; the state's own base is stale.
\<close>

definition example_stack :: "(u64 \<times> u8 list) list" where
  "example_stack =
     [(0x5009, [6]), (0x5010, [0, 0, 7, 0, 0, 0, 0, 0]), (0x70178, [0, 0x50, 0, 0, 0, 0, 0, 0]),
      (0x70180, [0x28, 0x80, 0, 0, 0, 0, 0, 0]), (0x5020, [0x18, 0x80, 0, 0, 0, 0, 0, 0]),
      (0x5030, [0, 0x90, 0, 0, 0, 0, 0, 0]), (0x5038, [0, 0x80, 0, 0, 0, 0, 0, 0]),
      (0x8018, [0, 0, 3, 0, 0, 0, 0, 0]), (0x8020, [0x70, 0, 1, 0, 0, 0, 0, 0]),
      (0x8008, [0, 0x50, 0, 0, 0, 0, 0, 0]), (0x8010, [0x9, 0, 0, 0, 0, 0, 0, 0]),
      (0x30009, [8]), (0x3000a, [0]), (0x30020, [0x68, 0, 1, 0, 0, 0, 0, 0]),
      (0x10040, [0, 0, 6, 0, 0, 0, 0, 0]), (0x10048, [10, 0, 0, 0])]"

abbreviation "ex_rd \<equiv> probe_cells example_stack"

definition ex_rdstr :: str_probe where
  "ex_rdstr a n = (if a = 0x60018 then take n [0x40, 0x61, 0] else [])"

definition ex_key :: sample_key where "ex_key = \<lparr>sk_pid = 3, sk_tid = 7, sk_seq = 1\<rparr>"

definition ex_env :: walk_env where
  "ex_env = \<lparr>we_L = 0x5000, we_bot = 0x8008, we_maxstack = 0x9000, we_key = ex_key, we_jit = True\<rparr>"

lemma ex_reads:
  "rd_u8 ex_rd 0x5009 = 6" "rd_u64 ex_rd 0x5020 = 0x8018" "rd_u64 ex_rd 0x5030 = 0x9000"
  "rd_u64 ex_rd 0x5038 = 0x8000" "rd_u64 ex_rd 0x8018 = 0x30000" "rd_u64 ex_rd 0x8020 = 0x10070"
  "rd_u64 ex_rd 0x8008 = 0x5000" "rd_u64 ex_rd 0x8010 = 0x9" "rd_u8 ex_rd 0x30009 = 8"
  "rd_u8 ex_rd 0x3000a = 0" "rd_u64 ex_rd 0x30020 = 0x10068" "rd_u64 ex_rd 0x10040 = 0x60000"
  "rd_u32 ex_rd 0x10048 = 10" "rd_u64 ex_rd 0x5010 = 0x70000" "rd_u64 ex_rd 0x70178 = 0x5000"
  "rd_u64 ex_rd 0x70180 = 0x8028" "rd_u32 ex_rd 0x1006c = 0"
  by (simp_all add: example_stack_def cells_eval)

lemmas walk_eval =
  frame_gc_def frame_isvarg_def frame_islua_def frame_typep_def frame_type_def frame_ftsz_def
  frame_pc_def frame_sized_def valid_user_ptr_def gc_type_def lua_consts field_addr_def lua_offsets

lemma ex_walk_start: "walk_start ex_rd 0x5000 ex_key = Some (ex_env, 0x8020)"
  using ex_reads by (simp add: walk_start_def Let_def ex_env_def walk_eval)

lemma ex_frames_ok: "frame_ok ex_rd ex_env 0x8020" "frame_ok ex_rd ex_env 0x8010"
    "\<not> frame_ok ex_rd ex_env 0x8008" "reported ex_rd ex_env 0x8020" "\<not> reported ex_rd ex_env 0x8010"
  using ex_reads by (simp_all add: frame_ok_def reported_def ex_env_def walk_eval)

lemma ex_chain: "complete_chain ex_rd ex_env 0x8020 [0x8020, 0x8010]"
proof -
  have "frame_step ex_rd ex_env 0x8020 0x8010"
    using ex_reads ex_frames_ok
    by (simp add: frame_step_eq walk_next_Some_iff ex_env_def walk_eval)
  moreover have "frame_step ex_rd ex_env 0x8010 0x8008"
    using ex_reads ex_frames_ok
    by (simp add: frame_step_eq walk_next_Some_iff ex_env_def walk_eval word_sless_alt)
  ultimately show ?thesis using ex_frames_ok by (blast intro: complete_chain.intros)
qed

definition ex_states :: "(u32 \<times> lua_state_slot) list" where
  "ex_states = [(7, \<lparr>slot_ptr = 0x5000, slot_depth = 1\<rparr>)]"

lemma ex_lookup: "map_lookup (alist_ops 4) ex_states (sk_tid ex_key) = Some \<lparr>slot_ptr = 0x5000, slot_depth = 1\<rparr>"
  by (simp add: ex_states_def ex_key_def)

lemma walk_reports_frame_chain_witness:
  "snd (walk_lua_stack ex_rd ex_rdstr (alist_ops 4) ex_states ex_key (Some default_lua)) =
     emit_chain ex_rd ex_rdstr ex_env [0x8020, 0x8010] 0 0 (Some default_lua)"
proof -
  obtain fs where fs: "complete_chain ex_rd ex_env 0x8020 fs"
      "snd (walk_lua_stack ex_rd ex_rdstr (alist_ops 4) ex_states ex_key (Some default_lua)) =
         emit_chain ex_rd ex_rdstr ex_env (take MAX_LUA_DEPTH fs) 0 0 (Some default_lua)"
    using walk_reports_frame_chain [OF ex_lookup, of ex_rd ex_env "0x8020" ex_rdstr "Some default_lua"] ex_walk_start
    by auto
  from complete_chain_unique [OF fs(1) ex_chain] fs(2) show ?thesis
    by (simp only: MAX_LUA_DEPTH_def) simp
qed

lemma walk_top_frame_has_definition_line_witness:
  "le_line (hd (snd (walk_lua_stack ex_rd ex_rdstr (alist_ops 4) ex_states ex_key (Some default_lua)))) = 10"
proof -
  have start: "walk_start ex_rd (slot_ptr \<lparr>slot_ptr = 0x5000, slot_depth = 1\<rparr>) ex_key = Some (ex_env, 0x8020)"
    by (simp add: ex_walk_start)
  have "frame_gc ex_rd 0x8020 = 0x30000" and "funcproto ex_rd 0x30000 = 0x10000"
    using ex_reads by (simp_all add: walk_eval funcproto_def)
  then show ?thesis
    using walk_top_frame_has_definition_line [OF ex_lookup _ start ex_frames_ok(1,4),
        of "0x10000" ex_rdstr default_lua] ex_reads
    by (auto simp: walk_eval)
qed

lemma jit_events_only_on_trace_witness:
  "rd_u64 ex_rd (0x70000 + LJ_G_OFS_CUR_L) AND LJ_GCVMASK = 0x5000 \<and>
   rd_u64 ex_rd (0x70000 + LJ_G_OFS_JIT_BASE) \<le> 0x9000"
proof -
  have "\<exists>e. emit_chain ex_rd ex_rdstr ex_env [0x8020, 0x8010] 0 0 (Some default_lua) = [e] \<and>
      le_type e = FUNC_TYPE_JIT"
    using ex_frames_ok(4,5) ex_reads
    by (simp add: emit_lua_def Let_def funcproto_def walk_eval ex_env_def get_frame_pc_def)
  moreover have "snd (walk_lua_stack ex_rd ex_rdstr (alist_ops 4) ex_states ex_key (Some default_lua)) =
      emit_chain ex_rd ex_rdstr ex_env [0x8020, 0x8010] 0 0 (Some default_lua)"
    using walk_lua_stack_chain [OF ex_lookup _ _ ex_chain] ex_walk_start
    by (simp add: MAX_LUA_DEPTH_def)
  ultimately obtain e where "e \<in> set (snd (walk_lua_stack ex_rd ex_rdstr (alist_ops 4) ex_states ex_key
      (Some default_lua)))" "le_type e = FUNC_TYPE_JIT" by auto
  from jit_events_only_on_trace [OF this] ex_lookup ex_reads show ?thesis
    by (auto simp: field_addr_def lua_offsets)
qed

text \<open>The function of \<open>example_proto\<close> called from its second instruction, at line 10 + 2.\<close>

definition example_frame :: "(u64 \<times> u8 list) list" where
  "example_frame =
     [(0x3000a, [0]), (0x30020, [0x68, 0, 1, 0, 0, 0, 0, 0]),
      (0x40000, [0x70, 0, 1, 0, 0, 0, 0, 0]), (0x10040, [0, 0, 6, 0, 0, 0, 0, 0])] @ example_proto"

lemma example_frame_fields:
  "rd_u8 (probe_cells example_frame) 0x3000a = 0"
  "rd_u64 (probe_cells example_frame) 0x30020 = 0x10068"
  "rd_u64 (probe_cells example_frame) 0x40000 = 0x10070"
  "rd_u64 (probe_cells example_frame) 0x10040 = 0x60000"
  "rd_u32 (probe_cells example_frame) 0x1000c = 3"
  "rd_u32 (probe_cells example_frame) 0x10048 = 10"
  "rd_u32 (probe_cells example_frame) 0x1004c = 5"
  "rd_u64 (probe_cells example_frame) 0x10050 = 0x20000"
  "LUARD_T (probe_cells example_frame) 0x20000 (Suc 0) = [2]"
  "LUARD_T (probe_cells example_frame) 0x20001 (Suc 0) = [4]"
  by (simp_all add: example_frame_def example_proto_def cells_eval)

lemma emit_lua_function_frame_witness:
  "map_option le_line (snd (emit_lua (probe_cells example_frame) ex_rdstr
     \<lparr>fc_gco = 0x30000, fc_prev = 0x40000, fc_key = ex_key, fc_level = 1, fc_jit_top = False\<rparr>
     (Some default_lua))) = Some 12"
proof -
  let ?rd = "probe_cells example_frame"
  have table: "has_line_table ?rd 0x10000 example_lines"
    using example_frame_fields
    by (simp add: has_line_table_def field_addr_def lua_offsets example_lines_def delta_width_def
        Let_def all_less_two word_le_def word_sless_alt)
  have "saved_pc ?rd 0x40000 = Some 0x10070"
    using example_frame_fields
    by (simp add: saved_pc_def frame_islua_def frame_type_def frame_ftsz_def frame_pc_def
        FRAME_TYPE_def FRAME_LUA_def)
  moreover have "line_at example_lines (of_nat 1) = Some 12"
    by (simp add: line_at_def example_lines_def)
  ultimately show ?thesis
    using emit_lua_function_frame [OF _ _ _ _ _ _ table, of
        "\<lparr>fc_gco = 0x30000, fc_prev = 0x40000, fc_key = ex_key, fc_level = 1, fc_jit_top = False\<rparr>"
        1 12 "0x60000" ex_rdstr default_lua] example_frame_fields
    by (simp add: walk_eval funcproto_def proto_bc_def example_lines_def delta_width_def
        word_sless_alt word_sle_eq)
qed

end
