(* ===== verification/Snapshot.thy ===== *)
theory Snapshot
  imports BpfEnv
begin

text \<open>
  The user-stack snapshot taken with a native sample: \<open>read_user_stack_snapshot\<close> of
  \<open>bpf/profile.bpf.c\<close> copies the stack in chunks of 512 bytes up to 4 KiB, and falls back to ever
  shorter prefixes when not even one chunk is readable.
\<close>

section \<open>Source function\<close>

text \<open>The chunk loop: the buffer and the number of bytes read when it stops.\<close>

function snapshot_chunks :: "probe \<Rightarrow> u64 \<Rightarrow> nat \<Rightarrow> nat \<Rightarrow> u8 list \<Rightarrow> u8 list \<times> nat" where
  "snapshot_chunks rd sp offset bytes_read stack =
     (if offset < USER_STACK_SNAPSHOT_SIZE then
        let (ok, bs) = rd (sp + of_nat offset) USER_STACK_SNAPSHOT_CHUNK_SIZE;
            stack = overlay_at offset bs stack
        in if \<not> ok then (stack, bytes_read)
           else snapshot_chunks rd sp (offset + USER_STACK_SNAPSHOT_CHUNK_SIZE)
                  (bytes_read + USER_STACK_SNAPSHOT_CHUNK_SIZE) stack
      else (stack, bytes_read))"
  by pat_completeness auto
termination
  by (relation "measure (\<lambda>(rd, sp, offset, n, stack). USER_STACK_SNAPSHOT_SIZE - offset)")
     (auto simp: common_consts)

declare snapshot_chunks.simps [simp del]

text \<open>The fallback reads of a shrinking prefix; the first that succeeds gives the length.\<close>

fun snapshot_prefix :: "probe \<Rightarrow> u64 \<Rightarrow> nat list \<Rightarrow> u8 list \<Rightarrow> u8 list \<times> nat" where
  "snapshot_prefix rd sp [] stack = (stack, 0)"
| "snapshot_prefix rd sp (n # ns) stack =
     (let (ok, bs) = rd sp n; stack = overlay bs stack in
      if ok then (stack, n) else snapshot_prefix rd sp ns stack)"

definition read_user_stack_snapshot :: "probe \<Rightarrow> u64 \<Rightarrow> u8 list \<Rightarrow> u8 list \<times> nat" where
  "read_user_stack_snapshot rd sp stack =
     (let (stack, bytes_read) = snapshot_chunks rd sp 0 0 stack in
      if bytes_read = 0 then snapshot_prefix rd sp [256, 128, 64, 32, 16, 8] stack
      else (stack, bytes_read))"

section \<open>What a snapshot holds\<close>

text \<open>
  \<open>reads_from rd M\<close>: a successful read returns the bytes of the target's memory \<open>M\<close>, which is what
  \<open>bpf_probe_read_user\<close> documents.
\<close>

definition reads_from :: "probe \<Rightarrow> user_mem \<Rightarrow> bool" where
  "reads_from rd M \<longleftrightarrow> (\<forall>a n. fst (rd a n) \<longrightarrow> mem_range M a n = Some (snd (rd a n)))"

lemma reads_from_probe_of [simp]: "reads_from (probe_of M) M"
  by (simp add: reads_from_def probe_of_def split: option.split)

lemma mem_range_append:
  "mem_range M a m = Some xs \<Longrightarrow> mem_range M (a + of_nat m) n = Some ys \<Longrightarrow>
   mem_range M a (m + n) = Some (xs @ ys)"
proof (induction m arbitrary: a xs)
  case 0
  then show ?case by simp
next
  case (Suc m)
  then obtain b zs where "M a = Some b" "mem_range M (a + 1) m = Some zs" "xs = b # zs"
    by (auto split: option.splits)
  with Suc show ?case by (simp add: ac_simps)
qed

lemma probe_lengths:
  assumes "probe_law rd" and "rd a n = (ok, bs)"
  shows "length bs \<le> n" and "ok \<Longrightarrow> length bs = n"
  using assms unfolding probe_law_def by (metis fst_conv snd_conv)+

lemma chunk_fits:
  assumes "offset < USER_STACK_SNAPSHOT_SIZE" and "USER_STACK_SNAPSHOT_CHUNK_SIZE dvd offset"
  shows "offset + USER_STACK_SNAPSHOT_CHUNK_SIZE \<le> USER_STACK_SNAPSHOT_SIZE"
proof -
  obtain k where "offset = USER_STACK_SNAPSHOT_CHUNK_SIZE * k" using assms(2) ..
  moreover from this assms(1) have "k < 8" by (simp add: common_consts)
  ultimately show ?thesis by (simp add: common_consts)
qed

lemma snapshot_chunks_spec:
  assumes "probe_law rd" and "reads_from rd M"
    and "length stack = USER_STACK_SNAPSHOT_SIZE" and "offset \<le> USER_STACK_SNAPSHOT_SIZE"
    and "USER_STACK_SNAPSHOT_CHUNK_SIZE dvd offset"
    and "mem_range M sp offset = Some (take offset stack)"
    and "snapshot_chunks rd sp offset offset stack = (stack', n)"
  shows "length stack' = USER_STACK_SNAPSHOT_SIZE \<and> n \<le> USER_STACK_SNAPSHOT_SIZE \<and>
         USER_STACK_SNAPSHOT_CHUNK_SIZE dvd n \<and> mem_range M sp n = Some (take n stack') \<and>
         (n < USER_STACK_SNAPSHOT_SIZE \<longrightarrow>
            \<not> fst (rd (sp + of_nat n) USER_STACK_SNAPSHOT_CHUNK_SIZE))"
  using assms(3-)
proof (induction "USER_STACK_SNAPSHOT_SIZE - offset" arbitrary: offset stack rule: less_induct)
  case less
  let ?C = USER_STACK_SNAPSHOT_CHUNK_SIZE and ?S = USER_STACK_SNAPSHOT_SIZE
  show ?case
  proof (cases "offset < ?S")
    case False
    then have "snapshot_chunks rd sp offset offset stack = (stack, offset)"
      by (subst snapshot_chunks.simps) simp
    with False less.prems show ?thesis by auto
  next
    case True
    obtain ok bs where r: "rd (sp + of_nat offset) ?C = (ok, bs)" by fastforce
    note len = probe_lengths [OF assms(1) r]
    note room = chunk_fits [OF True less.prems(3)]
    let ?stack = "overlay_at offset bs stack"
    have slen: "length ?stack = ?S"
      using less.prems(1) room len(1) by (simp add: length_overlay_at)
    have keep: "take offset ?stack = take offset stack"
      using less.prems(1,2) by (simp add: take_overlay_at_before)
    show ?thesis
    proof (cases ok)
      case False
      with less.prems r True slen keep show ?thesis
        by (auto simp: snapshot_chunks.simps [of rd sp offset offset stack])
    next
      case ok: True
      have bs: "mem_range M (sp + of_nat offset) ?C = Some bs"
        using assms(2) r ok unfolding reads_from_def by (metis fst_conv snd_conv)
      have "take (offset + ?C) ?stack = take offset stack @ bs"
        using take_overlay_at_prefix [of offset bs stack] len(2) [OF ok] room less.prems(1) by simp
      then have "mem_range M sp (offset + ?C) = Some (take (offset + ?C) ?stack)"
        using mem_range_append [OF less.prems(4) bs] by simp
      moreover have "snapshot_chunks rd sp (offset + ?C) (offset + ?C) ?stack = (stack', n)"
        using less.prems(5) r True ok
        by (simp add: snapshot_chunks.simps [of rd sp offset offset stack])
      moreover have "?S - (offset + ?C) < ?S - offset" using True by (simp add: common_consts)
      ultimately show ?thesis
        using less.hyps [of "offset + ?C" ?stack] slen room less.prems(3) by simp
    qed
  qed
qed

lemma snapshot_prefix_spec:
  assumes "probe_law rd" and "reads_from rd M" and "\<forall>n \<in> set ns. n \<le> length stack"
    and "snapshot_prefix rd sp ns stack = (stack', n)"
  shows "length stack' = length stack \<and> n \<in> insert 0 (set ns) \<and>
         mem_range M sp n = Some (take n stack') \<and> (n = 0 \<longrightarrow> 0 \<in> set ns \<or> (\<forall>k \<in> set ns. \<not> fst (rd sp k)))"
  using assms(3-)
proof (induction ns arbitrary: stack)
  case Nil
  then show ?case by simp
next
  case (Cons k ns)
  obtain ok bs where r: "rd sp k = (ok, bs)" by fastforce
  note len = probe_lengths [OF assms(1) r]
  have slen: "length (overlay bs stack) = length stack"
    using Cons.prems(1) len(1) by (simp add: length_overlay)
  show ?case
  proof (cases ok)
    case True
    then have "mem_range M sp k = Some bs"
      using assms(2) r unfolding reads_from_def by (metis fst_conv snd_conv)
    with True Cons.prems r slen len show ?thesis by (auto simp: overlay_def)
  next
    case False
    with Cons.prems r have "snapshot_prefix rd sp ns (overlay bs stack) = (stack', n)" by simp
    from Cons.IH [OF _ this] Cons.prems(1) slen False r show ?thesis by auto
  qed
qed

lemma snapshot_spec:
  assumes "probe_law rd" and "reads_from rd M" and "length stack = USER_STACK_SNAPSHOT_SIZE"
    and "read_user_stack_snapshot rd sp stack = (stack', n)"
  shows "length stack' = USER_STACK_SNAPSHOT_SIZE \<and> n \<le> USER_STACK_SNAPSHOT_SIZE \<and>
         (USER_STACK_SNAPSHOT_CHUNK_SIZE dvd n \<or> n \<in> {256, 128, 64, 32, 16, 8}) \<and>
         mem_range M sp n = Some (take n stack') \<and>
         (n < USER_STACK_SNAPSHOT_SIZE \<longrightarrow>
            (if USER_STACK_SNAPSHOT_CHUNK_SIZE \<le> n then \<not> fst (rd (sp + of_nat n) USER_STACK_SNAPSHOT_CHUNK_SIZE)
             else \<not> fst (rd sp USER_STACK_SNAPSHOT_CHUNK_SIZE) \<and> (n = 0 \<longrightarrow> \<not> fst (rd sp 8))))"
proof -
  obtain s1 n1 where chunks: "snapshot_chunks rd sp 0 0 stack = (s1, n1)" by fastforce
  have c: "length s1 = USER_STACK_SNAPSHOT_SIZE \<and> n1 \<le> USER_STACK_SNAPSHOT_SIZE \<and>
         USER_STACK_SNAPSHOT_CHUNK_SIZE dvd n1 \<and> mem_range M sp n1 = Some (take n1 s1) \<and>
         (n1 < USER_STACK_SNAPSHOT_SIZE \<longrightarrow>
            \<not> fst (rd (sp + of_nat n1) USER_STACK_SNAPSHOT_CHUNK_SIZE))"
    by (rule snapshot_chunks_spec [OF assms(1,2,3) _ _ _ chunks]) simp_all
  show ?thesis
  proof (cases "n1 = 0")
    case False
    with assms(4) chunks c show ?thesis
      by (auto simp: read_user_stack_snapshot_def dvd_imp_le)
  next
    case True
    then have "snapshot_prefix rd sp [256, 128, 64, 32, 16, 8] s1 = (stack', n)"
      using assms(4) chunks by (simp add: read_user_stack_snapshot_def)
    from snapshot_prefix_spec [OF assms(1,2) _ this] c
    have p: "length stack' = USER_STACK_SNAPSHOT_SIZE" "n \<in> {0, 256, 128, 64, 32, 16, 8}"
        "mem_range M sp n = Some (take n stack')" "n = 0 \<longrightarrow> \<not> fst (rd sp 8)"
      by (simp_all add: common_consts)
    have "\<not> fst (rd sp USER_STACK_SNAPSHOT_CHUNK_SIZE)"
      using c True by (simp add: common_consts)
    with p show ?thesis by (auto simp: common_consts)
  qed
qed

section \<open>Properties\<close>

text \<open>
  C17. A snapshot is sound: it never leaves the 4 KiB buffer, its length is a multiple of the chunk
  size or one of the fallback lengths, and its bytes are exactly the target's memory from the stack
  pointer upwards, whatever earlier samples or failed reads left in the buffer.
\<close>

theorem snapshot_sound:
  assumes "probe_law rd" and "reads_from rd M" and "length stack = USER_STACK_SNAPSHOT_SIZE"
  shows "case read_user_stack_snapshot rd sp stack of (stack', n) \<Rightarrow>
           length stack' = USER_STACK_SNAPSHOT_SIZE \<and> n \<le> USER_STACK_SNAPSHOT_SIZE \<and>
           (USER_STACK_SNAPSHOT_CHUNK_SIZE dvd n \<or> n \<in> {256, 128, 64, 32, 16, 8}) \<and>
           mem_range M sp n = Some (take n stack')"
  using snapshot_spec [OF assms] by (auto split: prod.split)

lemma snapshot_sound_witness:
  "case read_user_stack_snapshot (probe_of (\<lambda>a. Some 7)) 0x7000 (ne_stack default_native) of
     (stack', n) \<Rightarrow> n \<le> 4096 \<and> mem_range (\<lambda>a. Some 7) 0x7000 n = Some (take n stack')"
  using snapshot_sound [of "probe_of (\<lambda>a. Some 7)" "\<lambda>a. Some 7" "ne_stack default_native" "0x7000"]
  by (auto simp: default_native_def USER_STACK_SNAPSHOT_SIZE_def split: prod.split)

text \<open>
  C35. A snapshot is as long as the chunked reads allow: when it stops short of 4 KiB the next chunk
  is unreadable, when it is shorter than a chunk the first chunk is, and it is empty only if not
  even one word at the stack pointer can be read.
\<close>

theorem snapshot_maximal:
  assumes "probe_law rd" and "length stack = USER_STACK_SNAPSHOT_SIZE"
    and "reads_from rd M"
  shows "case read_user_stack_snapshot rd sp stack of (stack', n) \<Rightarrow>
           n = USER_STACK_SNAPSHOT_SIZE \<or>
           (if USER_STACK_SNAPSHOT_CHUNK_SIZE \<le> n
            then \<not> fst (rd (sp + of_nat n) USER_STACK_SNAPSHOT_CHUNK_SIZE)
            else \<not> fst (rd sp USER_STACK_SNAPSHOT_CHUNK_SIZE) \<and> (n = 0 \<longrightarrow> \<not> fst (rd sp 8)))"
  using snapshot_spec [OF assms(1,3,2)] by (fastforce split: prod.split)

lemma unmapped_probe: "probe_of (\<lambda>a. None) a (Suc n) = (False, replicate (Suc n) 0)"
  by (simp add: probe_of_def)

lemmas unmapped_probes = unmapped_probe [of _ 511] unmapped_probe [of _ 255] unmapped_probe [of _ 127]
  unmapped_probe [of _ 63] unmapped_probe [of _ 31] unmapped_probe [of _ 15] unmapped_probe [of _ 7]

lemma snapshot_maximal_witness:
  "snd (read_user_stack_snapshot (probe_of (\<lambda>a. None)) 0x7000 (ne_stack default_native)) = 0 \<and>
   \<not> fst (probe_of (\<lambda>a. None) 0x7000 8)"
proof -
  let ?rd = "probe_of (\<lambda>a. None)"
  have "snd (read_user_stack_snapshot ?rd 0x7000 (ne_stack default_native)) = 0"
    by (simp add: read_user_stack_snapshot_def snapshot_chunks.simps [of _ _ 0] common_consts
          Let_def unmapped_probes [simplified])
  then show ?thesis
    using snapshot_maximal [of ?rd "ne_stack default_native" "\<lambda>a. None" "0x7000"]
    by (simp add: default_native_def common_consts probe_of_law reads_from_probe_of split: prod.splits)
qed

end
