(* ===== verification/Sampler.thy ===== *)
theory Sampler
  imports StackWalk Snapshot
begin

text \<open>
  The perf-event sampler \<open>do_perf_event\<close> and the BPF program as a whole: its state, one step per
  probe or sample, and runs of steps with the events they output.
\<close>

section \<open>State\<close>

record ('s, 'q) bpf_state =
  lua_states :: 's
  seq_map :: 'q
  native_buf :: "nat \<Rightarrow> native_event option"       \<comment> \<open>per CPU\<close>
  lua_event_buf :: "nat \<Rightarrow> lua_stack_event option"  \<comment> \<open>per CPU\<close>

text \<open>The two map implementations, and the probes, are the same during one run of a program.\<close>

record ('s, 'q) bpf_helpers =
  states_ops :: "('s, lua_state_slot) map_ops"
  seq_ops :: "('q, u32) map_ops"

section \<open>Source functions\<close>

definition next_seq :: "('q, u32) map_ops \<Rightarrow> u32 \<Rightarrow> 'q \<Rightarrow> 'q \<times> u32" where
  "next_seq ops tid m =
     (let v = (case map_lookup ops m tid of Some p \<Rightarrow> p + 1 | None \<Rightarrow> 1)
      in (map_update ops m tid v, v))"

text \<open>
  One sample: the CPU it runs on, the current task, the interrupted registers, the memory of the
  target with the probes that read it, and what \<open>bpf_get_stack\<close> does: its return value and the words it writes to \<open>ips\<close>.
\<close>

record sample_input =
  in_cpu :: nat
  in_task :: u64
  in_regs :: pt_regs
  in_get_stack :: "int \<times> u64 list"
  in_mem :: user_mem
  in_read :: probe
  in_read_str :: str_probe

definition sample_law :: "sample_input \<Rightarrow> bool" where
  "sample_law i \<longleftrightarrow> probe_law (in_read i) \<and> reads_from (in_read i) (in_mem i) \<and>
     str_probe_law (in_read_str i) \<and>
     length (snd (in_get_stack i)) \<le> PERF_MAX_STACK_DEPTH \<and>
     fst (in_get_stack i) \<le> 8 * int PERF_MAX_STACK_DEPTH"

text \<open>The native half: filling the scratch event, and the event with the number of bytes output.\<close>

definition sample_native ::
    "config \<Rightarrow> arch \<Rightarrow> sample_input \<Rightarrow> sample_key \<Rightarrow> native_event \<Rightarrow> native_event \<times> nat" where
  "sample_native cfg arch i key ne =
     (let ne = ne\<lparr>ne_key := key, ne_stack_len := 0, ne_ip := 0, ne_sp := 0, ne_fp := 0, ne_lr := 0\<rparr>;
          (n, ips) = in_get_stack i;
          ne = ne\<lparr>ne_ips := overlay ips (ne_ips ne),
                  ne_ip_cnt := (if n > 0 then of_int (n div 8) else 0)\<rparr>
      in if collect_native_stacks cfg then
           let ne = ne\<lparr>ne_ip := PT_REGS_IP (in_regs i), ne_sp := PT_REGS_SP (in_regs i),
                       ne_fp := PT_REGS_FP (in_regs i),
                       ne_lr := (case arch of Aarch64 \<Rightarrow> PT_REGS_RET (in_regs i) | X86_64 \<Rightarrow> 0)\<rparr>;
               ne = (if ne_sp ne \<noteq> 0
                     then let (stack, len) = read_user_stack_snapshot (in_read i) (ne_sp ne) (ne_stack ne)
                          in ne\<lparr>ne_stack := stack, ne_stack_len := of_nat len\<rparr>
                     else ne)
           in (ne, sizeof native_event_t)
         else (ne, offsetof native_event_t ''stack''))"

text \<open>What a step hands to the two perf buffers.\<close>

record bpf_output =
  native_events :: "(native_event \<times> nat) list"
  lua_events_out :: "lua_stack_event list"

definition no_output :: bpf_output where
  "no_output = \<lparr>native_events = [], lua_events_out = []\<rparr>"

text \<open>The two halves of the handler, each with its own scratch event of the CPU.\<close>

definition sample_native_part ::
    "config \<Rightarrow> arch \<Rightarrow> sample_input \<Rightarrow> sample_key \<Rightarrow> ('s, 'q) bpf_state \<Rightarrow>
     ('s, 'q) bpf_state \<times> (native_event \<times> nat) list" where
  "sample_native_part cfg arch i key st =
     (if \<not> kernel_stacks_only cfg then
        (case native_buf st (in_cpu i) of
           None \<Rightarrow> (st, [])
         | Some ne0 \<Rightarrow>
             let (ne, sz) = sample_native cfg arch i key ne0
             in (st\<lparr>native_buf := (native_buf st)(in_cpu i := Some ne)\<rparr>, [(ne, sz)]))
      else (st, []))"

definition sample_lua_part ::
    "config \<Rightarrow> ('s, lua_state_slot) map_ops \<Rightarrow> sample_input \<Rightarrow> sample_key \<Rightarrow> ('s, 'q) bpf_state \<Rightarrow>
     ('s, 'q) bpf_state \<times> lua_stack_event list" where
  "sample_lua_part cfg ops i key st =
     (if \<not> disable_lua_user_trace cfg then
        let (buf, evs) = walk_lua_stack (in_read i) (in_read_str i) ops (lua_states st) key
                           (lua_event_buf st (in_cpu i))
        in (st\<lparr>lua_event_buf := (lua_event_buf st)(in_cpu i := buf)\<rparr>, evs)
      else (st, []))"

definition do_perf_event ::
    "config \<Rightarrow> arch \<Rightarrow> ('s, 'q) bpf_helpers \<Rightarrow> sample_input \<Rightarrow> ('s, 'q) bpf_state \<Rightarrow>
     ('s, 'q) bpf_state \<times> bpf_output" where
  "do_perf_event cfg arch h i st =
     (let (pid, tid) = get_pid_tid (in_task i) in
      if \<not> include_idle cfg \<and> tid = 0 then (st, no_output)
      else if targ_pid cfg \<noteq> - 1 \<and> targ_pid cfg \<noteq> pid then (st, no_output)
      else if targ_tid cfg \<noteq> - 1 \<and> targ_tid cfg \<noteq> tid then (st, no_output)
      else
        let (seqs, seq) = next_seq (seq_ops h) tid (seq_map st);
            key = \<lparr>sk_pid = pid, sk_tid = tid, sk_seq = seq\<rparr>;
            (st, native) = sample_native_part cfg arch i key (st\<lparr>seq_map := seqs\<rparr>);
            (st, lua) = sample_lua_part cfg (states_ops h) i key st
        in (st, \<lparr>native_events = native, lua_events_out = lua\<rparr>))"

section \<open>Runs of the program\<close>

datatype bpf_action = Probe lua_probe | Sample sample_input

fun bpf_step ::
    "config \<Rightarrow> arch \<Rightarrow> ('s, 'q) bpf_helpers \<Rightarrow> bpf_action \<Rightarrow> ('s, 'q) bpf_state \<Rightarrow>
     ('s, 'q) bpf_state \<times> bpf_output" where
  "bpf_step cfg arch h (Probe e) st =
     (st\<lparr>lua_states := probe_step cfg arch (states_ops h) e (lua_states st)\<rparr>, no_output)"
| "bpf_step cfg arch h (Sample i) st = do_perf_event cfg arch h i st"

fun bpf_run ::
    "config \<Rightarrow> arch \<Rightarrow> ('s, 'q) bpf_helpers \<Rightarrow> bpf_action list \<Rightarrow> ('s, 'q) bpf_state \<Rightarrow>
     ('s, 'q) bpf_state \<times> bpf_output list" where
  "bpf_run cfg arch h [] st = (st, [])"
| "bpf_run cfg arch h (x # xs) st =
     (let (st, out) = bpf_step cfg arch h x st; (st, outs) = bpf_run cfg arch h xs st
      in (st, out # outs))"

text \<open>Whether a sample passes the filters, and the thread it counts for.\<close>

definition accepted :: "config \<Rightarrow> u64 \<Rightarrow> bool" where
  "accepted cfg task \<longleftrightarrow>
     (include_idle cfg \<or> tid_of task \<noteq> 0) \<and> \<not> pid_filtered cfg (pid_of task) \<and>
     (targ_tid cfg = - 1 \<or> targ_tid cfg = tid_of task)"

definition sampled_tid :: "config \<Rightarrow> bpf_action \<Rightarrow> u32 option" where
  "sampled_tid cfg x =
     (case x of Probe e \<Rightarrow> None
      | Sample i \<Rightarrow> if accepted cfg (in_task i) then Some (tid_of (in_task i)) else None)"

section \<open>One sample\<close>

text \<open>The sequence map represents how many samples each thread has had.\<close>

definition counts_samples :: "('q, u32) map_ops \<Rightarrow> 'q \<Rightarrow> (u32 \<Rightarrow> nat) \<Rightarrow> bool" where
  "counts_samples ops q c \<longleftrightarrow>
     (\<forall>t. map_lookup ops q t = (if c t = 0 then None else Some (of_nat (c t))))"

locale seq_numbers = hash_map ops cap invar
  for ops :: "('q, u32) map_ops" and cap and invar
begin

lemma next_seq_counts:
  assumes "invar q" and "counts_samples ops q c" and "has_room ops cap q t"
    and "next_seq ops t q = (q', seq)"
  shows "seq = of_nat (Suc (c t)) \<and> invar q' \<and> counts_samples ops q' (c(t := Suc (c t)))"
proof -
  have seq: "seq = of_nat (Suc (c t))"
    using assms(2,4) by (auto simp: next_seq_def counts_samples_def Let_def add.commute)
  have q': "q' = map_update ops q t seq"
    using assms(4) by (auto simp: next_seq_def Let_def)
  show ?thesis
    using seq q' assms by (auto simp: counts_samples_def lookup_update invar_update)
qed

lemma next_seq_full:
  assumes "invar q" and "\<not> has_room ops cap q t" and "next_seq ops t q = (q', seq)"
  shows "seq = 1 \<and> map_lookup ops q' = map_lookup ops q"
  using assms by (auto simp: next_seq_def Let_def lookup_update_full has_room_def)

end

interpretation seqs: seq_numbers "alist_ops MAX_ENTRIES" MAX_ENTRIES "alist_invar MAX_ENTRIES"
  by unfold_locales

definition sample_key_of :: "u64 \<Rightarrow> u32 \<Rightarrow> sample_key" where
  "sample_key_of task seq = \<lparr>sk_pid = pid_of task, sk_tid = tid_of task, sk_seq = seq\<rparr>"

definition output_keys :: "bpf_output \<Rightarrow> sample_key set" where
  "output_keys out = (ne_key \<circ> fst) ` set (native_events out) \<union> le_key ` set (lua_events_out out)"

lemma no_output_keys [simp]: "output_keys no_output = {}"
  by (simp add: output_keys_def no_output_def)

lemma sample_native_key: "ne_key (fst (sample_native cfg arch i key ne)) = key"
  by (simp add: sample_native_def Let_def split: prod.split)

lemma walk_lua_stack_key:
  assumes "e \<in> set (snd (walk_lua_stack rd rdstr ops states key buf))"
  shows "le_key e = key"
proof -
  from assms obtain slot env f where w: "map_lookup ops states (sk_tid key) = Some slot"
      "slot_ptr slot \<noteq> 0" "walk_start rd (slot_ptr slot) key = Some (env, f)"
    by (auto simp: walk_lua_stack_def split: option.splits if_splits)
  obtain fs where "complete_chain rd env f fs" using complete_chain_exists by blast
  then have evs: "snd (walk_lua_stack rd rdstr ops states key buf) =
      emit_chain rd rdstr env (take MAX_LUA_DEPTH fs) 0 0 buf"
    by (rule walk_lua_stack_chain [OF w])
  have "0 + length (take MAX_LUA_DEPTH fs) < 2 ^ 32" by (simp add: MAX_LUA_DEPTH_def)
  from emit_chain_events [OF this, of rd rdstr env 0 buf] evs assms
  have "le_key e = we_key env" by auto
  then show ?thesis using w(3) by (auto simp: walk_start_def Let_def split: if_splits)
qed

lemma sample_native_part_frame:
  assumes "sample_native_part cfg arch i key st = (st', native)"
  shows "seq_map st' = seq_map st" "lua_states st' = lua_states st"
    "lua_event_buf st' = lua_event_buf st"
    "native = (if kernel_stacks_only cfg then []
               else case native_buf st (in_cpu i) of
                      None \<Rightarrow> [] | Some ne0 \<Rightarrow> [sample_native cfg arch i key ne0])"
  using assms by (auto simp: sample_native_part_def split: if_splits option.splits prod.splits)

lemma sample_lua_part_frame:
  assumes "sample_lua_part cfg ops i key st = (st', lua)"
  shows "seq_map st' = seq_map st" "lua_states st' = lua_states st" "native_buf st' = native_buf st"
    "lua = (if disable_lua_user_trace cfg then []
            else snd (walk_lua_stack (in_read i) (in_read_str i) ops (lua_states st) key
                        (lua_event_buf st (in_cpu i))))"
  using assms by (auto simp: sample_lua_part_def split: if_splits prod.splits)

lemma do_perf_event_rejected:
  "\<not> accepted cfg (in_task i) \<Longrightarrow> do_perf_event cfg arch h i st = (st, no_output)"
  by (auto simp: do_perf_event_def accepted_def pid_filtered_def get_pid_tid_eq Let_def)

lemma do_perf_event_parts:
  assumes acc: "accepted cfg (in_task i)"
    and seq: "next_seq (seq_ops h) (tid_of (in_task i)) (seq_map st) = (seqs, seq)"
    and n: "sample_native_part cfg arch i (sample_key_of (in_task i) seq) (st\<lparr>seq_map := seqs\<rparr>) =
              (st1, native)"
    and l: "sample_lua_part cfg (states_ops h) i (sample_key_of (in_task i) seq) st1 = (st2, lua)"
  shows "do_perf_event cfg arch h i st = (st2, \<lparr>native_events = native, lua_events_out = lua\<rparr>)"
proof -
  have guards: "\<not> (\<not> include_idle cfg \<and> tid_of (in_task i) = 0)"
      "\<not> (targ_pid cfg \<noteq> - 1 \<and> targ_pid cfg \<noteq> pid_of (in_task i))"
      "\<not> (targ_tid cfg \<noteq> - 1 \<and> targ_tid cfg \<noteq> tid_of (in_task i))"
    using acc by (auto simp: accepted_def pid_filtered_def)
  have key: "\<lparr>sk_pid = pid_of (in_task i), sk_tid = tid_of (in_task i), sk_seq = seq\<rparr> =
      sample_key_of (in_task i) seq"
    by (simp add: sample_key_of_def)
  show ?thesis
    unfolding do_perf_event_def get_pid_tid_eq Let_def prod.case seq if_not_P [OF guards(1)]
      if_not_P [OF guards(2)] if_not_P [OF guards(3)] key n l by (rule refl)
qed

lemma do_perf_event_accepted:
  assumes acc: "accepted cfg (in_task i)"
    and seq: "next_seq (seq_ops h) (tid_of (in_task i)) (seq_map st) = (seqs, seq)"
    and "do_perf_event cfg arch h i st = (st', out)"
  shows "seq_map st' = seqs" and "lua_states st' = lua_states st"
    and "lua_events_out out =
           (if disable_lua_user_trace cfg then []
            else snd (walk_lua_stack (in_read i) (in_read_str i) (states_ops h) (lua_states st)
                        (sample_key_of (in_task i) seq) (lua_event_buf st (in_cpu i))))"
    and "native_events out =
           (if kernel_stacks_only cfg then []
            else case native_buf st (in_cpu i) of
                   None \<Rightarrow> []
                 | Some ne0 \<Rightarrow> [sample_native cfg arch i (sample_key_of (in_task i) seq) ne0])"
proof -
  let ?key = "sample_key_of (in_task i) seq"
  obtain st1 native where n: "sample_native_part cfg arch i ?key (st\<lparr>seq_map := seqs\<rparr>) = (st1, native)"
    by fastforce
  obtain st2 lua where l: "sample_lua_part cfg (states_ops h) i ?key st1 = (st2, lua)" by fastforce
  note do_perf_event_parts [OF acc seq n l]
  with assms(3) have eq: "st' = st2" "out = \<lparr>native_events = native, lua_events_out = lua\<rparr>"
    by simp_all
  note N = sample_native_part_frame [OF n] and L = sample_lua_part_frame [OF l]
  show "seq_map st' = seqs" and "lua_states st' = lua_states st"
    using N(1,2) L(1,2) eq by simp_all
  show "lua_events_out out =
           (if disable_lua_user_trace cfg then []
            else snd (walk_lua_stack (in_read i) (in_read_str i) (states_ops h) (lua_states st)
                        ?key (lua_event_buf st (in_cpu i))))"
    using N(2,3) L(4) eq by simp
  show "native_events out =
           (if kernel_stacks_only cfg then []
            else case native_buf st (in_cpu i) of
                   None \<Rightarrow> [] | Some ne0 \<Rightarrow> [sample_native cfg arch i ?key ne0])"
    using N(4) eq by simp
qed

lemma do_perf_event_keys:
  assumes "accepted cfg (in_task i)"
    and "next_seq (seq_ops h) (tid_of (in_task i)) (seq_map st) = (seqs, seq)"
    and "do_perf_event cfg arch h i st = (st', out)"
  shows "output_keys out \<subseteq> {sample_key_of (in_task i) seq}"
  using do_perf_event_accepted(3,4) [OF assms] walk_lua_stack_key sample_native_key
  by (auto simp: output_keys_def split: if_splits option.splits)

section \<open>Runs\<close>

definition samples_of :: "config \<Rightarrow> u32 \<Rightarrow> bpf_action list \<Rightarrow> nat" where
  "samples_of cfg t xs = length (filter (\<lambda>x. sampled_tid cfg x = Some t) xs)"

definition sampled_tids :: "config \<Rightarrow> bpf_action list \<Rightarrow> u32 set" where
  "sampled_tids cfg xs = {t. \<exists>x \<in> set xs. sampled_tid cfg x = Some t}"

lemma samples_of_simps [simp]:
  "samples_of cfg t [] = 0"
  "samples_of cfg t (x # xs) =
     (if sampled_tid cfg x = Some t then Suc (samples_of cfg t xs) else samples_of cfg t xs)"
  by (simp_all add: samples_of_def)

lemma samples_of_append: "samples_of cfg t (xs @ ys) = samples_of cfg t xs + samples_of cfg t ys"
  by (simp add: samples_of_def)

text \<open>The key the \<open>n\<close>-th sample of its thread gets, as the set of keys a step may output.\<close>

definition step_keys :: "config \<Rightarrow> bpf_action \<Rightarrow> (u32 \<Rightarrow> nat) \<Rightarrow> sample_key set" where
  "step_keys cfg x c =
     (case x of
        Probe e \<Rightarrow> {}
      | Sample i \<Rightarrow> if accepted cfg (in_task i)
                   then {sample_key_of (in_task i) (of_nat (Suc (c (tid_of (in_task i)))))} else {})"

lemma step_keys_tid:
  assumes "k \<in> step_keys cfg x c"
  shows "sampled_tid cfg x = Some (sk_tid k) \<and> sk_seq k = of_nat (Suc (c (sk_tid k))) \<and>
         step_keys cfg x c = {k}"
  using assms
  by (auto simp: step_keys_def sampled_tid_def sample_key_of_def split: bpf_action.splits if_splits)

context seq_numbers
begin

lemma bpf_step_counts:
  assumes "seq_ops h = ops" and "invar (seq_map st)" and "counts_samples ops (seq_map st) c"
    and "\<And>t. sampled_tid cfg x = Some t \<Longrightarrow> has_room ops cap (seq_map st) t"
    and "bpf_step cfg arch h x st = (st', out)"
  shows "output_keys out \<subseteq> step_keys cfg x c \<and> invar (seq_map st') \<and>
         counts_samples ops (seq_map st')
           (\<lambda>t. if sampled_tid cfg x = Some t then Suc (c t) else c t)"
proof (cases x)
  case (Probe e)
  with assms show ?thesis by (auto simp: step_keys_def sampled_tid_def)
next
  case (Sample i)
  show ?thesis
  proof (cases "accepted cfg (in_task i)")
    case False
    with Sample assms show ?thesis
      by (auto simp: do_perf_event_rejected step_keys_def sampled_tid_def)
  next
    case True
    let ?t = "tid_of (in_task i)"
    have t: "sampled_tid cfg x = Some ?t" using Sample True by (simp add: sampled_tid_def)
    obtain seqs seq where s: "next_seq (seq_ops h) ?t (seq_map st) = (seqs, seq)" by fastforce
    have n: "seq = of_nat (Suc (c ?t)) \<and> invar seqs \<and> counts_samples ops seqs (c(?t := Suc (c ?t)))"
      using next_seq_counts [OF assms(2,3) assms(4) [OF t]] s assms(1) by blast
    have run: "do_perf_event cfg arch h i st = (st', out)" using assms(5) Sample by simp
    have "(\<lambda>t. if sampled_tid cfg x = Some t then Suc (c t) else c t) = c(?t := Suc (c ?t))"
      using t by auto
    with n do_perf_event_keys [OF True s run] do_perf_event_accepted(1) [OF True s run] Sample True
    show ?thesis by (simp add: step_keys_def)
  qed
qed

lemma counts_dom: "counts_samples ops q c \<Longrightarrow> dom (map_lookup ops q) = {t. 0 < c t}"
  by (auto simp: counts_samples_def dom_def)

lemma bpf_run_keys:
  assumes "seq_ops h = ops" and "invar (seq_map st)" and "counts_samples ops (seq_map st) c"
    and "{t. 0 < c t} \<union> sampled_tids cfg xs \<subseteq> T" and "card T \<le> cap"
    and "bpf_run cfg arch h xs st = (st', outs)"
  shows "length outs = length xs \<and>
         (\<forall>j < length xs. output_keys (outs ! j) \<subseteq>
            step_keys cfg (xs ! j) (\<lambda>t. c t + samples_of cfg t (take j xs)))"
  using assms(2,3,4,6)
proof (induction xs arbitrary: st c outs)
  case Nil
  then show ?case by simp
next
  case (Cons x xs)
  obtain st1 out where step: "bpf_step cfg arch h x st = (st1, out)" by fastforce
  obtain outs' where rest: "bpf_run cfg arch h xs st1 = (st', outs')" and outs: "outs = out # outs'"
    using Cons.prems(4) step by (auto split: prod.splits)
  let ?c = "\<lambda>t. if sampled_tid cfg x = Some t then Suc (c t) else c t"
  have room: "has_room ops cap (seq_map st) t" if "sampled_tid cfg x = Some t" for t
    using Cons.prems(2,3) that assms(5)
    by (intro has_room_within [where T = T]) (auto simp: counts_dom sampled_tids_def)
  note one = bpf_step_counts [OF assms(1) Cons.prems(1,2) room step]
  have "{t. 0 < ?c t} \<union> sampled_tids cfg xs \<subseteq> T"
    using Cons.prems(3) by (auto simp: sampled_tids_def split: if_splits)
  with Cons.IH [OF _ _ _ rest, of ?c] one
  have IH: "length outs' = length xs \<and>
      (\<forall>j < length xs. output_keys (outs' ! j) \<subseteq>
         step_keys cfg (xs ! j) (\<lambda>t. ?c t + samples_of cfg t (take j xs)))"
    by blast
  have shift: "(\<lambda>t. ?c t + samples_of cfg t (take j xs)) =
      (\<lambda>t. c t + samples_of cfg t (take (Suc j) (x # xs)))" for j
    by auto
  show ?case
  proof (intro conjI allI impI)
    show "length outs = length (x # xs)" using IH outs by simp
    fix j assume "j < length (x # xs)"
    then show "output_keys (outs ! j) \<subseteq>
        step_keys cfg ((x # xs) ! j) (\<lambda>t. c t + samples_of cfg t (take j (x # xs)))"
      using IH one outs shift by (cases j) auto
  qed
qed

end

lemma samples_before:
  assumes "j < k" and "k < length xs" and "sampled_tid cfg (xs ! j) = Some t"
  shows "samples_of cfg t (take j xs) < samples_of cfg t (take k xs)"
proof -
  have "take k xs = take j xs @ xs ! j # drop (Suc j) (take k xs)"
    using assms(1,2) id_take_nth_drop [of j "take k xs"] by simp
  then show ?thesis using assms(3) by (metis samples_of_append samples_of_simps(2) add_Suc_right
      less_add_Suc1)
qed

lemma samples_of_take: "samples_of cfg t (take k xs) \<le> samples_of cfg t xs"
  by (metis append_take_drop_id le_add1 samples_of_append)

text \<open>Different steps have different keys, as long as no thread's number wraps around.\<close>

lemma step_keys_disjoint:
  assumes "\<forall>t. samples_of cfg t xs < 2 ^ 32" and "j < k" and "k < length xs"
  shows "step_keys cfg (xs ! j) (\<lambda>t. samples_of cfg t (take j xs)) \<inter>
         step_keys cfg (xs ! k) (\<lambda>t. samples_of cfg t (take k xs)) = {}"
proof (rule ccontr)
  let ?keys = "\<lambda>j. step_keys cfg (xs ! j) (\<lambda>t. samples_of cfg t (take j xs))"
  assume "?keys j \<inter> ?keys k \<noteq> {}"
  then obtain key where key: "key \<in> ?keys j" "key \<in> ?keys k" by blast
  let ?t = "sk_tid key"
  have "sampled_tid cfg (xs ! j) = Some ?t" using step_keys_tid key(1) by blast
  from samples_before [OF assms(2,3) this]
  have lt: "Suc (samples_of cfg ?t (take j xs)) < Suc (samples_of cfg ?t (take k xs))" by simp
  have "sampled_tid cfg (xs ! k) = Some ?t" using step_keys_tid key(2) by blast
  then have "samples_of cfg ?t (take (Suc k) xs) = Suc (samples_of cfg ?t (take k xs))"
    using assms(3) by (simp add: take_Suc_conv_app_nth samples_of_append)
  then have small: "Suc (samples_of cfg ?t (take k xs)) < 2 ^ LENGTH(32)"
    using samples_of_take [of cfg ?t "Suc k" xs] assms(1) [rule_format, of ?t] by simp
  have "(of_nat (Suc (samples_of cfg ?t (take j xs))) :: u32) =
      of_nat (Suc (samples_of cfg ?t (take k xs)))"
    using step_keys_tid [OF key(1)] step_keys_tid [OF key(2)] by metis
  from of_nat_word_inj [OF this less_trans [OF lt small] small] lt show False by simp
qed

lemma run_output_keys:
  assumes "hash_map (seq_ops h) MAX_ENTRIES invar" and "invar (seq_map st)"
    and "map_lookup (seq_ops h) (seq_map st) = Map.empty"
    and "card (sampled_tids cfg xs) \<le> MAX_ENTRIES"
    and "bpf_run cfg arch h xs st = (st', outs)"
  shows "length outs = length xs"
    and "j < length xs \<Longrightarrow>
      output_keys (outs ! j) \<subseteq> step_keys cfg (xs ! j) (\<lambda>t. samples_of cfg t (take j xs))"
  using seq_numbers.bpf_run_keys [of "seq_ops h" MAX_ENTRIES invar h st "\<lambda>t. 0" cfg xs
      "sampled_tids cfg xs" arch st' outs] assms
  by (auto simp: seq_numbers_def counts_samples_def)

section \<open>Properties\<close>

text \<open>
  C6. Samples are correlated by key and never confused: in every run with at most \<open>MAX_ENTRIES\<close>
  sampled threads and fewer than 2^32 samples of a thread, all events of one step, native and Lua,
  carry the same key, and no two steps output events with the same key.
\<close>

theorem sample_keys_unique:
  assumes "hash_map (seq_ops h) MAX_ENTRIES invar" and "invar (seq_map st)"
    and "map_lookup (seq_ops h) (seq_map st) = Map.empty"
    and "card (sampled_tids cfg xs) \<le> MAX_ENTRIES"
    and "\<forall>t. samples_of cfg t xs < 2 ^ 32"
    and "bpf_run cfg arch h xs st = (st', outs)"
  shows "length outs = length xs \<and>
         (\<forall>j < length xs. card (output_keys (outs ! j)) \<le> 1) \<and>
         (\<forall>j k. j < k \<and> k < length xs \<longrightarrow> output_keys (outs ! j) \<inter> output_keys (outs ! k) = {})"
proof -
  let ?keys = "\<lambda>j. step_keys cfg (xs ! j) (\<lambda>t. samples_of cfg t (take j xs))"
  note run = run_output_keys [OF assms(1-4,6)]
  have one: "card (output_keys (outs ! j)) \<le> 1" if "j < length xs" for j
  proof -
    have "finite (?keys j)" and "card (?keys j) \<le> 1"
      by (auto simp: step_keys_def split: bpf_action.split)
    with run(2) that show ?thesis by (meson card_mono order_trans)
  qed
  have "output_keys (outs ! j) \<inter> output_keys (outs ! k) = {}" if "j < k" "k < length xs" for j k
    using run(2) [of j] run(2) [of k] step_keys_disjoint [OF assms(5) that] that by fastforce
  with one run(1) show ?thesis by blast
qed

text \<open>A first state, and a run of two samples of thread 7 of process 3.\<close>

definition initial_state :: "((u32 \<times> lua_state_slot) list, (u32 \<times> u32) list) bpf_state" where
  "initial_state =
     \<lparr>lua_states = [], seq_map = [], native_buf = (\<lambda>cpu. Some default_native),
      lua_event_buf = (\<lambda>cpu. Some default_lua)\<rparr>"

definition alist_helpers :: "((u32 \<times> lua_state_slot) list, (u32 \<times> u32) list) bpf_helpers" where
  "alist_helpers = \<lparr>states_ops = alist_ops MAX_ENTRIES, seq_ops = alist_ops MAX_ENTRIES\<rparr>"

definition example_sample :: sample_input where
  "example_sample =
     \<lparr>in_cpu = 0, in_task = pid_tgid 3 7, in_regs = example_regs 0, in_get_stack = (16, [0x401000, 0x402000]),
      in_mem = (\<lambda>a. None), in_read = probe_cells [], in_read_str = (\<lambda>a n. [])\<rparr>"

lemma example_sample_law [simp]: "sample_law example_sample"
  by (simp add: sample_law_def example_sample_def str_probe_law_def PERF_MAX_STACK_DEPTH_def reads_from_def
      probe_cells_def)

lemma sample_keys_unique_witness:
  "let outs = snd (bpf_run default_config X86_64 alist_helpers [Sample example_sample, Sample example_sample]
                 initial_state)
   in length outs = 2 \<and> output_keys (outs ! 0) \<inter> output_keys (outs ! 1) = {}"
proof -
  let ?xs = "[Sample example_sample, Sample example_sample]"
  have tids: "sampled_tids default_config ?xs = {7}"
    by (auto simp: sampled_tids_def sampled_tid_def example_sample_def accepted_def default_config_def
        pid_filtered_def pid_tgid_def)
  obtain st' outs where run: "bpf_run default_config X86_64 alist_helpers ?xs initial_state = (st', outs)"
    by fastforce
  have h: "hash_map (seq_ops alist_helpers) MAX_ENTRIES (alist_invar MAX_ENTRIES)"
    by (simp add: alist_helpers_def alist_hash_map)
  from sample_keys_unique [OF h _ _ _ _ run] tids run show ?thesis
    by (simp add: initial_state_def alist_helpers_def MAX_ENTRIES_def)
qed

text \<open>
  When the sequence map is full the correlation breaks: a thread it has no entry for gets the
  number 1 for every sample, so two consecutive samples carry the same key.
\<close>

theorem full_seq_map_repeats_keys:
  assumes "hash_map ops cap invar" and "invar q" and "\<not> has_room ops cap q tid"
  shows "case next_seq ops tid q of (q1, seq1) \<Rightarrow> case next_seq ops tid q1 of (q2, seq2) \<Rightarrow>
           seq1 = 1 \<and> seq2 = 1"
proof -
  obtain q1 seq1 where 1: "next_seq ops tid q = (q1, seq1)" by fastforce
  obtain q2 seq2 where 2: "next_seq ops tid q1 = (q2, seq2)" by fastforce
  have s: "seq_numbers ops cap invar" using assms(1) by (simp add: seq_numbers_def)
  have f: "seq1 = 1 \<and> map_lookup ops q1 = map_lookup ops q"
    using seq_numbers.next_seq_full [OF s assms(2,3) 1] .
  then have "\<not> has_room ops cap q1 tid" using assms(3) by (simp add: has_room_def entries_def)
  moreover have "invar q1"
    using 1 hash_map.invar_update [OF assms(1,2)] by (auto simp: next_seq_def Let_def)
  ultimately have "seq2 = 1" using seq_numbers.next_seq_full [OF s _ _ 2] by blast
  with f show ?thesis by (simp add: 1 2)
qed

lemma full_seq_map_repeats_keys_witness:
  "case next_seq (alist_ops 1) 9 [(8, 5)] of (q1, seq1) \<Rightarrow> case next_seq (alist_ops 1) 9 q1 of
     (q2, seq2) \<Rightarrow> seq1 = 1 \<and> seq2 = 1"
  by (rule full_seq_map_repeats_keys [OF alist_hash_map])
     (simp_all add: alist_invar_def has_room_def entries_alist)

text \<open>
  A sample that the filters reject (the idle task, another process, another thread than the
  target) leaves the program's state alone and outputs nothing; an accepted one never touches the
  tracked states.
\<close>

theorem sample_filters:
  "(\<not> accepted cfg (in_task i) \<longrightarrow> do_perf_event cfg arch h i st = (st, no_output)) \<and>
   lua_states (fst (do_perf_event cfg arch h i st)) = lua_states st"
proof (cases "accepted cfg (in_task i)")
  case True
  obtain st' out seqs seq where "do_perf_event cfg arch h i st = (st', out)"
      "next_seq (seq_ops h) (tid_of (in_task i)) (seq_map st) = (seqs, seq)"
    by (metis surj_pair)
  with do_perf_event_accepted(2) [OF True] True show ?thesis by fastforce
qed (simp add: do_perf_event_rejected)

lemma sample_filters_witness:
  "do_perf_event (default_config\<lparr>targ_pid := 4\<rparr>) X86_64 alist_helpers example_sample initial_state
     = (initial_state, no_output)"
proof -
  have "\<not> accepted (default_config\<lparr>targ_pid := 4\<rparr>) (in_task example_sample)"
    by (simp add: accepted_def pid_filtered_def default_config_def example_sample_def pid_tgid_def)
  then show ?thesis using sample_filters by blast
qed

section \<open>Reachable states\<close>

text \<open>The states the program can reach when every sample's helpers behave as documented.\<close>

inductive bpf_reachable ::
    "config \<Rightarrow> arch \<Rightarrow> ('s, 'q) bpf_helpers \<Rightarrow> ('s, 'q) bpf_state \<Rightarrow> ('s, 'q) bpf_state \<Rightarrow> bool"
    for cfg arch h st0 where
  reach_start: "bpf_reachable cfg arch h st0 st0"
| reach_step:
    "bpf_reachable cfg arch h st0 st \<Longrightarrow> (\<And>i. x = Sample i \<Longrightarrow> sample_law i) \<Longrightarrow>
     bpf_step cfg arch h x st = (st', out) \<Longrightarrow> bpf_reachable cfg arch h st0 st'"

definition buffers_ok :: "('s, 'q) bpf_state \<Rightarrow> bool" where
  "buffers_ok st \<longleftrightarrow> (\<forall>cpu e. native_buf st cpu = Some e \<longrightarrow> wf_native e) \<and>
                    (\<forall>cpu e. lua_event_buf st cpu = Some e \<longrightarrow> wf_lua e)"

lemma unat_ip_cnt:
  assumes "n \<le> 8 * int PERF_MAX_STACK_DEPTH"
  shows "unat (if n > 0 then of_int (n div 8) else 0 :: u32) \<le> PERF_MAX_STACK_DEPTH"
proof (cases "n > 0")
  case True
  then obtain m where m: "n div 8 = int m" by (metis nonneg_int_cases pos_imp_zdiv_nonneg_iff
      zero_less_numeral less_imp_le)
  then have "m \<le> 32" using assms by (simp add: PERF_MAX_STACK_DEPTH_def)
  then have "unat (of_nat m :: u32) = m" by (simp add: unat_of_nat take_bit_nat_eq_self)
  then show ?thesis using True m \<open>m \<le> 32\<close> by (simp add: PERF_MAX_STACK_DEPTH_def)
qed simp

lemma sample_native_spec:
  assumes "sample_law i" and "wf_native ne0"
    and "sample_native cfg arch i key ne0 = (ne, sz)"
  shows "wf_native ne \<and> unat (ne_ip_cnt ne) \<le> PERF_MAX_STACK_DEPTH \<and>
         unat (ne_stack_len ne) \<le> USER_STACK_SNAPSHOT_SIZE \<and>
         mem_range (in_mem i) (ne_sp ne) (unat (ne_stack_len ne)) =
           Some (take (unat (ne_stack_len ne)) (ne_stack ne)) \<and>
         (collect_native_stacks cfg \<or> ne_stack_len ne = 0) \<and>
         sz = (if collect_native_stacks cfg then sizeof native_event_t
                 else offsetof native_event_t ''stack'')"
proof -
  obtain n ips where gs: "in_get_stack i = (n, ips)" by fastforce
  have ips: "length (overlay ips (ne_ips ne0)) = PERF_MAX_STACK_DEPTH"
    using assms(1,2) gs by (simp add: length_overlay sample_law_def wf_native_def)
  have cnt: "unat (if n > 0 then of_int (n div 8) else 0 :: u32) \<le> PERF_MAX_STACK_DEPTH"
    using assms(1) gs by (intro unat_ip_cnt) (simp add: sample_law_def)
  obtain stack len where snap: "read_user_stack_snapshot (in_read i) (PT_REGS_SP (in_regs i)) (ne_stack ne0)
      = (stack, len)" by fastforce
  have law: "probe_law (in_read i)" "reads_from (in_read i) (in_mem i)"
    using assms(1) by (simp_all add: sample_law_def)
  have l0: "length (ne_stack ne0) = USER_STACK_SNAPSHOT_SIZE" using assms(2) by (simp add: wf_native_def)
  note S = snapshot_spec [OF law l0 snap]
  have len: "unat (of_nat len :: u32) = len"
    using S by (simp add: unat_of_nat take_bit_nat_eq_self USER_STACK_SNAPSHOT_SIZE_def)
  let ?ne1 = "ne0\<lparr>ne_key := key, ne_stack_len := 0, ne_ip := 0, ne_sp := 0, ne_fp := 0, ne_lr := 0,
      ne_ips := overlay ips (ne_ips ne0), ne_ip_cnt := (if n > 0 then of_int (n div 8) else 0)\<rparr>"
  consider (off) "\<not> collect_native_stacks cfg"
    | (nosp) "collect_native_stacks cfg" "PT_REGS_SP (in_regs i) = 0"
    | (sp) "collect_native_stacks cfg" "PT_REGS_SP (in_regs i) \<noteq> 0" by blast
  then show ?thesis
  proof cases
    case off
    then have "ne = ?ne1 \<and> sz = offsetof native_event_t ''stack''"
      using assms(3) gs by (simp add: sample_native_def Let_def)
    with off ips cnt l0 show ?thesis by (simp add: wf_native_def)
  next
    case nosp
    then have "ne = ?ne1\<lparr>ne_ip := PT_REGS_IP (in_regs i), ne_fp := PT_REGS_FP (in_regs i),
        ne_lr := (case arch of Aarch64 \<Rightarrow> PT_REGS_RET (in_regs i) | X86_64 \<Rightarrow> 0)\<rparr> \<and>
        sz = sizeof native_event_t"
      using assms(3) gs by (auto simp: sample_native_def Let_def)
    with nosp ips cnt l0 show ?thesis by (simp add: wf_native_def)
  next
    case sp
    then have "ne = ?ne1\<lparr>ne_ip := PT_REGS_IP (in_regs i), ne_sp := PT_REGS_SP (in_regs i),
        ne_fp := PT_REGS_FP (in_regs i),
        ne_lr := (case arch of Aarch64 \<Rightarrow> PT_REGS_RET (in_regs i) | X86_64 \<Rightarrow> 0),
        ne_stack := stack, ne_stack_len := of_nat len\<rparr> \<and> sz = sizeof native_event_t"
      using assms(3) gs snap by (simp add: sample_native_def Let_def)
    with sp ips cnt S len show ?thesis by (simp add: wf_native_def)
  qed
qed

lemma walk_loop_wf:
  assumes "str_probe_law rdstr" and "\<And>e. w_buf s = Some e \<Longrightarrow> wf_lua e"
  shows "w_buf (walk_loop n rd rdstr env s) = Some e \<Longrightarrow> wf_lua e"
  using assms(2)
proof (induction n arbitrary: s)
  case 0
  then show ?case by simp
next
  case (Suc n)
  have emit: "wf_lua e" if "w_buf (walk_emit rd rdstr env s) = Some e" for e
    using that emit_lua_wf [OF _ assms(1) Suc.prems(2)]
    by (auto simp: walk_emit_def split: prod.splits)
  have body: "wf_lua e" if "w_buf (fst (walk_body rd rdstr env s)) = Some e" for e
    using that emit Suc.prems(2) by (auto simp: walk_body_eq visit_def split: if_splits option.splits)
  obtain s' go where b: "walk_body rd rdstr env s = (s', go)" by fastforce
  with body have s': "\<And>e. w_buf s' = Some e \<Longrightarrow> wf_lua e" by simp
  from Suc.prems(1) b have "w_buf (if go then walk_loop n rd rdstr env s' else s') = Some e" by simp
  with Suc.IH [of s'] s' show ?case by (cases go) auto
qed

lemma walk_lua_stack_wf:
  assumes "str_probe_law rdstr" and "\<And>e. buf = Some e \<Longrightarrow> wf_lua e"
    and "fst (walk_lua_stack rd rdstr ops states key buf) = Some e"
  shows "wf_lua e"
proof (cases "map_lookup ops states (sk_tid key)")
  case None
  with assms show ?thesis by (simp add: walk_lua_stack_def)
next
  case (Some slot)
  show ?thesis
  proof (cases "slot_ptr slot = 0 \<or> walk_start rd (slot_ptr slot) key = None")
    case True
    with Some assms show ?thesis by (auto simp: walk_lua_stack_def split: if_splits)
  next
    case False
    then obtain env f where "walk_start rd (slot_ptr slot) key = Some (env, f)" by auto
    with False Some assms(3) have "w_buf (walk_loop MAX_LUA_DEPTH rd rdstr env
        \<lparr>w_frame = f, w_prev = 0, w_out = 0, w_buf = buf, w_events = []\<rparr>) = Some e"
      by (simp add: walk_lua_stack_def Let_def)
    from walk_loop_wf [OF assms(1) _ this] assms(2) show ?thesis by simp
  qed
qed

lemma sample_lua_part_buffers:
  assumes "sample_law i" and "buffers_ok st" and "sample_lua_part cfg ops i key st = (st', lua)"
  shows "buffers_ok st'"
proof -
  have "wf_lua e" if "fst (walk_lua_stack (in_read i) (in_read_str i) ops (lua_states st) key
      (lua_event_buf st (in_cpu i))) = Some e" for e
    by (rule walk_lua_stack_wf [OF _ _ that]) (use assms in \<open>auto simp: sample_law_def buffers_ok_def\<close>)
  with assms(2,3) show ?thesis
    by (auto simp: sample_lua_part_def buffers_ok_def split: if_splits prod.splits)
qed

lemma sample_native_part_buffers:
  assumes "sample_law i" and "buffers_ok st" and "sample_native_part cfg arch i key st = (st', native)"
  shows "buffers_ok st'"
proof -
  have "wf_native ne" if "native_buf st (in_cpu i) = Some ne0" "sample_native cfg arch i key ne0 = (ne, sz)"
    for ne0 ne sz
    using sample_native_spec [OF assms(1) _ that(2)] that(1) assms(2)
    by (auto simp: buffers_ok_def)
  with assms(2,3) show ?thesis
    by (auto simp: sample_native_part_def buffers_ok_def split: if_splits prod.splits option.splits)
qed

lemma bpf_step_buffers:
  assumes "\<And>i. x = Sample i \<Longrightarrow> sample_law i" and "buffers_ok st"
    and "bpf_step cfg arch h x st = (st', out)"
  shows "buffers_ok st'"
proof (cases x)
  case (Probe e)
  with assms show ?thesis by (auto simp: buffers_ok_def)
next
  case (Sample i)
  show ?thesis
  proof (cases "accepted cfg (in_task i)")
    case False
    with Sample assms show ?thesis by (simp add: do_perf_event_rejected)
  next
    case True
    obtain seqs seq where s: "next_seq (seq_ops h) (tid_of (in_task i)) (seq_map st) = (seqs, seq)"
      by fastforce
    let ?key = "sample_key_of (in_task i) seq"
    obtain st1 native where n: "sample_native_part cfg arch i ?key (st\<lparr>seq_map := seqs\<rparr>) = (st1, native)"
      by fastforce
    obtain st2 lua where l: "sample_lua_part cfg (states_ops h) i ?key st1 = (st2, lua)" by fastforce
    have "st' = st2"
      using do_perf_event_parts [OF True s n l] assms(3) Sample by simp
    moreover have "buffers_ok (st\<lparr>seq_map := seqs\<rparr>)" using assms(2) by (simp add: buffers_ok_def)
    ultimately show ?thesis
      using sample_native_part_buffers [OF _ _ n] sample_lua_part_buffers [OF _ _ l] assms(1) Sample
      by blast
  qed
qed

lemma reachable_buffers:
  "bpf_reachable cfg arch h st0 st \<Longrightarrow> buffers_ok st0 \<Longrightarrow> buffers_ok st"
  by (induction rule: bpf_reachable.induct) (auto intro: bpf_step_buffers)

text \<open>
  C13. Every native event output from a reachable state is sound: its arrays have the declared
  lengths, the counts stay within them, the snapshot bytes are the target's stack memory, and it is
  output whole or, without native collection, as the prefix before the snapshot.
\<close>

theorem native_events_sound:
  assumes "bpf_reachable cfg arch h st0 st" and "buffers_ok st0" and "sample_law i"
    and "(ne, sz) \<in> set (native_events (snd (do_perf_event cfg arch h i st)))"
  shows "wf_native ne \<and> unat (ne_ip_cnt ne) \<le> PERF_MAX_STACK_DEPTH \<and>
         unat (ne_stack_len ne) \<le> USER_STACK_SNAPSHOT_SIZE \<and>
         mem_range (in_mem i) (ne_sp ne) (unat (ne_stack_len ne)) =
           Some (take (unat (ne_stack_len ne)) (ne_stack ne)) \<and>
         (collect_native_stacks cfg \<or> ne_stack_len ne = 0) \<and>
         sz = (if collect_native_stacks cfg then sizeof native_event_t
               else offsetof native_event_t ''stack'')"
proof (cases "accepted cfg (in_task i)")
  case False
  with assms(4) show ?thesis by (simp add: do_perf_event_rejected no_output_def)
next
  case True
  obtain st' out seqs seq where r: "do_perf_event cfg arch h i st = (st', out)"
    and s: "next_seq (seq_ops h) (tid_of (in_task i)) (seq_map st) = (seqs, seq)"
    by (metis surj_pair)
  from do_perf_event_accepted(4) [OF True s r] r assms(4) obtain ne0 where
    "native_buf st (in_cpu i) = Some ne0"
    "sample_native cfg arch i (sample_key_of (in_task i) seq) ne0 = (ne, sz)"
    by (auto split: if_splits option.splits)
  moreover from reachable_buffers [OF assms(1,2)] have "buffers_ok st" .
  ultimately show ?thesis
    using sample_native_spec [OF assms(3)] by (metis buffers_ok_def)
qed

lemma native_events_sound_witness:
  "list_all (\<lambda>(ne, sz). wf_native ne \<and> ne_stack_len ne = 0 \<and> sz = 312)
     (native_events (snd (do_perf_event default_config X86_64 alist_helpers example_sample
       initial_state)))"
proof -
  have ok: "buffers_ok initial_state" by (simp add: buffers_ok_def initial_state_def)
  show ?thesis
    using native_events_sound [OF bpf_reachable.reach_start ok example_sample_law,
        of _ _ default_config X86_64 alist_helpers]
    by (auto simp: default_config_def native_event_layout list_all_iff)
qed

fun probes_of :: "bpf_action list \<Rightarrow> lua_probe list" where
  "probes_of [] = []"
| "probes_of (Probe e # xs) = e # probes_of xs"
| "probes_of (Sample i # xs) = probes_of xs"

lemma probes_of_append: "probes_of (xs @ ys) = probes_of xs @ probes_of ys"
  by (induction xs rule: probes_of.induct) auto

lemma do_perf_event_states: "lua_states (fst (do_perf_event cfg arch h i st)) = lua_states st"
proof (cases "accepted cfg (in_task i)")
  case True
  obtain st' out seqs seq where "do_perf_event cfg arch h i st = (st', out)"
      "next_seq (seq_ops h) (tid_of (in_task i)) (seq_map st) = (seqs, seq)"
    by (metis surj_pair)
  with do_perf_event_accepted(2) [OF True] show ?thesis by fastforce
qed (simp add: do_perf_event_rejected)

lemma bpf_run_states:
  "lua_states (fst (bpf_run cfg arch h xs st)) =
     probe_run cfg arch (states_ops h) (probes_of xs) (lua_states st)"
proof (induction xs arbitrary: st)
  case Nil
  then show ?case by simp
next
  case (Cons x xs)
  then show ?case
    by (cases x) (simp_all add: case_prod_beta Let_def do_perf_event_states)
qed

text \<open>
  C18. Sampling and tracking do not interfere: after any run of the whole program from empty maps,
  with samples and probes of at most \<open>MAX_ENTRIES\<close> threads interleaved in any order, the tracked state
  of a thread still represents the open calls its probes have made.
\<close>

theorem program_tracks_open_calls:
  assumes "hash_map (states_ops h) MAX_ENTRIES invar" and "invar (lua_states st)"
    and "map_lookup (states_ops h) (lua_states st) = Map.empty"
    and "card ((\<lambda>e. tid_of (probe_id e)) ` set (probes_of xs)) < MAX_ENTRIES"
    and "spec_peak cfg arch tid (probes_of xs) no_calls \<le> 0xffff"
  shows "represents (map_lookup (states_ops h) (lua_states (fst (bpf_run cfg arch h xs st))) tid)
           (spec_run cfg arch tid (probes_of xs) no_calls)"
  unfolding bpf_run_states using assms by (intro probe_run_from_empty)

lemma program_tracks_open_calls_witness:
  "represents (map_lookup (alist_ops MAX_ENTRIES) (lua_states (fst (bpf_run default_config X86_64 alist_helpers
      [Probe (Entry 7 (example_regs 0x5000)), Sample example_sample] initial_state))) 7)
     \<lparr>calls = 1, last_entered = 0x5000\<rparr>"
proof -
  let ?xs = "[Probe (Entry 7 (example_regs 0x5000)), Sample example_sample]"
  have h: "hash_map (states_ops alist_helpers) MAX_ENTRIES (alist_invar MAX_ENTRIES)"
    by (simp add: alist_helpers_def alist_hash_map)
  have "spec_run default_config X86_64 7 (probes_of ?xs) no_calls = \<lparr>calls = 1, last_entered = 0x5000\<rparr>"
    by (simp add: tracker_eval no_calls_def)
  then show ?thesis
    using program_tracks_open_calls [OF h, of initial_state ?xs default_config X86_64 7]
    by (simp add: initial_state_def alist_helpers_def MAX_ENTRIES_def no_calls_def tracker_eval)
qed

end
