(* ===== verification/KernelPerf.thy ===== *)
theory KernelPerf
  imports CLayout
begin

text \<open>
  The kernel's types of the perf interface, as the vmlinux.h the program is compiled against
  declares them: the registers and the context a perf-event program is handed, the attribute
  record of \<open>perf_event_open\<close>, and the event, its contexts, its ring buffer and its samples. Each
  definition is one declaration, with the members in order; typedefs of scalars and enums are
  resolved to their size, function pointers are pointers.
\<close>

definition struct_pt_regs :: ctype where
  "struct_pt_regs = CStruct [
    Member ''r15'' (CInt 8), Member ''r14'' (CInt 8), Member ''r13'' (CInt 8),
    Member ''r12'' (CInt 8), Member ''bp'' (CInt 8), Member ''bx'' (CInt 8),
    Member ''r11'' (CInt 8), Member ''r10'' (CInt 8), Member ''r9'' (CInt 8),
    Member ''r8'' (CInt 8), Member ''ax'' (CInt 8), Member ''cx'' (CInt 8),
    Member ''dx'' (CInt 8), Member ''si'' (CInt 8), Member ''di'' (CInt 8),
    Member ''orig_ax'' (CInt 8), Member ''ip'' (CInt 8), Member ''cs'' (CInt 8),
    Member ''flags'' (CInt 8), Member ''sp'' (CInt 8), Member ''ss'' (CInt 8)]"

definition struct_bpf_perf_event_data :: ctype where
  "struct_bpf_perf_event_data = CStruct [
    Member ''regs'' struct_pt_regs, Member ''sample_period'' (CInt 8), Member ''addr'' (CInt 8)]"

definition struct_bpf_perf_event_data_kern :: ctype where
  "struct_bpf_perf_event_data_kern = CStruct [
    Member ''regs'' CPtr, Member ''data'' CPtr, Member ''event'' CPtr]"

definition struct_perf_event_attr :: ctype where
  "struct_perf_event_attr = CStruct [
    Member ''type'' (CInt 4), Member ''size'' (CInt 4), Member ''config'' (CInt 8),
    Anon (CUnion [
      Member ''sample_period'' (CInt 8), Member ''sample_freq'' (CInt 8)]),
    Member ''sample_type'' (CInt 8), Member ''read_format'' (CInt 8), Bits ''disabled'' 8 1,
    Bits ''inherit'' 8 1, Bits ''pinned'' 8 1, Bits ''exclusive'' 8 1, Bits ''exclude_user'' 8 1,
    Bits ''exclude_kernel'' 8 1, Bits ''exclude_hv'' 8 1, Bits ''exclude_idle'' 8 1,
    Bits ''mmap'' 8 1, Bits ''comm'' 8 1, Bits ''freq'' 8 1, Bits ''inherit_stat'' 8 1,
    Bits ''enable_on_exec'' 8 1, Bits ''task'' 8 1, Bits ''watermark'' 8 1,
    Bits ''precise_ip'' 8 2, Bits ''mmap_data'' 8 1, Bits ''sample_id_all'' 8 1,
    Bits ''exclude_host'' 8 1, Bits ''exclude_guest'' 8 1, Bits ''exclude_callchain_kernel'' 8 1,
    Bits ''exclude_callchain_user'' 8 1, Bits ''mmap2'' 8 1, Bits ''comm_exec'' 8 1,
    Bits ''use_clockid'' 8 1, Bits ''context_switch'' 8 1, Bits ''write_backward'' 8 1,
    Bits ''namespaces'' 8 1, Bits ''ksymbol'' 8 1, Bits ''bpf_event'' 8 1,
    Bits ''aux_output'' 8 1, Bits ''cgroup'' 8 1, Bits ''__reserved_1'' 8 31,
    Anon (CUnion [
      Member ''wakeup_events'' (CInt 4), Member ''wakeup_watermark'' (CInt 4)]),
    Member ''bp_type'' (CInt 4),
    Anon (CUnion [
      Member ''bp_addr'' (CInt 8), Member ''kprobe_func'' (CInt 8),
      Member ''uprobe_path'' (CInt 8), Member ''config1'' (CInt 8)]),
    Anon (CUnion [
      Member ''bp_len'' (CInt 8), Member ''kprobe_addr'' (CInt 8),
      Member ''probe_offset'' (CInt 8), Member ''config2'' (CInt 8)]),
    Member ''branch_sample_type'' (CInt 8), Member ''sample_regs_user'' (CInt 8),
    Member ''sample_stack_user'' (CInt 4), Member ''clockid'' (CInt 4),
    Member ''sample_regs_intr'' (CInt 8), Member ''aux_watermark'' (CInt 4),
    Member ''sample_max_stack'' (CInt 2), Member ''__reserved_2'' (CInt 2),
    Member ''aux_sample_size'' (CInt 4), Member ''__reserved_3'' (CInt 4)]"

definition union_perf_mem_data_src :: ctype where
  "union_perf_mem_data_src = CUnion [
    Member ''val'' (CInt 8),
    Anon (CStruct [
      Bits ''mem_op'' 8 5, Bits ''mem_lvl'' 8 14, Bits ''mem_snoop'' 8 5, Bits ''mem_lock'' 8 2,
      Bits ''mem_dtlb'' 8 7, Bits ''mem_lvl_num'' 8 4, Bits ''mem_remote'' 8 1,
      Bits ''mem_snoopx'' 8 2, Bits ''mem_rsvd'' 8 24])]"

definition struct_perf_regs :: ctype where
  "struct_perf_regs = CStruct [
    Member ''abi'' (CInt 8), Member ''regs'' CPtr]"

definition struct_perf_sample_data :: ctype where
  "struct_perf_sample_data = CStruct [
    Member ''addr'' (CInt 8), Member ''raw'' CPtr, Member ''br_stack'' CPtr,
    Member ''period'' (CInt 8), Member ''weight'' (CInt 8), Member ''txn'' (CInt 8),
    Member ''data_src'' union_perf_mem_data_src, Member ''type'' (CInt 8), Member ''ip'' (CInt 8),
    Member ''tid_entry'' (CStruct [
      Member ''pid'' (CInt 4), Member ''tid'' (CInt 4)]),
    Member ''time'' (CInt 8), Member ''id'' (CInt 8), Member ''stream_id'' (CInt 8),
    Member ''cpu_entry'' (CStruct [
      Member ''cpu'' (CInt 4), Member ''reserved'' (CInt 4)]),
    Member ''callchain'' CPtr, Member ''aux_size'' (CInt 8),
    Member ''regs_user'' struct_perf_regs, Member ''regs_user_copy'' struct_pt_regs,
    Member ''regs_intr'' struct_perf_regs, Member ''stack_user_size'' (CInt 8),
    Member ''phys_addr'' (CInt 8), Member ''cgroup'' (CInt 8), Bits '''' 8 64, Bits '''' 8 64,
    Bits '''' 8 64, Bits '''' 8 64]"

definition struct_list_head :: ctype where
  "struct_list_head = CStruct [
    Member ''next'' CPtr, Member ''prev'' CPtr]"

definition struct_rb_node :: ctype where
  "struct_rb_node = CStruct [
    Member ''__rb_parent_color'' (CInt 8), Member ''rb_right'' CPtr, Member ''rb_left'' CPtr]"

definition struct_hlist_node :: ctype where
  "struct_hlist_node = CStruct [
    Member ''next'' CPtr, Member ''pprev'' CPtr]"

definition typedef_atomic64_t :: ctype where
  "typedef_atomic64_t = CStruct [
    Member ''counter'' (CInt 8)]"

definition typedef_local_t :: ctype where
  "typedef_local_t = CStruct [
    Member ''a'' typedef_atomic64_t]"

definition typedef_local64_t :: ctype where
  "typedef_local64_t = CStruct [
    Member ''a'' typedef_local_t]"

definition struct_hw_perf_event_extra :: ctype where
  "struct_hw_perf_event_extra = CStruct [
    Member ''config'' (CInt 8), Member ''reg'' (CInt 4), Member ''alloc'' (CInt 4),
    Member ''idx'' (CInt 4)]"

definition struct_timerqueue_node :: ctype where
  "struct_timerqueue_node = CStruct [
    Member ''node'' struct_rb_node, Member ''expires'' (CInt 8)]"

definition struct_hrtimer :: ctype where
  "struct_hrtimer = CStruct [
    Member ''node'' struct_timerqueue_node, Member ''_softexpires'' (CInt 8),
    Member ''function'' CPtr, Member ''base'' CPtr, Member ''state'' (CInt 1),
    Member ''is_rel'' (CInt 1), Member ''is_soft'' (CInt 1), Member ''is_hard'' (CInt 1)]"

definition struct_arch_hw_breakpoint :: ctype where
  "struct_arch_hw_breakpoint = CStruct [
    Member ''address'' (CInt 8), Member ''mask'' (CInt 8), Member ''len'' (CInt 1),
    Member ''type'' (CInt 1)]"

definition struct_hw_perf_event :: ctype where
  "struct_hw_perf_event = CStruct [
    Anon (CUnion [
      Anon (CStruct [
        Member ''config'' (CInt 8), Member ''last_tag'' (CInt 8), Member ''config_base'' (CInt 8),
        Member ''event_base'' (CInt 8), Member ''event_base_rdpmc'' (CInt 4),
        Member ''idx'' (CInt 4), Member ''last_cpu'' (CInt 4), Member ''flags'' (CInt 4),
        Member ''extra_reg'' struct_hw_perf_event_extra,
        Member ''branch_reg'' struct_hw_perf_event_extra]),
      Anon (CStruct [
        Member ''hrtimer'' struct_hrtimer]),
      Anon (CStruct [
        Member ''tp_list'' struct_list_head]),
      Anon (CStruct [
        Member ''pwr_acc'' (CInt 8), Member ''ptsc'' (CInt 8)]),
      Anon (CStruct [
        Member ''info'' struct_arch_hw_breakpoint, Member ''bp_list'' struct_list_head]),
      Anon (CStruct [
        Member ''iommu_bank'' (CInt 1), Member ''iommu_cntr'' (CInt 1),
        Member ''padding'' (CInt 2), Member ''conf'' (CInt 8), Member ''conf1'' (CInt 8)])]),
    Member ''target'' CPtr, Member ''addr_filters'' CPtr, Member ''addr_filters_gen'' (CInt 8),
    Member ''state'' (CInt 4), Member ''prev_count'' typedef_local64_t,
    Member ''sample_period'' (CInt 8), Member ''last_period'' (CInt 8),
    Member ''period_left'' typedef_local64_t, Member ''interrupts_seq'' (CInt 8),
    Member ''interrupts'' (CInt 8), Member ''freq_time_stamp'' (CInt 8),
    Member ''freq_count_stamp'' (CInt 8)]"

definition typedef_atomic_t :: ctype where
  "typedef_atomic_t = CStruct [
    Member ''counter'' (CInt 4)]"

definition struct_qspinlock :: ctype where
  "struct_qspinlock = CStruct [
    Anon (CUnion [
      Member ''val'' typedef_atomic_t,
      Anon (CStruct [
        Member ''locked'' (CInt 1), Member ''pending'' (CInt 1)]),
      Anon (CStruct [
        Member ''locked_pending'' (CInt 2), Member ''tail'' (CInt 2)])])]"

definition struct_raw_spinlock :: ctype where
  "struct_raw_spinlock = CStruct [
    Member ''raw_lock'' struct_qspinlock]"

definition struct_spinlock :: ctype where
  "struct_spinlock = CStruct [
    Anon (CUnion [
      Member ''rlock'' struct_raw_spinlock])]"

definition struct_optimistic_spin_queue :: ctype where
  "struct_optimistic_spin_queue = CStruct [
    Member ''tail'' typedef_atomic_t]"

definition struct_mutex :: ctype where
  "struct_mutex = CStruct [
    Member ''owner'' typedef_atomic64_t, Member ''wait_lock'' struct_spinlock,
    Member ''osq'' struct_optimistic_spin_queue, Member ''wait_list'' struct_list_head]"

definition struct_wait_queue_head :: ctype where
  "struct_wait_queue_head = CStruct [
    Member ''lock'' struct_spinlock, Member ''head'' struct_list_head]"

definition struct_llist_node :: ctype where
  "struct_llist_node = CStruct [
    Member ''next'' CPtr]"

definition struct___call_single_node :: ctype where
  "struct___call_single_node = CStruct [
    Member ''llist'' struct_llist_node,
    Anon (CUnion [
      Member ''u_flags'' (CInt 4), Member ''a_flags'' typedef_atomic_t])]"

definition struct_irq_work :: ctype where
  "struct_irq_work = CStruct [
    Anon (CUnion [
      Member ''node'' struct___call_single_node,
      Anon (CStruct [
        Member ''llnode'' struct_llist_node, Member ''flags'' typedef_atomic_t])]),
    Member ''func'' CPtr]"

definition struct_perf_addr_filters_head :: ctype where
  "struct_perf_addr_filters_head = CStruct [
    Member ''list'' struct_list_head, Member ''lock'' struct_raw_spinlock,
    Member ''nr_file_filters'' (CInt 4)]"

definition struct_callback_head :: ctype where
  "struct_callback_head = CStruct [
    Member ''next'' CPtr, Member ''func'' CPtr]"

definition struct_perf_event :: ctype where
  "struct_perf_event = CStruct [
    Member ''event_entry'' struct_list_head, Member ''sibling_list'' struct_list_head,
    Member ''active_list'' struct_list_head, Member ''group_node'' struct_rb_node,
    Member ''group_index'' (CInt 8), Member ''migrate_entry'' struct_list_head,
    Member ''hlist_entry'' struct_hlist_node, Member ''active_entry'' struct_list_head,
    Member ''nr_siblings'' (CInt 4), Member ''event_caps'' (CInt 4),
    Member ''group_caps'' (CInt 4), Member ''group_leader'' CPtr, Member ''pmu'' CPtr,
    Member ''pmu_private'' CPtr, Member ''state'' (CInt 4), Member ''attach_state'' (CInt 4),
    Member ''count'' typedef_local64_t, Member ''child_count'' typedef_atomic64_t,
    Member ''total_time_enabled'' (CInt 8), Member ''total_time_running'' (CInt 8),
    Member ''tstamp'' (CInt 8), Member ''shadow_ctx_time'' (CInt 8),
    Member ''attr'' struct_perf_event_attr, Member ''header_size'' (CInt 2),
    Member ''id_header_size'' (CInt 2), Member ''read_size'' (CInt 2),
    Member ''hw'' struct_hw_perf_event, Member ''ctx'' CPtr,
    Member ''refcount'' typedef_atomic64_t,
    Member ''child_total_time_enabled'' typedef_atomic64_t,
    Member ''child_total_time_running'' typedef_atomic64_t, Member ''child_mutex'' struct_mutex,
    Member ''child_list'' struct_list_head, Member ''parent'' CPtr, Member ''oncpu'' (CInt 4),
    Member ''cpu'' (CInt 4), Member ''owner_entry'' struct_list_head, Member ''owner'' CPtr,
    Member ''mmap_mutex'' struct_mutex, Member ''mmap_count'' typedef_atomic_t,
    Member ''rb'' CPtr, Member ''rb_entry'' struct_list_head, Member ''rcu_batches'' (CInt 8),
    Member ''rcu_pending'' (CInt 4), Member ''waitq'' struct_wait_queue_head,
    Member ''fasync'' CPtr, Member ''pending_wakeup'' (CInt 4), Member ''pending_kill'' (CInt 4),
    Member ''pending_disable'' (CInt 4), Member ''pending'' struct_irq_work,
    Member ''event_limit'' typedef_atomic_t,
    Member ''addr_filters'' struct_perf_addr_filters_head, Member ''addr_filter_ranges'' CPtr,
    Member ''addr_filters_gen'' (CInt 8), Member ''aux_event'' CPtr, Member ''destroy'' CPtr,
    Member ''callback_head'' struct_callback_head, Member ''ns'' CPtr, Member ''id'' (CInt 8),
    Member ''clock'' CPtr, Member ''overflow_handler'' CPtr,
    Member ''overflow_handler_context'' CPtr, Member ''orig_overflow_handler'' CPtr,
    Member ''prog'' CPtr, Member ''tp_event'' CPtr, Member ''filter'' CPtr,
    Member ''security'' CPtr, Member ''sb_list'' struct_list_head]"

definition struct_pmu :: ctype where
  "struct_pmu = CStruct [
    Member ''entry'' struct_list_head, Member ''module'' CPtr, Member ''dev'' CPtr,
    Member ''attr_groups'' CPtr, Member ''attr_update'' CPtr, Member ''name'' CPtr,
    Member ''type'' (CInt 4), Member ''capabilities'' (CInt 4), Member ''pmu_disable_count'' CPtr,
    Member ''pmu_cpu_context'' CPtr, Member ''exclusive_cnt'' typedef_atomic_t,
    Member ''task_ctx_nr'' (CInt 4), Member ''hrtimer_interval_ms'' (CInt 4),
    Member ''nr_addr_filters'' (CInt 4), Member ''pmu_enable'' CPtr, Member ''pmu_disable'' CPtr,
    Member ''event_init'' CPtr, Member ''event_mapped'' CPtr, Member ''event_unmapped'' CPtr,
    Member ''add'' CPtr, Member ''del'' CPtr, Member ''start'' CPtr, Member ''stop'' CPtr,
    Member ''read'' CPtr, Member ''start_txn'' CPtr, Member ''commit_txn'' CPtr,
    Member ''cancel_txn'' CPtr, Member ''event_idx'' CPtr, Member ''sched_task'' CPtr,
    Member ''task_ctx_size'' (CInt 8), Member ''swap_task_ctx'' CPtr, Member ''setup_aux'' CPtr,
    Member ''free_aux'' CPtr, Member ''snapshot_aux'' CPtr, Member ''addr_filters_validate'' CPtr,
    Member ''addr_filters_sync'' CPtr, Member ''aux_output_match'' CPtr,
    Member ''filter_match'' CPtr, Member ''check_period'' CPtr]"

definition struct_rb_root :: ctype where
  "struct_rb_root = CStruct [
    Member ''rb_node'' CPtr]"

definition struct_perf_event_groups :: ctype where
  "struct_perf_event_groups = CStruct [
    Member ''tree'' struct_rb_root, Member ''index'' (CInt 8)]"

definition struct_refcount_struct :: ctype where
  "struct_refcount_struct = CStruct [
    Member ''refs'' typedef_atomic_t]"

definition struct_perf_event_context :: ctype where
  "struct_perf_event_context = CStruct [
    Member ''pmu'' CPtr, Member ''lock'' struct_raw_spinlock, Member ''mutex'' struct_mutex,
    Member ''active_ctx_list'' struct_list_head,
    Member ''pinned_groups'' struct_perf_event_groups,
    Member ''flexible_groups'' struct_perf_event_groups, Member ''event_list'' struct_list_head,
    Member ''pinned_active'' struct_list_head, Member ''flexible_active'' struct_list_head,
    Member ''nr_events'' (CInt 4), Member ''nr_active'' (CInt 4), Member ''is_active'' (CInt 4),
    Member ''nr_stat'' (CInt 4), Member ''nr_freq'' (CInt 4), Member ''rotate_disable'' (CInt 4),
    Member ''rotate_necessary'' (CInt 4), Member ''refcount'' struct_refcount_struct,
    Member ''task'' CPtr, Member ''time'' (CInt 8), Member ''timestamp'' (CInt 8),
    Member ''parent_ctx'' CPtr, Member ''parent_gen'' (CInt 8), Member ''generation'' (CInt 8),
    Member ''pin_count'' (CInt 4), Member ''task_ctx_data'' CPtr,
    Member ''callback_head'' struct_callback_head]"

definition struct_perf_cpu_context :: ctype where
  "struct_perf_cpu_context = CStruct [
    Member ''ctx'' struct_perf_event_context, Member ''task_ctx'' CPtr,
    Member ''active_oncpu'' (CInt 4), Member ''exclusive'' (CInt 4),
    Member ''hrtimer_lock'' struct_raw_spinlock, Member ''hrtimer'' struct_hrtimer,
    Member ''hrtimer_interval'' (CInt 8), Member ''hrtimer_active'' (CInt 4),
    Member ''sched_cb_entry'' struct_list_head, Member ''sched_cb_usage'' (CInt 4),
    Member ''online'' (CInt 4), Member ''heap_size'' (CInt 4), Member ''heap'' CPtr,
    Member ''heap_default'' (CArr 2 CPtr)]"

definition struct_perf_buffer :: ctype where
  "struct_perf_buffer = CStruct [
    Member ''refcount'' struct_refcount_struct, Member ''callback_head'' struct_callback_head,
    Member ''nr_pages'' (CInt 4), Member ''overwrite'' (CInt 4), Member ''paused'' (CInt 4),
    Member ''poll'' typedef_atomic_t, Member ''head'' typedef_local_t, Member ''nest'' (CInt 4),
    Member ''events'' typedef_local_t, Member ''wakeup'' typedef_local_t,
    Member ''lost'' typedef_local_t, Member ''watermark'' (CInt 8),
    Member ''aux_watermark'' (CInt 8), Member ''event_lock'' struct_spinlock,
    Member ''event_list'' struct_list_head, Member ''mmap_count'' typedef_atomic_t,
    Member ''mmap_locked'' (CInt 8), Member ''mmap_user'' CPtr, Member ''aux_head'' (CInt 8),
    Member ''aux_nest'' (CInt 4), Member ''aux_wakeup'' (CInt 8), Member ''aux_pgoff'' (CInt 8),
    Member ''aux_nr_pages'' (CInt 4), Member ''aux_overwrite'' (CInt 4),
    Member ''aux_mmap_count'' typedef_atomic_t, Member ''aux_mmap_locked'' (CInt 8),
    Member ''free_aux'' CPtr, Member ''aux_refcount'' struct_refcount_struct,
    Member ''aux_in_sampling'' (CInt 4), Member ''aux_pages'' CPtr, Member ''aux_priv'' CPtr,
    Member ''user_page'' CPtr, Member ''data_pages'' (CArr 0 CPtr)]"

definition struct_perf_event_mmap_page :: ctype where
  "struct_perf_event_mmap_page = CStruct [
    Member ''version'' (CInt 4), Member ''compat_version'' (CInt 4), Member ''lock'' (CInt 4),
    Member ''index'' (CInt 4), Member ''offset'' (CInt 8), Member ''time_enabled'' (CInt 8),
    Member ''time_running'' (CInt 8),
    Anon (CUnion [
      Member ''capabilities'' (CInt 8),
      Anon (CStruct [
        Bits ''cap_bit0'' 8 1, Bits ''cap_bit0_is_deprecated'' 8 1, Bits ''cap_user_rdpmc'' 8 1,
        Bits ''cap_user_time'' 8 1, Bits ''cap_user_time_zero'' 8 1, Bits ''cap_____res'' 8 59])]),
    Member ''pmc_width'' (CInt 2), Member ''time_shift'' (CInt 2), Member ''time_mult'' (CInt 4),
    Member ''time_offset'' (CInt 8), Member ''time_zero'' (CInt 8), Member ''size'' (CInt 4),
    Member ''__reserved'' (CArr 948 (CInt 1)), Member ''data_head'' (CInt 8),
    Member ''data_tail'' (CInt 8), Member ''data_offset'' (CInt 8), Member ''data_size'' (CInt 8),
    Member ''aux_head'' (CInt 8), Member ''aux_tail'' (CInt 8), Member ''aux_offset'' (CInt 8),
    Member ''aux_size'' (CInt 8)]"

definition struct_perf_output_handle :: ctype where
  "struct_perf_output_handle = CStruct [
    Member ''event'' CPtr, Member ''rb'' CPtr, Member ''wakeup'' (CInt 8),
    Member ''size'' (CInt 8), Member ''aux_flags'' (CInt 8),
    Anon (CUnion [
      Member ''addr'' CPtr, Member ''head'' (CInt 8)]),
    Member ''page'' (CInt 4)]"

definition struct_perf_event_header :: ctype where
  "struct_perf_event_header = CStruct [
    Member ''type'' (CInt 4), Member ''misc'' (CInt 2), Member ''size'' (CInt 2)]"

definition struct_perf_callchain_entry :: ctype where
  "struct_perf_callchain_entry = CStruct [
    Member ''nr'' (CInt 8), Member ''ip'' (CArr 0 (CInt 8))]"

definition struct_perf_callchain_entry_ctx :: ctype where
  "struct_perf_callchain_entry_ctx = CStruct [
    Member ''entry'' CPtr, Member ''max_stack'' (CInt 4), Member ''nr'' (CInt 4),
    Member ''contexts'' (CInt 2), Member ''contexts_maxed'' (CInt 1)]"

definition struct_perf_branch_entry :: ctype where
  "struct_perf_branch_entry = CStruct [
    Member ''from'' (CInt 8), Member ''to'' (CInt 8), Bits ''mispred'' 8 1,
    Bits ''predicted'' 8 1, Bits ''in_tx'' 8 1, Bits ''abort'' 8 1, Bits ''cycles'' 8 16,
    Bits ''type'' 8 4, Bits ''reserved'' 8 40]"

definition struct_perf_branch_stack :: ctype where
  "struct_perf_branch_stack = CStruct [
    Member ''nr'' (CInt 8), Member ''hw_idx'' (CInt 8),
    Member ''entries'' (CArr 0 struct_perf_branch_entry)]"

definition struct_path :: ctype where
  "struct_path = CStruct [
    Member ''mnt'' CPtr, Member ''dentry'' CPtr]"

definition struct_perf_addr_filter :: ctype where
  "struct_perf_addr_filter = CStruct [
    Member ''entry'' struct_list_head, Member ''path'' struct_path, Member ''offset'' (CInt 8),
    Member ''size'' (CInt 8), Member ''action'' (CInt 4)]"

definition struct_perf_guest_info_callbacks :: ctype where
  "struct_perf_guest_info_callbacks = CStruct [
    Member ''is_in_guest'' CPtr, Member ''is_user_mode'' CPtr, Member ''get_guest_ip'' CPtr,
    Member ''handle_intel_pt_intr'' CPtr]"

text \<open>The declarations of this theory.\<close>

lemmas kernel_perf_defs =
  struct_pt_regs_def
  struct_bpf_perf_event_data_def
  struct_bpf_perf_event_data_kern_def
  struct_perf_event_attr_def
  union_perf_mem_data_src_def
  struct_perf_regs_def
  struct_perf_sample_data_def
  struct_list_head_def
  struct_rb_node_def
  struct_hlist_node_def
  typedef_atomic64_t_def
  typedef_local_t_def
  typedef_local64_t_def
  struct_hw_perf_event_extra_def
  struct_timerqueue_node_def
  struct_hrtimer_def
  struct_arch_hw_breakpoint_def
  struct_hw_perf_event_def
  typedef_atomic_t_def
  struct_qspinlock_def
  struct_raw_spinlock_def
  struct_spinlock_def
  struct_optimistic_spin_queue_def
  struct_mutex_def
  struct_wait_queue_head_def
  struct_llist_node_def
  struct___call_single_node_def
  struct_irq_work_def
  struct_perf_addr_filters_head_def
  struct_callback_head_def
  struct_perf_event_def
  struct_pmu_def
  struct_rb_root_def
  struct_perf_event_groups_def
  struct_refcount_struct_def
  struct_perf_event_context_def
  struct_perf_cpu_context_def
  struct_perf_buffer_def
  struct_perf_event_mmap_page_def
  struct_perf_output_handle_def
  struct_perf_event_header_def
  struct_perf_callchain_entry_def
  struct_perf_callchain_entry_ctx_def
  struct_perf_branch_entry_def
  struct_perf_branch_stack_def
  struct_path_def
  struct_perf_addr_filter_def
  struct_perf_guest_info_callbacks_def

definition kernel_perf_types :: "ctype list" where
  "kernel_perf_types = [
    struct_pt_regs,
    struct_bpf_perf_event_data,
    struct_bpf_perf_event_data_kern,
    struct_perf_event_attr,
    union_perf_mem_data_src,
    struct_perf_regs,
    struct_perf_sample_data,
    struct_list_head,
    struct_rb_node,
    struct_hlist_node,
    typedef_atomic64_t,
    typedef_local_t,
    typedef_local64_t,
    struct_hw_perf_event_extra,
    struct_timerqueue_node,
    struct_hrtimer,
    struct_arch_hw_breakpoint,
    struct_hw_perf_event,
    typedef_atomic_t,
    struct_qspinlock,
    struct_raw_spinlock,
    struct_spinlock,
    struct_optimistic_spin_queue,
    struct_mutex,
    struct_wait_queue_head,
    struct_llist_node,
    struct___call_single_node,
    struct_irq_work,
    struct_perf_addr_filters_head,
    struct_callback_head,
    struct_perf_event,
    struct_pmu,
    struct_rb_root,
    struct_perf_event_groups,
    struct_refcount_struct,
    struct_perf_event_context,
    struct_perf_cpu_context,
    struct_perf_buffer,
    struct_perf_event_mmap_page,
    struct_perf_output_handle,
    struct_perf_event_header,
    struct_perf_callchain_entry,
    struct_perf_callchain_entry_ctx,
    struct_perf_branch_entry,
    struct_perf_branch_stack,
    struct_path,
    struct_perf_addr_filter,
    struct_perf_guest_info_callbacks]"


end
