(* ===== verification/KernelBpf.thy ===== *)
theory KernelBpf
  imports KernelPerf
begin

text \<open>
  The kernel's types of the BPF subsystem in vmlinux.h: the attribute union of the \<open>bpf\<close> system
  call the loader fills, instructions, maps (the array and the hash table the program's maps
  are), programs and their auxiliary data, links, the verifier's state and the type information.
\<close>

definition union_bpf_attr :: ctype where
  "union_bpf_attr = CUnion [
    Anon (CStruct [
      Member ''map_type'' (CInt 4), Member ''key_size'' (CInt 4), Member ''value_size'' (CInt 4),
      Member ''max_entries'' (CInt 4), Member ''map_flags'' (CInt 4),
      Member ''inner_map_fd'' (CInt 4), Member ''numa_node'' (CInt 4),
      Member ''map_name'' (CArr 16 (CInt 1)), Member ''map_ifindex'' (CInt 4),
      Member ''btf_fd'' (CInt 4), Member ''btf_key_type_id'' (CInt 4),
      Member ''btf_value_type_id'' (CInt 4), Member ''btf_vmlinux_value_type_id'' (CInt 4)]),
    Anon (CStruct [
      Member ''map_fd'' (CInt 4), Member ''key'' (CInt 8),
      Anon (CUnion [
        Member ''value'' (CInt 8), Member ''next_key'' (CInt 8)]),
      Member ''flags'' (CInt 8)]),
    Member ''batch'' (CStruct [
      Member ''in_batch'' (CInt 8), Member ''out_batch'' (CInt 8), Member ''keys'' (CInt 8),
      Member ''values'' (CInt 8), Member ''count'' (CInt 4), Member ''map_fd'' (CInt 4),
      Member ''elem_flags'' (CInt 8), Member ''flags'' (CInt 8)]),
    Anon (CStruct [
      Member ''prog_type'' (CInt 4), Member ''insn_cnt'' (CInt 4), Member ''insns'' (CInt 8),
      Member ''license'' (CInt 8), Member ''log_level'' (CInt 4), Member ''log_size'' (CInt 4),
      Member ''log_buf'' (CInt 8), Member ''kern_version'' (CInt 4),
      Member ''prog_flags'' (CInt 4), Member ''prog_name'' (CArr 16 (CInt 1)),
      Member ''prog_ifindex'' (CInt 4), Member ''expected_attach_type'' (CInt 4),
      Member ''prog_btf_fd'' (CInt 4), Member ''func_info_rec_size'' (CInt 4),
      Member ''func_info'' (CInt 8), Member ''func_info_cnt'' (CInt 4),
      Member ''line_info_rec_size'' (CInt 4), Member ''line_info'' (CInt 8),
      Member ''line_info_cnt'' (CInt 4), Member ''attach_btf_id'' (CInt 4),
      Member ''attach_prog_fd'' (CInt 4)]),
    Anon (CStruct [
      Member ''pathname'' (CInt 8), Member ''bpf_fd'' (CInt 4), Member ''file_flags'' (CInt 4)]),
    Anon (CStruct [
      Member ''target_fd'' (CInt 4), Member ''attach_bpf_fd'' (CInt 4),
      Member ''attach_type'' (CInt 4), Member ''attach_flags'' (CInt 4),
      Member ''replace_bpf_fd'' (CInt 4)]),
    Member ''test'' (CStruct [
      Member ''prog_fd'' (CInt 4), Member ''retval'' (CInt 4), Member ''data_size_in'' (CInt 4),
      Member ''data_size_out'' (CInt 4), Member ''data_in'' (CInt 8),
      Member ''data_out'' (CInt 8), Member ''repeat'' (CInt 4), Member ''duration'' (CInt 4),
      Member ''ctx_size_in'' (CInt 4), Member ''ctx_size_out'' (CInt 4),
      Member ''ctx_in'' (CInt 8), Member ''ctx_out'' (CInt 8)]),
    Anon (CStruct [
      Anon (CUnion [
        Member ''start_id'' (CInt 4), Member ''prog_id'' (CInt 4), Member ''map_id'' (CInt 4),
        Member ''btf_id'' (CInt 4), Member ''link_id'' (CInt 4)]),
      Member ''next_id'' (CInt 4), Member ''open_flags'' (CInt 4)]),
    Member ''info'' (CStruct [
      Member ''bpf_fd'' (CInt 4), Member ''info_len'' (CInt 4), Member ''info'' (CInt 8)]),
    Member ''query'' (CStruct [
      Member ''target_fd'' (CInt 4), Member ''attach_type'' (CInt 4),
      Member ''query_flags'' (CInt 4), Member ''attach_flags'' (CInt 4),
      Member ''prog_ids'' (CInt 8), Member ''prog_cnt'' (CInt 4)]),
    Member ''raw_tracepoint'' (CStruct [
      Member ''name'' (CInt 8), Member ''prog_fd'' (CInt 4)]),
    Anon (CStruct [
      Member ''btf'' (CInt 8), Member ''btf_log_buf'' (CInt 8), Member ''btf_size'' (CInt 4),
      Member ''btf_log_size'' (CInt 4), Member ''btf_log_level'' (CInt 4)]),
    Member ''task_fd_query'' (CStruct [
      Member ''pid'' (CInt 4), Member ''fd'' (CInt 4), Member ''flags'' (CInt 4),
      Member ''buf_len'' (CInt 4), Member ''buf'' (CInt 8), Member ''prog_id'' (CInt 4),
      Member ''fd_type'' (CInt 4), Member ''probe_offset'' (CInt 8),
      Member ''probe_addr'' (CInt 8)]),
    Member ''link_create'' (CStruct [
      Member ''prog_fd'' (CInt 4), Member ''target_fd'' (CInt 4), Member ''attach_type'' (CInt 4),
      Member ''flags'' (CInt 4)]),
    Member ''link_update'' (CStruct [
      Member ''link_fd'' (CInt 4), Member ''new_prog_fd'' (CInt 4), Member ''flags'' (CInt 4),
      Member ''old_prog_fd'' (CInt 4)]),
    Member ''enable_stats'' (CStruct [
      Member ''type'' (CInt 4)]),
    Member ''iter_create'' (CStruct [
      Member ''link_fd'' (CInt 4), Member ''flags'' (CInt 4)])]"

definition struct_bpf_insn :: ctype where
  "struct_bpf_insn = CStruct [
    Member ''code'' (CInt 1), Bits ''dst_reg'' 1 4, Bits ''src_reg'' 1 4, Member ''off'' (CInt 2),
    Member ''imm'' (CInt 4)]"

definition struct_bpf_map_memory :: ctype where
  "struct_bpf_map_memory = CStruct [
    Member ''pages'' (CInt 4), Member ''user'' CPtr]"

definition struct_work_struct :: ctype where
  "struct_work_struct = CStruct [
    Member ''data'' typedef_atomic64_t, Member ''entry'' struct_list_head, Member ''func'' CPtr]"

definition struct_bpf_map :: ctype where
  "struct_bpf_map = CStruct [
    Member ''ops'' CPtr, Member ''inner_map_meta'' CPtr, Member ''security'' CPtr,
    Member ''map_type'' (CInt 4), Member ''key_size'' (CInt 4), Member ''value_size'' (CInt 4),
    Member ''max_entries'' (CInt 4), Member ''map_flags'' (CInt 4),
    Member ''spin_lock_off'' (CInt 4), Member ''id'' (CInt 4), Member ''numa_node'' (CInt 4),
    Member ''btf_key_type_id'' (CInt 4), Member ''btf_value_type_id'' (CInt 4),
    Member ''btf'' CPtr, Member ''memory'' struct_bpf_map_memory,
    Member ''name'' (CArr 16 (CInt 1)), Member ''btf_vmlinux_value_type_id'' (CInt 4),
    Member ''bypass_spec_v1'' (CInt 1), Member ''frozen'' (CInt 1), Bits '''' 8 16,
    Bits '''' 8 64, Bits '''' 8 64, Member ''refcnt'' typedef_atomic64_t,
    Member ''usercnt'' typedef_atomic64_t, Member ''work'' struct_work_struct,
    Member ''freeze_mutex'' struct_mutex, Member ''writecnt'' (CInt 8), Bits '''' 8 64,
    Bits '''' 8 64, Bits '''' 8 64, Bits '''' 8 64, Bits '''' 8 64]"

definition struct_bpf_map_ops :: ctype where
  "struct_bpf_map_ops = CStruct [
    Member ''map_alloc_check'' CPtr, Member ''map_alloc'' CPtr, Member ''map_release'' CPtr,
    Member ''map_free'' CPtr, Member ''map_get_next_key'' CPtr, Member ''map_release_uref'' CPtr,
    Member ''map_lookup_elem_sys_only'' CPtr, Member ''map_lookup_batch'' CPtr,
    Member ''map_lookup_and_delete_batch'' CPtr, Member ''map_update_batch'' CPtr,
    Member ''map_delete_batch'' CPtr, Member ''map_lookup_elem'' CPtr,
    Member ''map_update_elem'' CPtr, Member ''map_delete_elem'' CPtr,
    Member ''map_push_elem'' CPtr, Member ''map_pop_elem'' CPtr, Member ''map_peek_elem'' CPtr,
    Member ''map_fd_get_ptr'' CPtr, Member ''map_fd_put_ptr'' CPtr,
    Member ''map_gen_lookup'' CPtr, Member ''map_fd_sys_lookup_elem'' CPtr,
    Member ''map_seq_show_elem'' CPtr, Member ''map_check_btf'' CPtr,
    Member ''map_poke_track'' CPtr, Member ''map_poke_untrack'' CPtr,
    Member ''map_poke_run'' CPtr, Member ''map_direct_value_addr'' CPtr,
    Member ''map_direct_value_meta'' CPtr, Member ''map_mmap'' CPtr, Member ''map_poll'' CPtr]"

definition struct_bpf_array :: ctype where
  "struct_bpf_array = CStruct [
    Member ''map'' struct_bpf_map, Member ''elem_size'' (CInt 4), Member ''index_mask'' (CInt 4),
    Member ''aux'' CPtr,
    Anon (CUnion [
      Member ''value'' (CArr 0 (CInt 1)), Member ''ptrs'' (CArr 0 CPtr),
      Member ''pptrs'' (CArr 0 CPtr)]),
    Bits '''' 8 64, Bits '''' 8 64, Bits '''' 8 64, Bits '''' 8 64, Bits '''' 8 64, Bits '''' 8 64]"

definition struct_pcpu_freelist :: ctype where
  "struct_pcpu_freelist = CStruct [
    Member ''freelist'' CPtr]"

definition struct_bpf_lru_list :: ctype where
  "struct_bpf_lru_list = CStruct [
    Member ''lists'' (CArr 3 struct_list_head), Member ''counts'' (CArr 2 (CInt 4)),
    Member ''next_inactive_rotation'' CPtr, Member ''lock'' struct_raw_spinlock, Bits '''' 8 32,
    Bits '''' 8 64, Bits '''' 8 64, Bits '''' 8 64, Bits '''' 8 64, Bits '''' 8 64,
    Bits '''' 8 64, Bits '''' 8 64]"

definition struct_bpf_common_lru :: ctype where
  "struct_bpf_common_lru = CStruct [
    Member ''lru_list'' struct_bpf_lru_list, Member ''local_list'' CPtr, Bits '''' 8 64,
    Bits '''' 8 64, Bits '''' 8 64, Bits '''' 8 64, Bits '''' 8 64, Bits '''' 8 64, Bits '''' 8 64]"

definition struct_bpf_lru :: ctype where
  "struct_bpf_lru = CStruct [
    Anon (CUnion [
      Member ''common_lru'' struct_bpf_common_lru, Member ''percpu_lru'' CPtr]),
    Member ''del_from_htab'' CPtr, Member ''del_arg'' CPtr, Member ''hash_offset'' (CInt 4),
    Member ''nr_scans'' (CInt 4), Member ''percpu'' (CInt 1), Bits '''' 8 56, Bits '''' 8 64,
    Bits '''' 8 64, Bits '''' 8 64, Bits '''' 8 64]"

definition struct_bpf_htab :: ctype where
  "struct_bpf_htab = CStruct [
    Member ''map'' struct_bpf_map, Member ''buckets'' CPtr, Member ''elems'' CPtr, Bits '''' 8 64,
    Bits '''' 8 64, Bits '''' 8 64, Bits '''' 8 64, Bits '''' 8 64, Bits '''' 8 64,
    Anon (CUnion [
      Member ''freelist'' struct_pcpu_freelist, Member ''lru'' struct_bpf_lru]),
    Member ''extra_elems'' CPtr, Member ''count'' typedef_atomic_t, Member ''n_buckets'' (CInt 4),
    Member ''elem_size'' (CInt 4), Member ''hashrnd'' (CInt 4), Bits '''' 8 64, Bits '''' 8 64,
    Bits '''' 8 64, Bits '''' 8 64, Bits '''' 8 64]"

definition struct_hlist_nulls_node :: ctype where
  "struct_hlist_nulls_node = CStruct [
    Member ''next'' CPtr, Member ''pprev'' CPtr]"

definition struct_pcpu_freelist_node :: ctype where
  "struct_pcpu_freelist_node = CStruct [
    Member ''next'' CPtr]"

definition struct_bpf_lru_node :: ctype where
  "struct_bpf_lru_node = CStruct [
    Member ''list'' struct_list_head, Member ''cpu'' (CInt 2), Member ''type'' (CInt 1),
    Member ''ref'' (CInt 1)]"

definition struct_htab_elem :: ctype where
  "struct_htab_elem = CStruct [
    Anon (CUnion [
      Member ''hash_node'' struct_hlist_nulls_node,
      Anon (CStruct [
        Member ''padding'' CPtr,
        Anon (CUnion [
          Member ''htab'' CPtr, Member ''fnode'' struct_pcpu_freelist_node,
          Member ''batch_flink'' CPtr])])]),
    Anon (CUnion [
      Member ''rcu'' struct_callback_head, Member ''lru_node'' struct_bpf_lru_node]),
    Member ''hash'' (CInt 4), Bits '''' 4 32, Member ''key'' (CArr 0 (CInt 1))]"

definition struct_hlist_nulls_head :: ctype where
  "struct_hlist_nulls_head = CStruct [
    Member ''first'' CPtr]"

definition struct_bucket :: ctype where
  "struct_bucket = CStruct [
    Member ''head'' struct_hlist_nulls_head,
    Anon (CUnion [
      Member ''raw_lock'' struct_raw_spinlock, Member ''lock'' struct_spinlock])]"

definition struct_sock_filter :: ctype where
  "struct_sock_filter = CStruct [
    Member ''code'' (CInt 2), Member ''jt'' (CInt 1), Member ''jf'' (CInt 1),
    Member ''k'' (CInt 4)]"

definition struct_bpf_prog :: ctype where
  "struct_bpf_prog = CStruct [
    Member ''pages'' (CInt 2), Bits ''jited'' 2 1, Bits ''jit_requested'' 2 1,
    Bits ''gpl_compatible'' 2 1, Bits ''cb_access'' 2 1, Bits ''dst_needed'' 2 1,
    Bits ''blinded'' 2 1, Bits ''is_func'' 2 1, Bits ''kprobe_override'' 2 1,
    Bits ''has_callchain_buf'' 2 1, Bits ''enforce_expected_attach_type'' 2 1,
    Member ''type'' (CInt 4), Member ''expected_attach_type'' (CInt 4), Member ''len'' (CInt 4),
    Member ''jited_len'' (CInt 4), Member ''tag'' (CArr 8 (CInt 1)), Member ''aux'' CPtr,
    Member ''orig_prog'' CPtr, Member ''bpf_func'' CPtr,
    Member ''insns'' (CArr 0 struct_sock_filter), Member ''insnsi'' (CArr 0 struct_bpf_insn)]"

definition struct_latch_tree_node :: ctype where
  "struct_latch_tree_node = CStruct [
    Member ''node'' (CArr 2 struct_rb_node)]"

definition struct_bpf_ksym :: ctype where
  "struct_bpf_ksym = CStruct [
    Member ''start'' (CInt 8), Member ''end'' (CInt 8), Member ''name'' (CArr 128 (CInt 1)),
    Member ''lnode'' struct_list_head, Member ''tnode'' struct_latch_tree_node,
    Member ''prog'' (CInt 1)]"

definition struct_bpf_prog_aux :: ctype where
  "struct_bpf_prog_aux = CStruct [
    Member ''refcnt'' typedef_atomic64_t, Member ''used_map_cnt'' (CInt 4),
    Member ''max_ctx_offset'' (CInt 4), Member ''max_pkt_offset'' (CInt 4),
    Member ''max_tp_access'' (CInt 4), Member ''stack_depth'' (CInt 4), Member ''id'' (CInt 4),
    Member ''func_cnt'' (CInt 4), Member ''func_idx'' (CInt 4), Member ''attach_btf_id'' (CInt 4),
    Member ''ctx_arg_info_size'' (CInt 4), Member ''ctx_arg_info'' CPtr,
    Member ''linked_prog'' CPtr, Member ''verifier_zext'' (CInt 1),
    Member ''offload_requested'' (CInt 1), Member ''attach_btf_trace'' (CInt 1),
    Member ''func_proto_unreliable'' (CInt 1), Member ''trampoline_prog_type'' (CInt 4),
    Member ''trampoline'' CPtr, Member ''tramp_hlist'' struct_hlist_node,
    Member ''attach_func_proto'' CPtr, Member ''attach_func_name'' CPtr, Member ''func'' CPtr,
    Member ''jit_data'' CPtr, Member ''poke_tab'' CPtr, Member ''size_poke_tab'' (CInt 4),
    Member ''ksym'' struct_bpf_ksym, Member ''ops'' CPtr, Member ''used_maps'' CPtr,
    Member ''prog'' CPtr, Member ''user'' CPtr, Member ''load_time'' (CInt 8),
    Member ''cgroup_storage'' (CArr 2 CPtr), Member ''name'' (CArr 16 (CInt 1)),
    Member ''security'' CPtr, Member ''offload'' CPtr, Member ''btf'' CPtr,
    Member ''func_info'' CPtr, Member ''func_info_aux'' CPtr, Member ''linfo'' CPtr,
    Member ''jited_linfo'' CPtr, Member ''func_info_cnt'' (CInt 4), Member ''nr_linfo'' (CInt 4),
    Member ''linfo_idx'' (CInt 4), Member ''num_exentries'' (CInt 4), Member ''extable'' CPtr,
    Member ''stats'' CPtr,
    Anon (CUnion [
      Member ''work'' struct_work_struct, Member ''rcu'' struct_callback_head])]"

definition struct_bpf_prog_array_item :: ctype where
  "struct_bpf_prog_array_item = CStruct [
    Member ''prog'' CPtr, Member ''cgroup_storage'' (CArr 2 CPtr)]"

definition struct_bpf_prog_array :: ctype where
  "struct_bpf_prog_array = CStruct [
    Member ''rcu'' struct_callback_head, Member ''items'' (CArr 0 struct_bpf_prog_array_item)]"

definition struct_bpf_prog_info :: ctype where
  "struct_bpf_prog_info = CStruct [
    Member ''type'' (CInt 4), Member ''id'' (CInt 4), Member ''tag'' (CArr 8 (CInt 1)),
    Member ''jited_prog_len'' (CInt 4), Member ''xlated_prog_len'' (CInt 4),
    Member ''jited_prog_insns'' (CInt 8), Member ''xlated_prog_insns'' (CInt 8),
    Member ''load_time'' (CInt 8), Member ''created_by_uid'' (CInt 4),
    Member ''nr_map_ids'' (CInt 4), Member ''map_ids'' (CInt 8),
    Member ''name'' (CArr 16 (CInt 1)), Member ''ifindex'' (CInt 4), Bits ''gpl_compatible'' 4 1,
    Member ''netns_dev'' (CInt 8), Member ''netns_ino'' (CInt 8),
    Member ''nr_jited_ksyms'' (CInt 4), Member ''nr_jited_func_lens'' (CInt 4),
    Member ''jited_ksyms'' (CInt 8), Member ''jited_func_lens'' (CInt 8),
    Member ''btf_id'' (CInt 4), Member ''func_info_rec_size'' (CInt 4),
    Member ''func_info'' (CInt 8), Member ''nr_func_info'' (CInt 4),
    Member ''nr_line_info'' (CInt 4), Member ''line_info'' (CInt 8),
    Member ''jited_line_info'' (CInt 8), Member ''nr_jited_line_info'' (CInt 4),
    Member ''line_info_rec_size'' (CInt 4), Member ''jited_line_info_rec_size'' (CInt 4),
    Member ''nr_prog_tags'' (CInt 4), Member ''prog_tags'' (CInt 8),
    Member ''run_time_ns'' (CInt 8), Member ''run_cnt'' (CInt 8)]"

definition struct_bpf_map_info :: ctype where
  "struct_bpf_map_info = CStruct [
    Member ''type'' (CInt 4), Member ''id'' (CInt 4), Member ''key_size'' (CInt 4),
    Member ''value_size'' (CInt 4), Member ''max_entries'' (CInt 4),
    Member ''map_flags'' (CInt 4), Member ''name'' (CArr 16 (CInt 1)),
    Member ''ifindex'' (CInt 4), Member ''btf_vmlinux_value_type_id'' (CInt 4),
    Member ''netns_dev'' (CInt 8), Member ''netns_ino'' (CInt 8), Member ''btf_id'' (CInt 4),
    Member ''btf_key_type_id'' (CInt 4), Member ''btf_value_type_id'' (CInt 4)]"

definition struct_bpf_link_info :: ctype where
  "struct_bpf_link_info = CStruct [
    Member ''type'' (CInt 4), Member ''id'' (CInt 4), Member ''prog_id'' (CInt 4),
    Anon (CUnion [
      Member ''raw_tracepoint'' (CStruct [
        Member ''tp_name'' (CInt 8), Member ''tp_name_len'' (CInt 4)]),
      Member ''tracing'' (CStruct [
        Member ''attach_type'' (CInt 4)]),
      Member ''cgroup'' (CStruct [
        Member ''cgroup_id'' (CInt 8), Member ''attach_type'' (CInt 4)]),
      Member ''netns'' (CStruct [
        Member ''netns_ino'' (CInt 4), Member ''attach_type'' (CInt 4)])])]"

definition struct_bpf_event_entry :: ctype where
  "struct_bpf_event_entry = CStruct [
    Member ''event'' CPtr, Member ''perf_file'' CPtr, Member ''map_file'' CPtr,
    Member ''rcu'' struct_callback_head]"

definition struct_btf_header :: ctype where
  "struct_btf_header = CStruct [
    Member ''magic'' (CInt 2), Member ''version'' (CInt 1), Member ''flags'' (CInt 1),
    Member ''hdr_len'' (CInt 4), Member ''type_off'' (CInt 4), Member ''type_len'' (CInt 4),
    Member ''str_off'' (CInt 4), Member ''str_len'' (CInt 4)]"

definition struct_btf_type :: ctype where
  "struct_btf_type = CStruct [
    Member ''name_off'' (CInt 4), Member ''info'' (CInt 4),
    Anon (CUnion [
      Member ''size'' (CInt 4), Member ''type'' (CInt 4)])]"

definition struct_btf :: ctype where
  "struct_btf = CStruct [
    Member ''data'' CPtr, Member ''types'' CPtr, Member ''resolved_ids'' CPtr,
    Member ''resolved_sizes'' CPtr, Member ''strings'' CPtr, Member ''nohdr_data'' CPtr,
    Member ''hdr'' struct_btf_header, Member ''nr_types'' (CInt 4),
    Member ''types_size'' (CInt 4), Member ''data_size'' (CInt 4),
    Member ''refcnt'' struct_refcount_struct, Member ''id'' (CInt 4),
    Member ''rcu'' struct_callback_head]"

definition struct_bpf_func_proto :: ctype where
  "struct_bpf_func_proto = CStruct [
    Member ''func'' CPtr, Member ''gpl_only'' (CInt 1), Member ''pkt_access'' (CInt 1),
    Member ''ret_type'' (CInt 4),
    Anon (CUnion [
      Anon (CStruct [
        Member ''arg1_type'' (CInt 4), Member ''arg2_type'' (CInt 4),
        Member ''arg3_type'' (CInt 4), Member ''arg4_type'' (CInt 4),
        Member ''arg5_type'' (CInt 4)]),
      Member ''arg_type'' (CArr 5 (CInt 4))]),
    Member ''btf_id'' CPtr]"

definition struct_bpf_link :: ctype where
  "struct_bpf_link = CStruct [
    Member ''refcnt'' typedef_atomic64_t, Member ''id'' (CInt 4), Member ''type'' (CInt 4),
    Member ''ops'' CPtr, Member ''prog'' CPtr, Member ''work'' struct_work_struct]"

definition struct_bpf_link_ops :: ctype where
  "struct_bpf_link_ops = CStruct [
    Member ''release'' CPtr, Member ''dealloc'' CPtr, Member ''update_prog'' CPtr,
    Member ''show_fdinfo'' CPtr, Member ''fill_link_info'' CPtr]"

definition struct_bpf_verifier_ops :: ctype where
  "struct_bpf_verifier_ops = CStruct [
    Member ''get_func_proto'' CPtr, Member ''is_valid_access'' CPtr, Member ''gen_prologue'' CPtr,
    Member ''gen_ld_abs'' CPtr, Member ''convert_ctx_access'' CPtr,
    Member ''btf_struct_access'' CPtr]"

definition struct_bpf_prog_ops :: ctype where
  "struct_bpf_prog_ops = CStruct [
    Member ''test_run'' CPtr]"

definition struct_bpf_verifier_log :: ctype where
  "struct_bpf_verifier_log = CStruct [
    Member ''level'' (CInt 4), Member ''kbuf'' (CArr 1024 (CInt 1)), Member ''ubuf'' CPtr,
    Member ''len_used'' (CInt 4), Member ''len_total'' (CInt 4)]"

definition struct_bpf_subprog_info :: ctype where
  "struct_bpf_subprog_info = CStruct [
    Member ''start'' (CInt 4), Member ''linfo_idx'' (CInt 4), Member ''stack_depth'' (CInt 2)]"

definition struct_bpf_verifier_env :: ctype where
  "struct_bpf_verifier_env = CStruct [
    Member ''insn_idx'' (CInt 4), Member ''prev_insn_idx'' (CInt 4), Member ''prog'' CPtr,
    Member ''ops'' CPtr, Member ''head'' CPtr, Member ''stack_size'' (CInt 4),
    Member ''strict_alignment'' (CInt 1), Member ''test_state_freq'' (CInt 1),
    Member ''cur_state'' CPtr, Member ''explored_states'' CPtr, Member ''free_list'' CPtr,
    Member ''used_maps'' (CArr 64 CPtr), Member ''used_map_cnt'' (CInt 4),
    Member ''id_gen'' (CInt 4), Member ''allow_ptr_leaks'' (CInt 1),
    Member ''bpf_capable'' (CInt 1), Member ''bypass_spec_v1'' (CInt 1),
    Member ''bypass_spec_v4'' (CInt 1), Member ''seen_direct_write'' (CInt 1),
    Member ''insn_aux_data'' CPtr, Member ''prev_linfo'' CPtr,
    Member ''log'' struct_bpf_verifier_log,
    Member ''subprog_info'' (CArr 257 struct_bpf_subprog_info),
    Member ''cfg'' (CStruct [
      Member ''insn_state'' CPtr, Member ''insn_stack'' CPtr, Member ''cur_stack'' (CInt 4)]),
    Member ''pass_cnt'' (CInt 4), Member ''subprog_cnt'' (CInt 4),
    Member ''prev_insn_processed'' (CInt 4), Member ''insn_processed'' (CInt 4),
    Member ''prev_jmps_processed'' (CInt 4), Member ''jmps_processed'' (CInt 4),
    Member ''verification_time'' (CInt 8), Member ''max_states_per_insn'' (CInt 4),
    Member ''total_states'' (CInt 4), Member ''peak_states'' (CInt 4),
    Member ''longest_mark_read_walk'' (CInt 4)]"

definition struct_tnum :: ctype where
  "struct_tnum = CStruct [
    Member ''value'' (CInt 8), Member ''mask'' (CInt 8)]"

definition struct_bpf_reg_state :: ctype where
  "struct_bpf_reg_state = CStruct [
    Member ''type'' (CInt 4),
    Anon (CUnion [
      Member ''range'' (CInt 2), Member ''map_ptr'' CPtr, Member ''btf_id'' (CInt 4),
      Member ''mem_size'' (CInt 4), Member ''raw'' (CInt 8)]),
    Member ''off'' (CInt 4), Member ''id'' (CInt 4), Member ''ref_obj_id'' (CInt 4),
    Member ''var_off'' struct_tnum, Member ''smin_value'' (CInt 8),
    Member ''smax_value'' (CInt 8), Member ''umin_value'' (CInt 8),
    Member ''umax_value'' (CInt 8), Member ''s32_min_value'' (CInt 4),
    Member ''s32_max_value'' (CInt 4), Member ''u32_min_value'' (CInt 4),
    Member ''u32_max_value'' (CInt 4), Member ''parent'' CPtr, Member ''frameno'' (CInt 4),
    Member ''subreg_def'' (CInt 4), Member ''live'' (CInt 4), Member ''precise'' (CInt 1)]"

definition struct_bpf_func_state :: ctype where
  "struct_bpf_func_state = CStruct [
    Member ''regs'' (CArr 11 struct_bpf_reg_state), Member ''callsite'' (CInt 4),
    Member ''frameno'' (CInt 4), Member ''subprogno'' (CInt 4), Member ''acquired_refs'' (CInt 4),
    Member ''refs'' CPtr, Member ''allocated_stack'' (CInt 4), Member ''stack'' CPtr]"

definition struct_bpf_verifier_state :: ctype where
  "struct_bpf_verifier_state = CStruct [
    Member ''frame'' (CArr 8 CPtr), Member ''parent'' CPtr, Member ''branches'' (CInt 4),
    Member ''insn_idx'' (CInt 4), Member ''curframe'' (CInt 4),
    Member ''active_spin_lock'' (CInt 4), Member ''speculative'' (CInt 1),
    Member ''first_insn_idx'' (CInt 4), Member ''last_insn_idx'' (CInt 4),
    Member ''jmp_history'' CPtr, Member ''jmp_history_cnt'' (CInt 4)]"

definition struct_bpf_insn_aux_data :: ctype where
  "struct_bpf_insn_aux_data = CStruct [
    Anon (CUnion [
      Member ''ptr_type'' (CInt 4), Member ''map_ptr_state'' (CInt 8),
      Member ''call_imm'' (CInt 4), Member ''alu_limit'' (CInt 4),
      Anon (CStruct [
        Member ''map_index'' (CInt 4), Member ''map_off'' (CInt 4)])]),
    Member ''map_key_state'' (CInt 8), Member ''ctx_field_size'' (CInt 4),
    Member ''sanitize_stack_off'' (CInt 4), Member ''seen'' (CInt 4),
    Member ''zext_dst'' (CInt 1), Member ''alu_state'' (CInt 1), Member ''orig_idx'' (CInt 4),
    Member ''prune_point'' (CInt 1)]"

definition struct_btf_func_model :: ctype where
  "struct_btf_func_model = CStruct [
    Member ''ret_size'' (CInt 1), Member ''nr_args'' (CInt 1),
    Member ''arg_size'' (CArr 12 (CInt 1))]"

definition struct_hlist_head :: ctype where
  "struct_hlist_head = CStruct [
    Member ''first'' CPtr]"

definition struct_bpf_trampoline :: ctype where
  "struct_bpf_trampoline = CStruct [
    Member ''hlist'' struct_hlist_node, Member ''mutex'' struct_mutex,
    Member ''refcnt'' struct_refcount_struct, Member ''key'' (CInt 8),
    Member ''func'' (CStruct [
      Member ''model'' struct_btf_func_model, Member ''addr'' CPtr,
      Member ''ftrace_managed'' (CInt 1)]),
    Member ''extension_prog'' CPtr, Member ''progs_hlist'' (CArr 3 struct_hlist_head),
    Member ''progs_cnt'' (CArr 3 (CInt 4)), Member ''image'' CPtr, Member ''selector'' (CInt 8),
    Member ''ksym'' struct_bpf_ksym]"

definition struct_bpf_raw_event_map :: ctype where
  "struct_bpf_raw_event_map = CStruct [
    Member ''tp'' CPtr, Member ''bpf_func'' CPtr, Member ''num_args'' (CInt 4),
    Member ''writable_size'' (CInt 4), Bits '''' 8 64]"

definition struct_bpf_stack_map :: ctype where
  "struct_bpf_stack_map = CStruct [
    Member ''map'' struct_bpf_map, Member ''elems'' CPtr,
    Member ''freelist'' struct_pcpu_freelist, Member ''n_buckets'' (CInt 4),
    Member ''buckets'' (CArr 0 CPtr), Bits '''' 8 64, Bits '''' 8 64, Bits '''' 8 64,
    Bits '''' 8 64, Bits '''' 8 64]"

definition struct_stack_map_bucket :: ctype where
  "struct_stack_map_bucket = CStruct [
    Member ''fnode'' struct_pcpu_freelist_node, Member ''hash'' (CInt 4), Member ''nr'' (CInt 4),
    Member ''data'' (CArr 0 (CInt 8))]"

definition struct_bpf_btf_info :: ctype where
  "struct_bpf_btf_info = CStruct [
    Member ''btf'' (CInt 8), Member ''btf_size'' (CInt 4), Member ''id'' (CInt 4)]"

definition struct_bpf_line_info :: ctype where
  "struct_bpf_line_info = CStruct [
    Member ''insn_off'' (CInt 4), Member ''file_name_off'' (CInt 4), Member ''line_off'' (CInt 4),
    Member ''line_col'' (CInt 4)]"

definition struct_bpf_func_info :: ctype where
  "struct_bpf_func_info = CStruct [
    Member ''insn_off'' (CInt 4), Member ''type_id'' (CInt 4)]"

definition struct_bpf_insn_access_aux :: ctype where
  "struct_bpf_insn_access_aux = CStruct [
    Member ''reg_type'' (CInt 4),
    Anon (CUnion [
      Member ''ctx_field_size'' (CInt 4), Member ''btf_id'' (CInt 4)]),
    Member ''log'' CPtr]"

text \<open>The declarations of this theory.\<close>

lemmas kernel_bpf_defs =
  union_bpf_attr_def
  struct_bpf_insn_def
  struct_bpf_map_memory_def
  struct_work_struct_def
  struct_bpf_map_def
  struct_bpf_map_ops_def
  struct_bpf_array_def
  struct_pcpu_freelist_def
  struct_bpf_lru_list_def
  struct_bpf_common_lru_def
  struct_bpf_lru_def
  struct_bpf_htab_def
  struct_hlist_nulls_node_def
  struct_pcpu_freelist_node_def
  struct_bpf_lru_node_def
  struct_htab_elem_def
  struct_hlist_nulls_head_def
  struct_bucket_def
  struct_sock_filter_def
  struct_bpf_prog_def
  struct_latch_tree_node_def
  struct_bpf_ksym_def
  struct_bpf_prog_aux_def
  struct_bpf_prog_array_item_def
  struct_bpf_prog_array_def
  struct_bpf_prog_info_def
  struct_bpf_map_info_def
  struct_bpf_link_info_def
  struct_bpf_event_entry_def
  struct_btf_header_def
  struct_btf_type_def
  struct_btf_def
  struct_bpf_func_proto_def
  struct_bpf_link_def
  struct_bpf_link_ops_def
  struct_bpf_verifier_ops_def
  struct_bpf_prog_ops_def
  struct_bpf_verifier_log_def
  struct_bpf_subprog_info_def
  struct_bpf_verifier_env_def
  struct_tnum_def
  struct_bpf_reg_state_def
  struct_bpf_func_state_def
  struct_bpf_verifier_state_def
  struct_bpf_insn_aux_data_def
  struct_btf_func_model_def
  struct_hlist_head_def
  struct_bpf_trampoline_def
  struct_bpf_raw_event_map_def
  struct_bpf_stack_map_def
  struct_stack_map_bucket_def
  struct_bpf_btf_info_def
  struct_bpf_line_info_def
  struct_bpf_func_info_def
  struct_bpf_insn_access_aux_def

definition kernel_bpf_types :: "ctype list" where
  "kernel_bpf_types = [
    union_bpf_attr,
    struct_bpf_insn,
    struct_bpf_map_memory,
    struct_work_struct,
    struct_bpf_map,
    struct_bpf_map_ops,
    struct_bpf_array,
    struct_pcpu_freelist,
    struct_bpf_lru_list,
    struct_bpf_common_lru,
    struct_bpf_lru,
    struct_bpf_htab,
    struct_hlist_nulls_node,
    struct_pcpu_freelist_node,
    struct_bpf_lru_node,
    struct_htab_elem,
    struct_hlist_nulls_head,
    struct_bucket,
    struct_sock_filter,
    struct_bpf_prog,
    struct_latch_tree_node,
    struct_bpf_ksym,
    struct_bpf_prog_aux,
    struct_bpf_prog_array_item,
    struct_bpf_prog_array,
    struct_bpf_prog_info,
    struct_bpf_map_info,
    struct_bpf_link_info,
    struct_bpf_event_entry,
    struct_btf_header,
    struct_btf_type,
    struct_btf,
    struct_bpf_func_proto,
    struct_bpf_link,
    struct_bpf_link_ops,
    struct_bpf_verifier_ops,
    struct_bpf_prog_ops,
    struct_bpf_verifier_log,
    struct_bpf_subprog_info,
    struct_bpf_verifier_env,
    struct_tnum,
    struct_bpf_reg_state,
    struct_bpf_func_state,
    struct_bpf_verifier_state,
    struct_bpf_insn_aux_data,
    struct_btf_func_model,
    struct_hlist_head,
    struct_bpf_trampoline,
    struct_bpf_raw_event_map,
    struct_bpf_stack_map,
    struct_stack_map_bucket,
    struct_bpf_btf_info,
    struct_bpf_line_info,
    struct_bpf_func_info,
    struct_bpf_insn_access_aux]"


end
