(* ===== verification/KernelTask.thy ===== *)
theory KernelTask
  imports KernelBpf
begin

text \<open>
  The kernel's types in vmlinux.h behind the current task and the probes: the task whose \<open>pid\<close> and
  \<open>tgid\<close> name a sample, its memory, the probed files, and the ELF records of the object files.
\<close>

definition struct_thread_info :: ctype where
  "struct_thread_info = CStruct [
    Member ''flags'' (CInt 8), Member ''status'' (CInt 4)]"

definition struct_load_weight :: ctype where
  "struct_load_weight = CStruct [
    Member ''weight'' (CInt 8), Member ''inv_weight'' (CInt 4)]"

definition struct_sched_statistics :: ctype where
  "struct_sched_statistics = CStruct [
    Member ''wait_start'' (CInt 8), Member ''wait_max'' (CInt 8), Member ''wait_count'' (CInt 8),
    Member ''wait_sum'' (CInt 8), Member ''iowait_count'' (CInt 8),
    Member ''iowait_sum'' (CInt 8), Member ''sleep_start'' (CInt 8),
    Member ''sleep_max'' (CInt 8), Member ''sum_sleep_runtime'' (CInt 8),
    Member ''block_start'' (CInt 8), Member ''block_max'' (CInt 8), Member ''exec_max'' (CInt 8),
    Member ''slice_max'' (CInt 8), Member ''nr_migrations_cold'' (CInt 8),
    Member ''nr_failed_migrations_affine'' (CInt 8),
    Member ''nr_failed_migrations_running'' (CInt 8),
    Member ''nr_failed_migrations_hot'' (CInt 8), Member ''nr_forced_migrations'' (CInt 8),
    Member ''nr_wakeups'' (CInt 8), Member ''nr_wakeups_sync'' (CInt 8),
    Member ''nr_wakeups_migrate'' (CInt 8), Member ''nr_wakeups_local'' (CInt 8),
    Member ''nr_wakeups_remote'' (CInt 8), Member ''nr_wakeups_affine'' (CInt 8),
    Member ''nr_wakeups_affine_attempts'' (CInt 8), Member ''nr_wakeups_passive'' (CInt 8),
    Member ''nr_wakeups_idle'' (CInt 8)]"

definition struct_util_est :: ctype where
  "struct_util_est = CStruct [
    Member ''enqueued'' (CInt 4), Member ''ewma'' (CInt 4)]"

definition struct_sched_avg :: ctype where
  "struct_sched_avg = CStruct [
    Member ''last_update_time'' (CInt 8), Member ''load_sum'' (CInt 8),
    Member ''runnable_sum'' (CInt 8), Member ''util_sum'' (CInt 4),
    Member ''period_contrib'' (CInt 4), Member ''load_avg'' (CInt 8),
    Member ''runnable_avg'' (CInt 8), Member ''util_avg'' (CInt 8),
    Member ''util_est'' struct_util_est]"

definition struct_sched_entity :: ctype where
  "struct_sched_entity = CStruct [
    Member ''load'' struct_load_weight, Member ''run_node'' struct_rb_node,
    Member ''group_node'' struct_list_head, Member ''on_rq'' (CInt 4),
    Member ''exec_start'' (CInt 8), Member ''sum_exec_runtime'' (CInt 8),
    Member ''vruntime'' (CInt 8), Member ''prev_sum_exec_runtime'' (CInt 8),
    Member ''nr_migrations'' (CInt 8), Member ''statistics'' struct_sched_statistics,
    Member ''depth'' (CInt 4), Member ''parent'' CPtr, Member ''cfs_rq'' CPtr,
    Member ''my_q'' CPtr, Member ''runnable_weight'' (CInt 8), Bits '''' 8 64, Bits '''' 8 64,
    Bits '''' 8 64, Member ''avg'' struct_sched_avg]"

definition struct_sched_rt_entity :: ctype where
  "struct_sched_rt_entity = CStruct [
    Member ''run_list'' struct_list_head, Member ''timeout'' (CInt 8),
    Member ''watchdog_stamp'' (CInt 8), Member ''time_slice'' (CInt 4), Member ''on_rq'' (CInt 2),
    Member ''on_list'' (CInt 2), Member ''back'' CPtr]"

definition struct_sched_dl_entity :: ctype where
  "struct_sched_dl_entity = CStruct [
    Member ''rb_node'' struct_rb_node, Member ''dl_runtime'' (CInt 8),
    Member ''dl_deadline'' (CInt 8), Member ''dl_period'' (CInt 8), Member ''dl_bw'' (CInt 8),
    Member ''dl_density'' (CInt 8), Member ''runtime'' (CInt 8), Member ''deadline'' (CInt 8),
    Member ''flags'' (CInt 4), Bits ''dl_throttled'' 4 1, Bits ''dl_boosted'' 4 1,
    Bits ''dl_yielded'' 4 1, Bits ''dl_non_contending'' 4 1, Bits ''dl_overrun'' 4 1,
    Member ''dl_timer'' struct_hrtimer, Member ''inactive_timer'' struct_hrtimer]"

definition struct_cpumask :: ctype where
  "struct_cpumask = CStruct [
    Member ''bits'' (CArr 1 (CInt 8))]"

definition struct_sched_info :: ctype where
  "struct_sched_info = CStruct [
    Member ''pcount'' (CInt 8), Member ''run_delay'' (CInt 8), Member ''last_arrival'' (CInt 8),
    Member ''last_queued'' (CInt 8)]"

definition struct_plist_node :: ctype where
  "struct_plist_node = CStruct [
    Member ''prio'' (CInt 4), Member ''prio_list'' struct_list_head,
    Member ''node_list'' struct_list_head]"

definition struct_vmacache :: ctype where
  "struct_vmacache = CStruct [
    Member ''seqnum'' (CInt 8), Member ''vmas'' (CArr 4 CPtr)]"

definition struct_task_rss_stat :: ctype where
  "struct_task_rss_stat = CStruct [
    Member ''events'' (CInt 4), Member ''count'' (CArr 4 (CInt 4))]"

definition struct_restart_block :: ctype where
  "struct_restart_block = CStruct [
    Member ''fn'' CPtr,
    Anon (CUnion [
      Member ''futex'' (CStruct [
        Member ''uaddr'' CPtr, Member ''val'' (CInt 4), Member ''flags'' (CInt 4),
        Member ''bitset'' (CInt 4), Member ''time'' (CInt 8), Member ''uaddr2'' CPtr]),
      Member ''nanosleep'' (CStruct [
        Member ''clockid'' (CInt 4), Member ''type'' (CInt 4),
        Anon (CUnion [
          Member ''rmtp'' CPtr, Member ''compat_rmtp'' CPtr]),
        Member ''expires'' (CInt 8)]),
      Member ''poll'' (CStruct [
        Member ''ufds'' CPtr, Member ''nfds'' (CInt 4), Member ''has_timeout'' (CInt 4),
        Member ''tv_sec'' (CInt 8), Member ''tv_nsec'' (CInt 8)])])]"

definition struct_prev_cputime :: ctype where
  "struct_prev_cputime = CStruct [
    Member ''utime'' (CInt 8), Member ''stime'' (CInt 8), Member ''lock'' struct_raw_spinlock]"

definition struct_rb_root_cached :: ctype where
  "struct_rb_root_cached = CStruct [
    Member ''rb_root'' struct_rb_root, Member ''rb_leftmost'' CPtr]"

definition struct_timerqueue_head :: ctype where
  "struct_timerqueue_head = CStruct [
    Member ''rb_root'' struct_rb_root_cached]"

definition struct_posix_cputimer_base :: ctype where
  "struct_posix_cputimer_base = CStruct [
    Member ''nextevt'' (CInt 8), Member ''tqhead'' struct_timerqueue_head]"

definition struct_posix_cputimers :: ctype where
  "struct_posix_cputimers = CStruct [
    Member ''bases'' (CArr 3 struct_posix_cputimer_base), Member ''timers_active'' (CInt 4),
    Member ''expiry_active'' (CInt 4)]"

definition struct_sysv_sem :: ctype where
  "struct_sysv_sem = CStruct [
    Member ''undo_list'' CPtr]"

definition struct_sysv_shm :: ctype where
  "struct_sysv_shm = CStruct [
    Member ''shm_clist'' struct_list_head]"

definition typedef_sigset_t :: ctype where
  "typedef_sigset_t = CStruct [
    Member ''sig'' (CArr 1 (CInt 8))]"

definition struct_sigpending :: ctype where
  "struct_sigpending = CStruct [
    Member ''list'' struct_list_head, Member ''signal'' typedef_sigset_t]"

definition typedef_kuid_t :: ctype where
  "typedef_kuid_t = CStruct [
    Member ''val'' (CInt 4)]"

definition struct_seccomp :: ctype where
  "struct_seccomp = CStruct [
    Member ''mode'' (CInt 4), Member ''filter'' CPtr]"

definition struct_wake_q_node :: ctype where
  "struct_wake_q_node = CStruct [
    Member ''next'' CPtr]"

definition struct_task_io_accounting :: ctype where
  "struct_task_io_accounting = CStruct [
    Member ''rchar'' (CInt 8), Member ''wchar'' (CInt 8), Member ''syscr'' (CInt 8),
    Member ''syscw'' (CInt 8), Member ''read_bytes'' (CInt 8), Member ''write_bytes'' (CInt 8),
    Member ''cancelled_write_bytes'' (CInt 8)]"

definition typedef_nodemask_t :: ctype where
  "typedef_nodemask_t = CStruct [
    Member ''bits'' (CArr 1 (CInt 8))]"

definition struct_seqcount :: ctype where
  "struct_seqcount = CStruct [
    Member ''sequence'' (CInt 4)]"

definition struct_arch_tlbflush_unmap_batch :: ctype where
  "struct_arch_tlbflush_unmap_batch = CStruct [
    Member ''cpumask'' struct_cpumask]"

definition struct_tlbflush_unmap_batch :: ctype where
  "struct_tlbflush_unmap_batch = CStruct [
    Member ''arch'' struct_arch_tlbflush_unmap_batch, Member ''flush_required'' (CInt 1),
    Member ''writable'' (CInt 1)]"

definition struct_page_frag :: ctype where
  "struct_page_frag = CStruct [
    Member ''page'' CPtr, Member ''offset'' (CInt 4), Member ''size'' (CInt 4)]"

definition struct_desc_struct :: ctype where
  "struct_desc_struct = CStruct [
    Member ''limit0'' (CInt 2), Member ''base0'' (CInt 2), Bits ''base1'' 2 8, Bits ''type'' 2 4,
    Bits ''s'' 2 1, Bits ''dpl'' 2 2, Bits ''p'' 2 1, Bits ''limit1'' 2 4, Bits ''avl'' 2 1,
    Bits ''l'' 2 1, Bits ''d'' 2 1, Bits ''g'' 2 1, Bits ''base2'' 2 8]"

definition typedef_mm_segment_t :: ctype where
  "typedef_mm_segment_t = CStruct [
    Member ''seg'' (CInt 8)]"

definition struct_fregs_state :: ctype where
  "struct_fregs_state = CStruct [
    Member ''cwd'' (CInt 4), Member ''swd'' (CInt 4), Member ''twd'' (CInt 4),
    Member ''fip'' (CInt 4), Member ''fcs'' (CInt 4), Member ''foo'' (CInt 4),
    Member ''fos'' (CInt 4), Member ''st_space'' (CArr 20 (CInt 4)), Member ''status'' (CInt 4)]"

definition struct_fxregs_state :: ctype where
  "struct_fxregs_state = CStruct [
    Member ''cwd'' (CInt 2), Member ''swd'' (CInt 2), Member ''twd'' (CInt 2),
    Member ''fop'' (CInt 2),
    Anon (CUnion [
      Anon (CStruct [
        Member ''rip'' (CInt 8), Member ''rdp'' (CInt 8)]),
      Anon (CStruct [
        Member ''fip'' (CInt 4), Member ''fcs'' (CInt 4), Member ''foo'' (CInt 4),
        Member ''fos'' (CInt 4)])]),
    Member ''mxcsr'' (CInt 4), Member ''mxcsr_mask'' (CInt 4),
    Member ''st_space'' (CArr 32 (CInt 4)), Member ''xmm_space'' (CArr 64 (CInt 4)),
    Member ''padding'' (CArr 12 (CInt 4)),
    Anon (CUnion [
      Member ''padding1'' (CArr 12 (CInt 4)), Member ''sw_reserved'' (CArr 12 (CInt 4))])]"

definition struct_swregs_state :: ctype where
  "struct_swregs_state = CStruct [
    Member ''cwd'' (CInt 4), Member ''swd'' (CInt 4), Member ''twd'' (CInt 4),
    Member ''fip'' (CInt 4), Member ''fcs'' (CInt 4), Member ''foo'' (CInt 4),
    Member ''fos'' (CInt 4), Member ''st_space'' (CArr 20 (CInt 4)), Member ''ftop'' (CInt 1),
    Member ''changed'' (CInt 1), Member ''lookahead'' (CInt 1), Member ''no_update'' (CInt 1),
    Member ''rm'' (CInt 1), Member ''alimit'' (CInt 1), Member ''info'' CPtr,
    Member ''entry_eip'' (CInt 4)]"

definition struct_xstate_header :: ctype where
  "struct_xstate_header = CStruct [
    Member ''xfeatures'' (CInt 8), Member ''xcomp_bv'' (CInt 8),
    Member ''reserved'' (CArr 6 (CInt 8))]"

definition struct_xregs_state :: ctype where
  "struct_xregs_state = CStruct [
    Member ''i387'' struct_fxregs_state, Member ''header'' struct_xstate_header,
    Member ''extended_state_area'' (CArr 0 (CInt 1))]"

definition union_fpregs_state :: ctype where
  "union_fpregs_state = CUnion [
    Member ''fsave'' struct_fregs_state, Member ''fxsave'' struct_fxregs_state,
    Member ''soft'' struct_swregs_state, Member ''xsave'' struct_xregs_state,
    Member ''__padding'' (CArr 4096 (CInt 1))]"

definition struct_fpu :: ctype where
  "struct_fpu = CStruct [
    Member ''last_cpu'' (CInt 4), Member ''avx512_timestamp'' (CInt 8), Bits '''' 8 64,
    Bits '''' 8 64, Bits '''' 8 64, Bits '''' 8 64, Bits '''' 8 64, Bits '''' 8 64,
    Member ''state'' union_fpregs_state]"

definition struct_thread_struct :: ctype where
  "struct_thread_struct = CStruct [
    Member ''tls_array'' (CArr 3 struct_desc_struct), Member ''sp'' (CInt 8),
    Member ''es'' (CInt 2), Member ''ds'' (CInt 2), Member ''fsindex'' (CInt 2),
    Member ''gsindex'' (CInt 2), Member ''fsbase'' (CInt 8), Member ''gsbase'' (CInt 8),
    Member ''ptrace_bps'' (CArr 4 CPtr), Member ''debugreg6'' (CInt 8),
    Member ''ptrace_dr7'' (CInt 8), Member ''cr2'' (CInt 8), Member ''trap_nr'' (CInt 8),
    Member ''error_code'' (CInt 8), Member ''io_bitmap'' CPtr, Member ''iopl_emul'' (CInt 8),
    Member ''addr_limit'' typedef_mm_segment_t, Bits ''sig_on_uaccess_err'' 4 1, Bits '''' 8 63,
    Bits '''' 8 64, Bits '''' 8 64, Bits '''' 8 64, Bits '''' 8 64, Member ''fpu'' struct_fpu]"

definition struct_task_struct :: ctype where
  "struct_task_struct = CStruct [
    Member ''thread_info'' struct_thread_info, Member ''state'' (CInt 8), Member ''stack'' CPtr,
    Member ''usage'' struct_refcount_struct, Member ''flags'' (CInt 4),
    Member ''ptrace'' (CInt 4), Member ''on_cpu'' (CInt 4),
    Member ''wake_entry'' struct___call_single_node, Member ''cpu'' (CInt 4),
    Member ''wakee_flips'' (CInt 4), Member ''wakee_flip_decay_ts'' (CInt 8),
    Member ''last_wakee'' CPtr, Member ''recent_used_cpu'' (CInt 4), Member ''wake_cpu'' (CInt 4),
    Member ''on_rq'' (CInt 4), Member ''prio'' (CInt 4), Member ''static_prio'' (CInt 4),
    Member ''normal_prio'' (CInt 4), Member ''rt_priority'' (CInt 4), Member ''sched_class'' CPtr,
    Member ''se'' struct_sched_entity, Member ''rt'' struct_sched_rt_entity,
    Member ''sched_task_group'' CPtr, Member ''dl'' struct_sched_dl_entity,
    Member ''btrace_seq'' (CInt 4), Member ''policy'' (CInt 4),
    Member ''nr_cpus_allowed'' (CInt 4), Member ''cpus_ptr'' CPtr,
    Member ''cpus_mask'' struct_cpumask, Member ''sched_info'' struct_sched_info,
    Member ''tasks'' struct_list_head, Member ''pushable_tasks'' struct_plist_node,
    Member ''pushable_dl_tasks'' struct_rb_node, Member ''mm'' CPtr, Member ''active_mm'' CPtr,
    Member ''vmacache'' struct_vmacache, Member ''rss_stat'' struct_task_rss_stat,
    Member ''exit_state'' (CInt 4), Member ''exit_code'' (CInt 4),
    Member ''exit_signal'' (CInt 4), Member ''pdeath_signal'' (CInt 4),
    Member ''jobctl'' (CInt 8), Member ''personality'' (CInt 4), Bits ''sched_reset_on_fork'' 4 1,
    Bits ''sched_contributes_to_load'' 4 1, Bits ''sched_migrated'' 4 1,
    Bits ''sched_remote_wakeup'' 4 1, Bits '''' 4 28, Bits ''in_execve'' 4 1,
    Bits ''in_iowait'' 4 1, Bits ''restore_sigmask'' 4 1, Bits ''no_cgroup_migration'' 4 1,
    Bits ''frozen'' 4 1, Member ''atomic_flags'' (CInt 8),
    Member ''restart_block'' struct_restart_block, Member ''pid'' (CInt 4),
    Member ''tgid'' (CInt 4), Member ''stack_canary'' (CInt 8), Member ''real_parent'' CPtr,
    Member ''parent'' CPtr, Member ''children'' struct_list_head,
    Member ''sibling'' struct_list_head, Member ''group_leader'' CPtr,
    Member ''ptraced'' struct_list_head, Member ''ptrace_entry'' struct_list_head,
    Member ''thread_pid'' CPtr, Member ''pid_links'' (CArr 4 struct_hlist_node),
    Member ''thread_group'' struct_list_head, Member ''thread_node'' struct_list_head,
    Member ''vfork_done'' CPtr, Member ''set_child_tid'' CPtr, Member ''clear_child_tid'' CPtr,
    Member ''utime'' (CInt 8), Member ''stime'' (CInt 8), Member ''gtime'' (CInt 8),
    Member ''prev_cputime'' struct_prev_cputime, Member ''nvcsw'' (CInt 8),
    Member ''nivcsw'' (CInt 8), Member ''start_time'' (CInt 8),
    Member ''start_boottime'' (CInt 8), Member ''min_flt'' (CInt 8), Member ''maj_flt'' (CInt 8),
    Member ''posix_cputimers'' struct_posix_cputimers, Member ''ptracer_cred'' CPtr,
    Member ''real_cred'' CPtr, Member ''cred'' CPtr, Member ''cached_requested_key'' CPtr,
    Member ''comm'' (CArr 16 (CInt 1)), Member ''nameidata'' CPtr,
    Member ''sysvsem'' struct_sysv_sem, Member ''sysvshm'' struct_sysv_shm, Member ''fs'' CPtr,
    Member ''files'' CPtr, Member ''nsproxy'' CPtr, Member ''signal'' CPtr,
    Member ''sighand'' CPtr, Member ''blocked'' typedef_sigset_t,
    Member ''real_blocked'' typedef_sigset_t, Member ''saved_sigmask'' typedef_sigset_t,
    Member ''pending'' struct_sigpending, Member ''sas_ss_sp'' (CInt 8),
    Member ''sas_ss_size'' (CInt 8), Member ''sas_ss_flags'' (CInt 4), Member ''task_works'' CPtr,
    Member ''audit_context'' CPtr, Member ''loginuid'' typedef_kuid_t,
    Member ''sessionid'' (CInt 4), Member ''seccomp'' struct_seccomp,
    Member ''parent_exec_id'' (CInt 8), Member ''self_exec_id'' (CInt 8),
    Member ''alloc_lock'' struct_spinlock, Member ''pi_lock'' struct_raw_spinlock,
    Member ''wake_q'' struct_wake_q_node, Member ''pi_waiters'' struct_rb_root_cached,
    Member ''pi_top_task'' CPtr, Member ''pi_blocked_on'' CPtr, Member ''journal_info'' CPtr,
    Member ''bio_list'' CPtr, Member ''plug'' CPtr, Member ''reclaim_state'' CPtr,
    Member ''backing_dev_info'' CPtr, Member ''io_context'' CPtr, Member ''capture_control'' CPtr,
    Member ''ptrace_message'' (CInt 8), Member ''last_siginfo'' CPtr,
    Member ''ioac'' struct_task_io_accounting, Member ''acct_rss_mem1'' (CInt 8),
    Member ''acct_vm_mem1'' (CInt 8), Member ''acct_timexpd'' (CInt 8),
    Member ''mems_allowed'' typedef_nodemask_t, Member ''mems_allowed_seq'' struct_seqcount,
    Member ''cpuset_mem_spread_rotor'' (CInt 4), Member ''cpuset_slab_spread_rotor'' (CInt 4),
    Member ''cgroups'' CPtr, Member ''cg_list'' struct_list_head, Member ''robust_list'' CPtr,
    Member ''compat_robust_list'' CPtr, Member ''pi_state_list'' struct_list_head,
    Member ''pi_state_cache'' CPtr, Member ''futex_exit_mutex'' struct_mutex,
    Member ''futex_state'' (CInt 4), Member ''perf_event_ctxp'' (CArr 2 CPtr),
    Member ''perf_event_mutex'' struct_mutex, Member ''perf_event_list'' struct_list_head,
    Member ''mempolicy'' CPtr, Member ''il_prev'' (CInt 2), Member ''pref_node_fork'' (CInt 2),
    Member ''rseq'' CPtr, Member ''rseq_sig'' (CInt 4), Member ''rseq_event_mask'' (CInt 8),
    Member ''tlb_ubc'' struct_tlbflush_unmap_batch,
    Anon (CUnion [
      Member ''rcu_users'' struct_refcount_struct, Member ''rcu'' struct_callback_head]),
    Member ''splice_pipe'' CPtr, Member ''task_frag'' struct_page_frag, Member ''delays'' CPtr,
    Member ''nr_dirtied'' (CInt 4), Member ''nr_dirtied_pause'' (CInt 4),
    Member ''dirty_paused_when'' (CInt 8), Member ''timer_slack_ns'' (CInt 8),
    Member ''default_timer_slack_ns'' (CInt 8), Member ''trace'' (CInt 8),
    Member ''trace_recursion'' (CInt 8), Member ''utask'' CPtr,
    Member ''pagefault_disabled'' (CInt 4), Member ''oom_reaper_list'' CPtr,
    Member ''stack_vm_area'' CPtr, Member ''stack_refcount'' struct_refcount_struct,
    Member ''security'' CPtr, Member ''mce_addr'' (CInt 8), Bits ''mce_ripv'' 8 1,
    Bits ''mce_whole_page'' 8 1, Bits ''__mce_reserved'' 8 62,
    Member ''mce_kill_me'' struct_callback_head, Bits '''' 8 64, Bits '''' 8 64, Bits '''' 8 64,
    Bits '''' 8 64, Bits '''' 8 64, Bits '''' 8 64, Member ''thread'' struct_thread_struct]"

definition struct_rw_semaphore :: ctype where
  "struct_rw_semaphore = CStruct [
    Member ''count'' typedef_atomic64_t, Member ''owner'' typedef_atomic64_t,
    Member ''osq'' struct_optimistic_spin_queue, Member ''wait_lock'' struct_raw_spinlock,
    Member ''wait_list'' struct_list_head]"

definition struct_mm_rss_stat :: ctype where
  "struct_mm_rss_stat = CStruct [
    Member ''count'' (CArr 4 typedef_atomic64_t)]"

definition typedef_mm_context_t :: ctype where
  "typedef_mm_context_t = CStruct [
    Member ''ctx_id'' (CInt 8), Member ''tlb_gen'' typedef_atomic64_t,
    Member ''ldt_usr_sem'' struct_rw_semaphore, Member ''ldt'' CPtr,
    Member ''ia32_compat'' (CInt 2), Member ''lock'' struct_mutex, Member ''vdso'' CPtr,
    Member ''vdso_image'' CPtr, Member ''perf_rdpmc_allowed'' typedef_atomic_t,
    Member ''pkey_allocation_map'' (CInt 2), Member ''execute_only_pkey'' (CInt 2)]"

definition struct_uprobes_state :: ctype where
  "struct_uprobes_state = CStruct [
    Member ''xol_area'' CPtr]"

definition struct_mm_struct :: ctype where
  "struct_mm_struct = CStruct [
    Anon (CStruct [
      Member ''mmap'' CPtr, Member ''mm_rb'' struct_rb_root, Member ''vmacache_seqnum'' (CInt 8),
      Member ''get_unmapped_area'' CPtr, Member ''mmap_base'' (CInt 8),
      Member ''mmap_legacy_base'' (CInt 8), Member ''mmap_compat_base'' (CInt 8),
      Member ''mmap_compat_legacy_base'' (CInt 8), Member ''task_size'' (CInt 8),
      Member ''highest_vm_end'' (CInt 8), Member ''pgd'' CPtr,
      Member ''membarrier_state'' typedef_atomic_t, Member ''mm_users'' typedef_atomic_t,
      Member ''mm_count'' typedef_atomic_t, Member ''pgtables_bytes'' typedef_atomic64_t,
      Member ''map_count'' (CInt 4), Member ''page_table_lock'' struct_spinlock,
      Member ''mmap_lock'' struct_rw_semaphore, Member ''mmlist'' struct_list_head,
      Member ''hiwater_rss'' (CInt 8), Member ''hiwater_vm'' (CInt 8),
      Member ''total_vm'' (CInt 8), Member ''locked_vm'' (CInt 8),
      Member ''pinned_vm'' typedef_atomic64_t, Member ''data_vm'' (CInt 8),
      Member ''exec_vm'' (CInt 8), Member ''stack_vm'' (CInt 8), Member ''def_flags'' (CInt 8),
      Member ''arg_lock'' struct_spinlock, Member ''start_code'' (CInt 8),
      Member ''end_code'' (CInt 8), Member ''start_data'' (CInt 8), Member ''end_data'' (CInt 8),
      Member ''start_brk'' (CInt 8), Member ''brk'' (CInt 8), Member ''start_stack'' (CInt 8),
      Member ''arg_start'' (CInt 8), Member ''arg_end'' (CInt 8), Member ''env_start'' (CInt 8),
      Member ''env_end'' (CInt 8), Member ''saved_auxv'' (CArr 46 (CInt 8)),
      Member ''rss_stat'' struct_mm_rss_stat, Member ''binfmt'' CPtr,
      Member ''context'' typedef_mm_context_t, Member ''flags'' (CInt 8),
      Member ''core_state'' CPtr, Member ''ioctx_lock'' struct_spinlock,
      Member ''ioctx_table'' CPtr, Member ''user_ns'' CPtr, Member ''exe_file'' CPtr,
      Member ''notifier_subscriptions'' CPtr, Member ''tlb_flush_pending'' typedef_atomic_t,
      Member ''tlb_flush_batched'' (CInt 1), Member ''uprobes_state'' struct_uprobes_state,
      Member ''hugetlb_usage'' typedef_atomic64_t, Member ''async_put_work'' struct_work_struct]),
    Member ''cpu_bitmap'' (CArr 0 (CInt 8))]"

definition struct_pgprot :: ctype where
  "struct_pgprot = CStruct [
    Member ''pgprot'' (CInt 8)]"

definition struct_vm_userfaultfd_ctx :: ctype where
  "struct_vm_userfaultfd_ctx = CStruct []"

definition struct_vm_area_struct :: ctype where
  "struct_vm_area_struct = CStruct [
    Member ''vm_start'' (CInt 8), Member ''vm_end'' (CInt 8), Member ''vm_next'' CPtr,
    Member ''vm_prev'' CPtr, Member ''vm_rb'' struct_rb_node, Member ''rb_subtree_gap'' (CInt 8),
    Member ''vm_mm'' CPtr, Member ''vm_page_prot'' struct_pgprot, Member ''vm_flags'' (CInt 8),
    Member ''shared'' (CStruct [
      Member ''rb'' struct_rb_node, Member ''rb_subtree_last'' (CInt 8)]),
    Member ''anon_vma_chain'' struct_list_head, Member ''anon_vma'' CPtr, Member ''vm_ops'' CPtr,
    Member ''vm_pgoff'' (CInt 8), Member ''vm_file'' CPtr, Member ''vm_private_data'' CPtr,
    Member ''swap_readahead_info'' typedef_atomic64_t, Member ''vm_policy'' CPtr,
    Member ''vm_userfaultfd_ctx'' struct_vm_userfaultfd_ctx]"

definition struct_arch_uprobe :: ctype where
  "struct_arch_uprobe = CStruct [
    Anon (CUnion [
      Member ''insn'' (CArr 16 (CInt 1)), Member ''ixol'' (CArr 16 (CInt 1))]),
    Member ''ops'' CPtr,
    Anon (CUnion [
      Member ''branch'' (CStruct [
        Member ''offs'' (CInt 4), Member ''ilen'' (CInt 1), Member ''opc1'' (CInt 1)]),
      Member ''defparam'' (CStruct [
        Member ''fixups'' (CInt 1), Member ''ilen'' (CInt 1)]),
      Member ''push'' (CStruct [
        Member ''reg_offset'' (CInt 1), Member ''ilen'' (CInt 1)])])]"

definition struct_uprobe :: ctype where
  "struct_uprobe = CStruct [
    Member ''rb_node'' struct_rb_node, Member ''ref'' struct_refcount_struct,
    Member ''register_rwsem'' struct_rw_semaphore, Member ''consumer_rwsem'' struct_rw_semaphore,
    Member ''pending_list'' struct_list_head, Member ''consumers'' CPtr, Member ''inode'' CPtr,
    Member ''offset'' (CInt 8), Member ''ref_ctr_offset'' (CInt 8), Member ''flags'' (CInt 8),
    Member ''arch'' struct_arch_uprobe]"

definition struct_arch_uprobe_task :: ctype where
  "struct_arch_uprobe_task = CStruct [
    Member ''saved_scratch_register'' (CInt 8), Member ''saved_trap_nr'' (CInt 4),
    Member ''saved_tf'' (CInt 4)]"

definition struct_uprobe_task :: ctype where
  "struct_uprobe_task = CStruct [
    Member ''state'' (CInt 4),
    Anon (CUnion [
      Anon (CStruct [
        Member ''autask'' struct_arch_uprobe_task, Member ''vaddr'' (CInt 8)]),
      Anon (CStruct [
        Member ''dup_xol_work'' struct_callback_head, Member ''dup_xol_addr'' (CInt 8)])]),
    Member ''active_uprobe'' CPtr, Member ''xol_vaddr'' (CInt 8),
    Member ''return_instances'' CPtr, Member ''depth'' (CInt 4)]"

definition struct_uprobe_consumer :: ctype where
  "struct_uprobe_consumer = CStruct [
    Member ''handler'' CPtr, Member ''ret_handler'' CPtr, Member ''filter'' CPtr,
    Member ''next'' CPtr]"

definition struct_return_instance :: ctype where
  "struct_return_instance = CStruct [
    Member ''uprobe'' CPtr, Member ''func'' (CInt 8), Member ''stack'' (CInt 8),
    Member ''orig_ret_vaddr'' (CInt 8), Member ''chained'' (CInt 1), Member ''next'' CPtr]"

definition struct_trace_event :: ctype where
  "struct_trace_event = CStruct [
    Member ''node'' struct_hlist_node, Member ''list'' struct_list_head, Member ''type'' (CInt 4),
    Member ''funcs'' CPtr]"

definition struct_trace_event_call :: ctype where
  "struct_trace_event_call = CStruct [
    Member ''list'' struct_list_head, Member ''class'' CPtr,
    Anon (CUnion [
      Member ''name'' CPtr, Member ''tp'' CPtr]),
    Member ''event'' struct_trace_event, Member ''print_fmt'' CPtr, Member ''filter'' CPtr,
    Member ''mod'' CPtr, Member ''data'' CPtr, Member ''flags'' (CInt 4),
    Member ''perf_refcount'' (CInt 4), Member ''perf_events'' CPtr, Member ''prog_array'' CPtr,
    Member ''perf_perm'' CPtr]"

definition struct_dyn_event :: ctype where
  "struct_dyn_event = CStruct [
    Member ''list'' struct_list_head, Member ''ops'' CPtr]"

definition struct_probe_arg :: ctype where
  "struct_probe_arg = CStruct [
    Member ''code'' CPtr, Member ''dynamic'' (CInt 1), Member ''offset'' (CInt 4),
    Member ''count'' (CInt 4), Member ''name'' CPtr, Member ''comm'' CPtr, Member ''fmt'' CPtr,
    Member ''type'' CPtr]"

definition struct_trace_probe :: ctype where
  "struct_trace_probe = CStruct [
    Member ''list'' struct_list_head, Member ''event'' CPtr, Member ''size'' (CInt 8),
    Member ''nr_args'' (CInt 4), Member ''args'' (CArr 0 struct_probe_arg)]"

definition struct_trace_uprobe :: ctype where
  "struct_trace_uprobe = CStruct [
    Member ''devent'' struct_dyn_event, Member ''consumer'' struct_uprobe_consumer,
    Member ''path'' struct_path, Member ''inode'' CPtr, Member ''filename'' CPtr,
    Member ''offset'' (CInt 8), Member ''ref_ctr_offset'' (CInt 8), Member ''nhit'' (CInt 8),
    Member ''tp'' struct_trace_probe]"

definition struct_cpu_itimer :: ctype where
  "struct_cpu_itimer = CStruct [
    Member ''expires'' (CInt 8), Member ''incr'' (CInt 8)]"

definition struct_task_cputime_atomic :: ctype where
  "struct_task_cputime_atomic = CStruct [
    Member ''utime'' typedef_atomic64_t, Member ''stime'' typedef_atomic64_t,
    Member ''sum_exec_runtime'' typedef_atomic64_t]"

definition struct_thread_group_cputimer :: ctype where
  "struct_thread_group_cputimer = CStruct [
    Member ''cputime_atomic'' struct_task_cputime_atomic]"

definition typedef_seqlock_t :: ctype where
  "typedef_seqlock_t = CStruct [
    Member ''seqcount'' struct_seqcount, Member ''lock'' struct_spinlock]"

definition struct_rlimit :: ctype where
  "struct_rlimit = CStruct [
    Member ''rlim_cur'' (CInt 8), Member ''rlim_max'' (CInt 8)]"

definition struct_pacct_struct :: ctype where
  "struct_pacct_struct = CStruct [
    Member ''ac_flag'' (CInt 4), Member ''ac_exitcode'' (CInt 8), Member ''ac_mem'' (CInt 8),
    Member ''ac_utime'' (CInt 8), Member ''ac_stime'' (CInt 8), Member ''ac_minflt'' (CInt 8),
    Member ''ac_majflt'' (CInt 8)]"

definition struct_signal_struct :: ctype where
  "struct_signal_struct = CStruct [
    Member ''sigcnt'' struct_refcount_struct, Member ''live'' typedef_atomic_t,
    Member ''nr_threads'' (CInt 4), Member ''thread_head'' struct_list_head,
    Member ''wait_chldexit'' struct_wait_queue_head, Member ''curr_target'' CPtr,
    Member ''shared_pending'' struct_sigpending, Member ''multiprocess'' struct_hlist_head,
    Member ''group_exit_code'' (CInt 4), Member ''notify_count'' (CInt 4),
    Member ''group_exit_task'' CPtr, Member ''group_stop_count'' (CInt 4),
    Member ''flags'' (CInt 4), Bits ''is_child_subreaper'' 4 1, Bits ''has_child_subreaper'' 4 1,
    Member ''posix_timer_id'' (CInt 4), Member ''posix_timers'' struct_list_head,
    Member ''real_timer'' struct_hrtimer, Member ''it_real_incr'' (CInt 8),
    Member ''it'' (CArr 2 struct_cpu_itimer), Member ''cputimer'' struct_thread_group_cputimer,
    Member ''posix_cputimers'' struct_posix_cputimers, Member ''pids'' (CArr 4 CPtr),
    Member ''tty_old_pgrp'' CPtr, Member ''leader'' (CInt 4), Member ''tty'' CPtr,
    Member ''stats_lock'' typedef_seqlock_t, Member ''utime'' (CInt 8), Member ''stime'' (CInt 8),
    Member ''cutime'' (CInt 8), Member ''cstime'' (CInt 8), Member ''gtime'' (CInt 8),
    Member ''cgtime'' (CInt 8), Member ''prev_cputime'' struct_prev_cputime,
    Member ''nvcsw'' (CInt 8), Member ''nivcsw'' (CInt 8), Member ''cnvcsw'' (CInt 8),
    Member ''cnivcsw'' (CInt 8), Member ''min_flt'' (CInt 8), Member ''maj_flt'' (CInt 8),
    Member ''cmin_flt'' (CInt 8), Member ''cmaj_flt'' (CInt 8), Member ''inblock'' (CInt 8),
    Member ''oublock'' (CInt 8), Member ''cinblock'' (CInt 8), Member ''coublock'' (CInt 8),
    Member ''maxrss'' (CInt 8), Member ''cmaxrss'' (CInt 8),
    Member ''ioac'' struct_task_io_accounting, Member ''sum_sched_runtime'' (CInt 8),
    Member ''rlim'' (CArr 16 struct_rlimit), Member ''pacct'' struct_pacct_struct,
    Member ''stats'' CPtr, Member ''audit_tty'' (CInt 4), Member ''tty_audit_buf'' CPtr,
    Member ''oom_flag_origin'' (CInt 1), Member ''oom_score_adj'' (CInt 2),
    Member ''oom_score_adj_min'' (CInt 2), Member ''oom_mm'' CPtr,
    Member ''cred_guard_mutex'' struct_mutex, Member ''exec_update_mutex'' struct_mutex]"

definition typedef_kgid_t :: ctype where
  "typedef_kgid_t = CStruct [
    Member ''val'' (CInt 4)]"

definition struct_kernel_cap_struct :: ctype where
  "struct_kernel_cap_struct = CStruct [
    Member ''cap'' (CArr 2 (CInt 4))]"

definition struct_cred :: ctype where
  "struct_cred = CStruct [
    Member ''usage'' typedef_atomic_t, Member ''uid'' typedef_kuid_t,
    Member ''gid'' typedef_kgid_t, Member ''suid'' typedef_kuid_t, Member ''sgid'' typedef_kgid_t,
    Member ''euid'' typedef_kuid_t, Member ''egid'' typedef_kgid_t,
    Member ''fsuid'' typedef_kuid_t, Member ''fsgid'' typedef_kgid_t,
    Member ''securebits'' (CInt 4), Member ''cap_inheritable'' struct_kernel_cap_struct,
    Member ''cap_permitted'' struct_kernel_cap_struct,
    Member ''cap_effective'' struct_kernel_cap_struct,
    Member ''cap_bset'' struct_kernel_cap_struct, Member ''cap_ambient'' struct_kernel_cap_struct,
    Member ''jit_keyring'' (CInt 1), Member ''session_keyring'' CPtr,
    Member ''process_keyring'' CPtr, Member ''thread_keyring'' CPtr,
    Member ''request_key_auth'' CPtr, Member ''security'' CPtr, Member ''user'' CPtr,
    Member ''user_ns'' CPtr, Member ''group_info'' CPtr,
    Anon (CUnion [
      Member ''non_rcu'' (CInt 4), Member ''rcu'' struct_callback_head])]"

definition struct_qrwlock :: ctype where
  "struct_qrwlock = CStruct [
    Anon (CUnion [
      Member ''cnts'' typedef_atomic_t,
      Anon (CStruct [
        Member ''wlocked'' (CInt 1), Member ''__lstate'' (CArr 3 (CInt 1))])]),
    Member ''wait_lock'' struct_qspinlock]"

definition typedef_rwlock_t :: ctype where
  "typedef_rwlock_t = CStruct [
    Member ''raw_lock'' struct_qrwlock]"

definition struct_fown_struct :: ctype where
  "struct_fown_struct = CStruct [
    Member ''lock'' typedef_rwlock_t, Member ''pid'' CPtr, Member ''pid_type'' (CInt 4),
    Member ''uid'' typedef_kuid_t, Member ''euid'' typedef_kuid_t, Member ''signum'' (CInt 4)]"

definition struct_file_ra_state :: ctype where
  "struct_file_ra_state = CStruct [
    Member ''start'' (CInt 8), Member ''size'' (CInt 4), Member ''async_size'' (CInt 4),
    Member ''ra_pages'' (CInt 4), Member ''mmap_miss'' (CInt 4), Member ''prev_pos'' (CInt 8)]"

definition struct_file :: ctype where
  "struct_file = CStruct [
    Member ''f_u'' (CUnion [
      Member ''fu_llist'' struct_llist_node, Member ''fu_rcuhead'' struct_callback_head]),
    Member ''f_path'' struct_path, Member ''f_inode'' CPtr, Member ''f_op'' CPtr,
    Member ''f_lock'' struct_spinlock, Member ''f_write_hint'' (CInt 4),
    Member ''f_count'' typedef_atomic64_t, Member ''f_flags'' (CInt 4),
    Member ''f_mode'' (CInt 4), Member ''f_pos_lock'' struct_mutex, Member ''f_pos'' (CInt 8),
    Member ''f_owner'' struct_fown_struct, Member ''f_cred'' CPtr,
    Member ''f_ra'' struct_file_ra_state, Member ''f_version'' (CInt 8),
    Member ''f_security'' CPtr, Member ''private_data'' CPtr,
    Member ''f_ep_links'' struct_list_head, Member ''f_tfile_llink'' struct_list_head,
    Member ''f_mapping'' CPtr, Member ''f_wb_err'' (CInt 4), Member ''f_sb_err'' (CInt 4)]"

definition struct___call_single_data :: ctype where
  "struct___call_single_data = CStruct [
    Anon (CUnion [
      Member ''node'' struct___call_single_node,
      Anon (CStruct [
        Member ''llist'' struct_llist_node, Member ''flags'' (CInt 4)])]),
    Member ''func'' CPtr, Member ''info'' CPtr]"

definition struct_cfs_rq :: ctype where
  "struct_cfs_rq = CStruct [
    Member ''load'' struct_load_weight, Member ''nr_running'' (CInt 4),
    Member ''h_nr_running'' (CInt 4), Member ''idle_h_nr_running'' (CInt 4),
    Member ''exec_clock'' (CInt 8), Member ''min_vruntime'' (CInt 8),
    Member ''tasks_timeline'' struct_rb_root_cached, Member ''curr'' CPtr, Member ''next'' CPtr,
    Member ''last'' CPtr, Member ''skip'' CPtr, Bits '''' 8 64, Bits '''' 8 64, Bits '''' 8 64,
    Bits '''' 8 64, Member ''avg'' struct_sched_avg,
    Member ''removed'' (CStruct [
      Member ''lock'' struct_raw_spinlock, Member ''nr'' (CInt 4), Member ''load_avg'' (CInt 8),
      Member ''util_avg'' (CInt 8), Member ''runnable_avg'' (CInt 8), Bits '''' 8 64,
      Bits '''' 8 64, Bits '''' 8 64, Bits '''' 8 64]),
    Member ''tg_load_avg_contrib'' (CInt 8), Member ''propagate'' (CInt 8),
    Member ''prop_runnable_sum'' (CInt 8), Member ''h_load'' (CInt 8),
    Member ''last_h_load_update'' (CInt 8), Member ''h_load_next'' CPtr, Member ''rq'' CPtr,
    Member ''on_list'' (CInt 4), Member ''leaf_cfs_rq_list'' struct_list_head, Member ''tg'' CPtr,
    Bits '''' 8 64, Bits '''' 8 64, Bits '''' 8 64, Bits '''' 8 64, Bits '''' 8 64]"

definition struct_rt_prio_array :: ctype where
  "struct_rt_prio_array = CStruct [
    Member ''bitmap'' (CArr 2 (CInt 8)), Member ''queue'' (CArr 100 struct_list_head)]"

definition struct_plist_head :: ctype where
  "struct_plist_head = CStruct [
    Member ''node_list'' struct_list_head]"

definition struct_rt_rq :: ctype where
  "struct_rt_rq = CStruct [
    Member ''active'' struct_rt_prio_array, Member ''rt_nr_running'' (CInt 4),
    Member ''rr_nr_running'' (CInt 4),
    Member ''highest_prio'' (CStruct [
      Member ''curr'' (CInt 4), Member ''next'' (CInt 4)]),
    Member ''rt_nr_migratory'' (CInt 8), Member ''rt_nr_total'' (CInt 8),
    Member ''overloaded'' (CInt 4), Member ''pushable_tasks'' struct_plist_head,
    Member ''rt_queued'' (CInt 4), Member ''rt_throttled'' (CInt 4), Member ''rt_time'' (CInt 8),
    Member ''rt_runtime'' (CInt 8), Member ''rt_runtime_lock'' struct_raw_spinlock]"

definition struct_dl_rq :: ctype where
  "struct_dl_rq = CStruct [
    Member ''root'' struct_rb_root_cached, Member ''dl_nr_running'' (CInt 8),
    Member ''earliest_dl'' (CStruct [
      Member ''curr'' (CInt 8), Member ''next'' (CInt 8)]),
    Member ''dl_nr_migratory'' (CInt 8), Member ''overloaded'' (CInt 4),
    Member ''pushable_dl_tasks_root'' struct_rb_root_cached, Member ''running_bw'' (CInt 8),
    Member ''this_bw'' (CInt 8), Member ''extra_bw'' (CInt 8), Member ''bw_ratio'' (CInt 8)]"

definition struct_cpu_stop_work :: ctype where
  "struct_cpu_stop_work = CStruct [
    Member ''list'' struct_list_head, Member ''fn'' CPtr, Member ''arg'' CPtr,
    Member ''done'' CPtr]"

definition struct_rq :: ctype where
  "struct_rq = CStruct [
    Member ''lock'' struct_raw_spinlock, Member ''nr_running'' (CInt 4),
    Member ''last_blocked_load_update_tick'' (CInt 8), Member ''has_blocked_load'' (CInt 4),
    Bits '''' 8 32, Bits '''' 8 64, Member ''nohz_csd'' struct___call_single_data,
    Member ''nohz_tick_stopped'' (CInt 4), Member ''nohz_flags'' typedef_atomic_t,
    Member ''ttwu_pending'' (CInt 4), Member ''nr_switches'' (CInt 8), Bits '''' 8 64,
    Bits '''' 8 64, Bits '''' 8 64, Bits '''' 8 64, Bits '''' 8 64, Member ''cfs'' struct_cfs_rq,
    Member ''rt'' struct_rt_rq, Member ''dl'' struct_dl_rq,
    Member ''leaf_cfs_rq_list'' struct_list_head, Member ''tmp_alone_branch'' CPtr,
    Member ''nr_uninterruptible'' (CInt 8), Member ''curr'' CPtr, Member ''idle'' CPtr,
    Member ''stop'' CPtr, Member ''next_balance'' (CInt 8), Member ''prev_mm'' CPtr,
    Member ''clock_update_flags'' (CInt 4), Member ''clock'' (CInt 8), Bits '''' 8 64,
    Bits '''' 8 64, Bits '''' 8 64, Member ''clock_task'' (CInt 8),
    Member ''clock_pelt'' (CInt 8), Member ''lost_idle_time'' (CInt 8),
    Member ''nr_iowait'' typedef_atomic_t, Member ''membarrier_state'' (CInt 4),
    Member ''rd'' CPtr, Member ''sd'' CPtr, Member ''cpu_capacity'' (CInt 8),
    Member ''cpu_capacity_orig'' (CInt 8), Member ''balance_callback'' CPtr,
    Member ''nohz_idle_balance'' (CInt 1), Member ''idle_balance'' (CInt 1),
    Member ''misfit_task_load'' (CInt 8), Member ''active_balance'' (CInt 4),
    Member ''push_cpu'' (CInt 4), Member ''active_balance_work'' struct_cpu_stop_work,
    Member ''cpu'' (CInt 4), Member ''online'' (CInt 4), Member ''cfs_tasks'' struct_list_head,
    Bits '''' 8 64, Bits '''' 8 64, Bits '''' 8 64, Bits '''' 8 64,
    Member ''avg_rt'' struct_sched_avg, Member ''avg_dl'' struct_sched_avg,
    Member ''idle_stamp'' (CInt 8), Member ''avg_idle'' (CInt 8),
    Member ''max_idle_balance_cost'' (CInt 8), Member ''calc_load_update'' (CInt 8),
    Member ''calc_load_active'' (CInt 8), Bits '''' 8 64, Bits '''' 8 64, Bits '''' 8 64,
    Member ''hrtick_csd'' struct___call_single_data, Member ''hrtick_timer'' struct_hrtimer,
    Member ''rq_sched_info'' struct_sched_info, Member ''rq_cpu_time'' (CInt 8),
    Member ''yld_count'' (CInt 4), Member ''sched_count'' (CInt 4),
    Member ''sched_goidle'' (CInt 4), Member ''ttwu_count'' (CInt 4),
    Member ''ttwu_local'' (CInt 4), Member ''idle_state'' CPtr, Bits '''' 8 64, Bits '''' 8 64,
    Bits '''' 8 64]"

definition struct_elf64_hdr :: ctype where
  "struct_elf64_hdr = CStruct [
    Member ''e_ident'' (CArr 16 (CInt 1)), Member ''e_type'' (CInt 2),
    Member ''e_machine'' (CInt 2), Member ''e_version'' (CInt 4), Member ''e_entry'' (CInt 8),
    Member ''e_phoff'' (CInt 8), Member ''e_shoff'' (CInt 8), Member ''e_flags'' (CInt 4),
    Member ''e_ehsize'' (CInt 2), Member ''e_phentsize'' (CInt 2), Member ''e_phnum'' (CInt 2),
    Member ''e_shentsize'' (CInt 2), Member ''e_shnum'' (CInt 2), Member ''e_shstrndx'' (CInt 2)]"

definition struct_elf64_shdr :: ctype where
  "struct_elf64_shdr = CStruct [
    Member ''sh_name'' (CInt 4), Member ''sh_type'' (CInt 4), Member ''sh_flags'' (CInt 8),
    Member ''sh_addr'' (CInt 8), Member ''sh_offset'' (CInt 8), Member ''sh_size'' (CInt 8),
    Member ''sh_link'' (CInt 4), Member ''sh_info'' (CInt 4), Member ''sh_addralign'' (CInt 8),
    Member ''sh_entsize'' (CInt 8)]"

definition struct_elf64_sym :: ctype where
  "struct_elf64_sym = CStruct [
    Member ''st_name'' (CInt 4), Member ''st_info'' (CInt 1), Member ''st_other'' (CInt 1),
    Member ''st_shndx'' (CInt 2), Member ''st_value'' (CInt 8), Member ''st_size'' (CInt 8)]"

definition struct_elf64_phdr :: ctype where
  "struct_elf64_phdr = CStruct [
    Member ''p_type'' (CInt 4), Member ''p_flags'' (CInt 4), Member ''p_offset'' (CInt 8),
    Member ''p_vaddr'' (CInt 8), Member ''p_paddr'' (CInt 8), Member ''p_filesz'' (CInt 8),
    Member ''p_memsz'' (CInt 8), Member ''p_align'' (CInt 8)]"

text \<open>The declarations of this theory.\<close>

lemmas kernel_task_defs =
  struct_thread_info_def
  struct_load_weight_def
  struct_sched_statistics_def
  struct_util_est_def
  struct_sched_avg_def
  struct_sched_entity_def
  struct_sched_rt_entity_def
  struct_sched_dl_entity_def
  struct_cpumask_def
  struct_sched_info_def
  struct_plist_node_def
  struct_vmacache_def
  struct_task_rss_stat_def
  struct_restart_block_def
  struct_prev_cputime_def
  struct_rb_root_cached_def
  struct_timerqueue_head_def
  struct_posix_cputimer_base_def
  struct_posix_cputimers_def
  struct_sysv_sem_def
  struct_sysv_shm_def
  typedef_sigset_t_def
  struct_sigpending_def
  typedef_kuid_t_def
  struct_seccomp_def
  struct_wake_q_node_def
  struct_task_io_accounting_def
  typedef_nodemask_t_def
  struct_seqcount_def
  struct_arch_tlbflush_unmap_batch_def
  struct_tlbflush_unmap_batch_def
  struct_page_frag_def
  struct_desc_struct_def
  typedef_mm_segment_t_def
  struct_fregs_state_def
  struct_fxregs_state_def
  struct_swregs_state_def
  struct_xstate_header_def
  struct_xregs_state_def
  union_fpregs_state_def
  struct_fpu_def
  struct_thread_struct_def
  struct_task_struct_def
  struct_rw_semaphore_def
  struct_mm_rss_stat_def
  typedef_mm_context_t_def
  struct_uprobes_state_def
  struct_mm_struct_def
  struct_pgprot_def
  struct_vm_userfaultfd_ctx_def
  struct_vm_area_struct_def
  struct_arch_uprobe_def
  struct_uprobe_def
  struct_arch_uprobe_task_def
  struct_uprobe_task_def
  struct_uprobe_consumer_def
  struct_return_instance_def
  struct_trace_event_def
  struct_trace_event_call_def
  struct_dyn_event_def
  struct_probe_arg_def
  struct_trace_probe_def
  struct_trace_uprobe_def
  struct_cpu_itimer_def
  struct_task_cputime_atomic_def
  struct_thread_group_cputimer_def
  typedef_seqlock_t_def
  struct_rlimit_def
  struct_pacct_struct_def
  struct_signal_struct_def
  typedef_kgid_t_def
  struct_kernel_cap_struct_def
  struct_cred_def
  struct_qrwlock_def
  typedef_rwlock_t_def
  struct_fown_struct_def
  struct_file_ra_state_def
  struct_file_def
  struct___call_single_data_def
  struct_cfs_rq_def
  struct_rt_prio_array_def
  struct_plist_head_def
  struct_rt_rq_def
  struct_dl_rq_def
  struct_cpu_stop_work_def
  struct_rq_def
  struct_elf64_hdr_def
  struct_elf64_shdr_def
  struct_elf64_sym_def
  struct_elf64_phdr_def

definition kernel_task_types :: "ctype list" where
  "kernel_task_types = [
    struct_thread_info,
    struct_load_weight,
    struct_sched_statistics,
    struct_util_est,
    struct_sched_avg,
    struct_sched_entity,
    struct_sched_rt_entity,
    struct_sched_dl_entity,
    struct_cpumask,
    struct_sched_info,
    struct_plist_node,
    struct_vmacache,
    struct_task_rss_stat,
    struct_restart_block,
    struct_prev_cputime,
    struct_rb_root_cached,
    struct_timerqueue_head,
    struct_posix_cputimer_base,
    struct_posix_cputimers,
    struct_sysv_sem,
    struct_sysv_shm,
    typedef_sigset_t,
    struct_sigpending,
    typedef_kuid_t,
    struct_seccomp,
    struct_wake_q_node,
    struct_task_io_accounting,
    typedef_nodemask_t,
    struct_seqcount,
    struct_arch_tlbflush_unmap_batch,
    struct_tlbflush_unmap_batch,
    struct_page_frag,
    struct_desc_struct,
    typedef_mm_segment_t,
    struct_fregs_state,
    struct_fxregs_state,
    struct_swregs_state,
    struct_xstate_header,
    struct_xregs_state,
    union_fpregs_state,
    struct_fpu,
    struct_thread_struct,
    struct_task_struct,
    struct_rw_semaphore,
    struct_mm_rss_stat,
    typedef_mm_context_t,
    struct_uprobes_state,
    struct_mm_struct,
    struct_pgprot,
    struct_vm_userfaultfd_ctx,
    struct_vm_area_struct,
    struct_arch_uprobe,
    struct_uprobe,
    struct_arch_uprobe_task,
    struct_uprobe_task,
    struct_uprobe_consumer,
    struct_return_instance,
    struct_trace_event,
    struct_trace_event_call,
    struct_dyn_event,
    struct_probe_arg,
    struct_trace_probe,
    struct_trace_uprobe,
    struct_cpu_itimer,
    struct_task_cputime_atomic,
    struct_thread_group_cputimer,
    typedef_seqlock_t,
    struct_rlimit,
    struct_pacct_struct,
    struct_signal_struct,
    typedef_kgid_t,
    struct_kernel_cap_struct,
    struct_cred,
    struct_qrwlock,
    typedef_rwlock_t,
    struct_fown_struct,
    struct_file_ra_state,
    struct_file,
    struct___call_single_data,
    struct_cfs_rq,
    struct_rt_prio_array,
    struct_plist_head,
    struct_rt_rq,
    struct_dl_rq,
    struct_cpu_stop_work,
    struct_rq,
    struct_elf64_hdr,
    struct_elf64_shdr,
    struct_elf64_sym,
    struct_elf64_phdr]"


end
