(* ===== verification/KernelEnums.thy ===== *)
theory KernelEnums
  imports KernelTask
begin

text \<open>
  The enumerations of vmlinux.h the program and its loader use: map, program and attach types,
  helper numbers, the commands of the \<open>bpf\<close> system call, and the types, software events and sample
  formats of perf events. Each is the list of its enumerators with their values, in order.
\<close>

type_synonym enumerators = "(string \<times> int) list"

definition enum_bpf_map_type :: enumerators where
  "enum_bpf_map_type = [
    (''BPF_MAP_TYPE_UNSPEC'', 0), (''BPF_MAP_TYPE_HASH'', 1), (''BPF_MAP_TYPE_ARRAY'', 2),
    (''BPF_MAP_TYPE_PROG_ARRAY'', 3), (''BPF_MAP_TYPE_PERF_EVENT_ARRAY'', 4),
    (''BPF_MAP_TYPE_PERCPU_HASH'', 5), (''BPF_MAP_TYPE_PERCPU_ARRAY'', 6),
    (''BPF_MAP_TYPE_STACK_TRACE'', 7), (''BPF_MAP_TYPE_CGROUP_ARRAY'', 8),
    (''BPF_MAP_TYPE_LRU_HASH'', 9), (''BPF_MAP_TYPE_LRU_PERCPU_HASH'', 10),
    (''BPF_MAP_TYPE_LPM_TRIE'', 11), (''BPF_MAP_TYPE_ARRAY_OF_MAPS'', 12),
    (''BPF_MAP_TYPE_HASH_OF_MAPS'', 13), (''BPF_MAP_TYPE_DEVMAP'', 14),
    (''BPF_MAP_TYPE_SOCKMAP'', 15), (''BPF_MAP_TYPE_CPUMAP'', 16), (''BPF_MAP_TYPE_XSKMAP'', 17),
    (''BPF_MAP_TYPE_SOCKHASH'', 18), (''BPF_MAP_TYPE_CGROUP_STORAGE'', 19),
    (''BPF_MAP_TYPE_REUSEPORT_SOCKARRAY'', 20), (''BPF_MAP_TYPE_PERCPU_CGROUP_STORAGE'', 21),
    (''BPF_MAP_TYPE_QUEUE'', 22), (''BPF_MAP_TYPE_STACK'', 23), (''BPF_MAP_TYPE_SK_STORAGE'', 24),
    (''BPF_MAP_TYPE_DEVMAP_HASH'', 25), (''BPF_MAP_TYPE_STRUCT_OPS'', 26),
    (''BPF_MAP_TYPE_RINGBUF'', 27)]"

definition enum_bpf_func_id :: enumerators where
  "enum_bpf_func_id = [
    (''BPF_FUNC_unspec'', 0), (''BPF_FUNC_map_lookup_elem'', 1),
    (''BPF_FUNC_map_update_elem'', 2), (''BPF_FUNC_map_delete_elem'', 3),
    (''BPF_FUNC_probe_read'', 4), (''BPF_FUNC_ktime_get_ns'', 5), (''BPF_FUNC_trace_printk'', 6),
    (''BPF_FUNC_get_prandom_u32'', 7), (''BPF_FUNC_get_smp_processor_id'', 8),
    (''BPF_FUNC_skb_store_bytes'', 9), (''BPF_FUNC_l3_csum_replace'', 10),
    (''BPF_FUNC_l4_csum_replace'', 11), (''BPF_FUNC_tail_call'', 12),
    (''BPF_FUNC_clone_redirect'', 13), (''BPF_FUNC_get_current_pid_tgid'', 14),
    (''BPF_FUNC_get_current_uid_gid'', 15), (''BPF_FUNC_get_current_comm'', 16),
    (''BPF_FUNC_get_cgroup_classid'', 17), (''BPF_FUNC_skb_vlan_push'', 18),
    (''BPF_FUNC_skb_vlan_pop'', 19), (''BPF_FUNC_skb_get_tunnel_key'', 20),
    (''BPF_FUNC_skb_set_tunnel_key'', 21), (''BPF_FUNC_perf_event_read'', 22),
    (''BPF_FUNC_redirect'', 23), (''BPF_FUNC_get_route_realm'', 24),
    (''BPF_FUNC_perf_event_output'', 25), (''BPF_FUNC_skb_load_bytes'', 26),
    (''BPF_FUNC_get_stackid'', 27), (''BPF_FUNC_csum_diff'', 28),
    (''BPF_FUNC_skb_get_tunnel_opt'', 29), (''BPF_FUNC_skb_set_tunnel_opt'', 30),
    (''BPF_FUNC_skb_change_proto'', 31), (''BPF_FUNC_skb_change_type'', 32),
    (''BPF_FUNC_skb_under_cgroup'', 33), (''BPF_FUNC_get_hash_recalc'', 34),
    (''BPF_FUNC_get_current_task'', 35), (''BPF_FUNC_probe_write_user'', 36),
    (''BPF_FUNC_current_task_under_cgroup'', 37), (''BPF_FUNC_skb_change_tail'', 38),
    (''BPF_FUNC_skb_pull_data'', 39), (''BPF_FUNC_csum_update'', 40),
    (''BPF_FUNC_set_hash_invalid'', 41), (''BPF_FUNC_get_numa_node_id'', 42),
    (''BPF_FUNC_skb_change_head'', 43), (''BPF_FUNC_xdp_adjust_head'', 44),
    (''BPF_FUNC_probe_read_str'', 45), (''BPF_FUNC_get_socket_cookie'', 46),
    (''BPF_FUNC_get_socket_uid'', 47), (''BPF_FUNC_set_hash'', 48), (''BPF_FUNC_setsockopt'', 49),
    (''BPF_FUNC_skb_adjust_room'', 50), (''BPF_FUNC_redirect_map'', 51),
    (''BPF_FUNC_sk_redirect_map'', 52), (''BPF_FUNC_sock_map_update'', 53),
    (''BPF_FUNC_xdp_adjust_meta'', 54), (''BPF_FUNC_perf_event_read_value'', 55),
    (''BPF_FUNC_perf_prog_read_value'', 56), (''BPF_FUNC_getsockopt'', 57),
    (''BPF_FUNC_override_return'', 58), (''BPF_FUNC_sock_ops_cb_flags_set'', 59),
    (''BPF_FUNC_msg_redirect_map'', 60), (''BPF_FUNC_msg_apply_bytes'', 61),
    (''BPF_FUNC_msg_cork_bytes'', 62), (''BPF_FUNC_msg_pull_data'', 63), (''BPF_FUNC_bind'', 64),
    (''BPF_FUNC_xdp_adjust_tail'', 65), (''BPF_FUNC_skb_get_xfrm_state'', 66),
    (''BPF_FUNC_get_stack'', 67), (''BPF_FUNC_skb_load_bytes_relative'', 68),
    (''BPF_FUNC_fib_lookup'', 69), (''BPF_FUNC_sock_hash_update'', 70),
    (''BPF_FUNC_msg_redirect_hash'', 71), (''BPF_FUNC_sk_redirect_hash'', 72),
    (''BPF_FUNC_lwt_push_encap'', 73), (''BPF_FUNC_lwt_seg6_store_bytes'', 74),
    (''BPF_FUNC_lwt_seg6_adjust_srh'', 75), (''BPF_FUNC_lwt_seg6_action'', 76),
    (''BPF_FUNC_rc_repeat'', 77), (''BPF_FUNC_rc_keydown'', 78), (''BPF_FUNC_skb_cgroup_id'', 79),
    (''BPF_FUNC_get_current_cgroup_id'', 80), (''BPF_FUNC_get_local_storage'', 81),
    (''BPF_FUNC_sk_select_reuseport'', 82), (''BPF_FUNC_skb_ancestor_cgroup_id'', 83),
    (''BPF_FUNC_sk_lookup_tcp'', 84), (''BPF_FUNC_sk_lookup_udp'', 85),
    (''BPF_FUNC_sk_release'', 86), (''BPF_FUNC_map_push_elem'', 87),
    (''BPF_FUNC_map_pop_elem'', 88), (''BPF_FUNC_map_peek_elem'', 89),
    (''BPF_FUNC_msg_push_data'', 90), (''BPF_FUNC_msg_pop_data'', 91),
    (''BPF_FUNC_rc_pointer_rel'', 92), (''BPF_FUNC_spin_lock'', 93),
    (''BPF_FUNC_spin_unlock'', 94), (''BPF_FUNC_sk_fullsock'', 95), (''BPF_FUNC_tcp_sock'', 96),
    (''BPF_FUNC_skb_ecn_set_ce'', 97), (''BPF_FUNC_get_listener_sock'', 98),
    (''BPF_FUNC_skc_lookup_tcp'', 99), (''BPF_FUNC_tcp_check_syncookie'', 100),
    (''BPF_FUNC_sysctl_get_name'', 101), (''BPF_FUNC_sysctl_get_current_value'', 102),
    (''BPF_FUNC_sysctl_get_new_value'', 103), (''BPF_FUNC_sysctl_set_new_value'', 104),
    (''BPF_FUNC_strtol'', 105), (''BPF_FUNC_strtoul'', 106), (''BPF_FUNC_sk_storage_get'', 107),
    (''BPF_FUNC_sk_storage_delete'', 108), (''BPF_FUNC_send_signal'', 109),
    (''BPF_FUNC_tcp_gen_syncookie'', 110), (''BPF_FUNC_skb_output'', 111),
    (''BPF_FUNC_probe_read_user'', 112), (''BPF_FUNC_probe_read_kernel'', 113),
    (''BPF_FUNC_probe_read_user_str'', 114), (''BPF_FUNC_probe_read_kernel_str'', 115),
    (''BPF_FUNC_tcp_send_ack'', 116), (''BPF_FUNC_send_signal_thread'', 117),
    (''BPF_FUNC_jiffies64'', 118), (''BPF_FUNC_read_branch_records'', 119),
    (''BPF_FUNC_get_ns_current_pid_tgid'', 120), (''BPF_FUNC_xdp_output'', 121),
    (''BPF_FUNC_get_netns_cookie'', 122), (''BPF_FUNC_get_current_ancestor_cgroup_id'', 123),
    (''BPF_FUNC_sk_assign'', 124), (''BPF_FUNC_ktime_get_boot_ns'', 125),
    (''BPF_FUNC_seq_printf'', 126), (''BPF_FUNC_seq_write'', 127),
    (''BPF_FUNC_sk_cgroup_id'', 128), (''BPF_FUNC_sk_ancestor_cgroup_id'', 129),
    (''BPF_FUNC_ringbuf_output'', 130), (''BPF_FUNC_ringbuf_reserve'', 131),
    (''BPF_FUNC_ringbuf_submit'', 132), (''BPF_FUNC_ringbuf_discard'', 133),
    (''BPF_FUNC_ringbuf_query'', 134), (''BPF_FUNC_csum_level'', 135),
    (''__BPF_FUNC_MAX_ID'', 136)]"

definition enum_bpf_prog_type :: enumerators where
  "enum_bpf_prog_type = [
    (''BPF_PROG_TYPE_UNSPEC'', 0), (''BPF_PROG_TYPE_SOCKET_FILTER'', 1),
    (''BPF_PROG_TYPE_KPROBE'', 2), (''BPF_PROG_TYPE_SCHED_CLS'', 3),
    (''BPF_PROG_TYPE_SCHED_ACT'', 4), (''BPF_PROG_TYPE_TRACEPOINT'', 5),
    (''BPF_PROG_TYPE_XDP'', 6), (''BPF_PROG_TYPE_PERF_EVENT'', 7),
    (''BPF_PROG_TYPE_CGROUP_SKB'', 8), (''BPF_PROG_TYPE_CGROUP_SOCK'', 9),
    (''BPF_PROG_TYPE_LWT_IN'', 10), (''BPF_PROG_TYPE_LWT_OUT'', 11),
    (''BPF_PROG_TYPE_LWT_XMIT'', 12), (''BPF_PROG_TYPE_SOCK_OPS'', 13),
    (''BPF_PROG_TYPE_SK_SKB'', 14), (''BPF_PROG_TYPE_CGROUP_DEVICE'', 15),
    (''BPF_PROG_TYPE_SK_MSG'', 16), (''BPF_PROG_TYPE_RAW_TRACEPOINT'', 17),
    (''BPF_PROG_TYPE_CGROUP_SOCK_ADDR'', 18), (''BPF_PROG_TYPE_LWT_SEG6LOCAL'', 19),
    (''BPF_PROG_TYPE_LIRC_MODE2'', 20), (''BPF_PROG_TYPE_SK_REUSEPORT'', 21),
    (''BPF_PROG_TYPE_FLOW_DISSECTOR'', 22), (''BPF_PROG_TYPE_CGROUP_SYSCTL'', 23),
    (''BPF_PROG_TYPE_RAW_TRACEPOINT_WRITABLE'', 24), (''BPF_PROG_TYPE_CGROUP_SOCKOPT'', 25),
    (''BPF_PROG_TYPE_TRACING'', 26), (''BPF_PROG_TYPE_STRUCT_OPS'', 27),
    (''BPF_PROG_TYPE_EXT'', 28), (''BPF_PROG_TYPE_LSM'', 29)]"

definition enum_bpf_attach_type :: enumerators where
  "enum_bpf_attach_type = [
    (''BPF_CGROUP_INET_INGRESS'', 0), (''BPF_CGROUP_INET_EGRESS'', 1),
    (''BPF_CGROUP_INET_SOCK_CREATE'', 2), (''BPF_CGROUP_SOCK_OPS'', 3),
    (''BPF_SK_SKB_STREAM_PARSER'', 4), (''BPF_SK_SKB_STREAM_VERDICT'', 5),
    (''BPF_CGROUP_DEVICE'', 6), (''BPF_SK_MSG_VERDICT'', 7), (''BPF_CGROUP_INET4_BIND'', 8),
    (''BPF_CGROUP_INET6_BIND'', 9), (''BPF_CGROUP_INET4_CONNECT'', 10),
    (''BPF_CGROUP_INET6_CONNECT'', 11), (''BPF_CGROUP_INET4_POST_BIND'', 12),
    (''BPF_CGROUP_INET6_POST_BIND'', 13), (''BPF_CGROUP_UDP4_SENDMSG'', 14),
    (''BPF_CGROUP_UDP6_SENDMSG'', 15), (''BPF_LIRC_MODE2'', 16), (''BPF_FLOW_DISSECTOR'', 17),
    (''BPF_CGROUP_SYSCTL'', 18), (''BPF_CGROUP_UDP4_RECVMSG'', 19),
    (''BPF_CGROUP_UDP6_RECVMSG'', 20), (''BPF_CGROUP_GETSOCKOPT'', 21),
    (''BPF_CGROUP_SETSOCKOPT'', 22), (''BPF_TRACE_RAW_TP'', 23), (''BPF_TRACE_FENTRY'', 24),
    (''BPF_TRACE_FEXIT'', 25), (''BPF_MODIFY_RETURN'', 26), (''BPF_LSM_MAC'', 27),
    (''BPF_TRACE_ITER'', 28), (''BPF_CGROUP_INET4_GETPEERNAME'', 29),
    (''BPF_CGROUP_INET6_GETPEERNAME'', 30), (''BPF_CGROUP_INET4_GETSOCKNAME'', 31),
    (''BPF_CGROUP_INET6_GETSOCKNAME'', 32), (''BPF_XDP_DEVMAP'', 33),
    (''__MAX_BPF_ATTACH_TYPE'', 34)]"

definition enum_bpf_cmd :: enumerators where
  "enum_bpf_cmd = [
    (''BPF_MAP_CREATE'', 0), (''BPF_MAP_LOOKUP_ELEM'', 1), (''BPF_MAP_UPDATE_ELEM'', 2),
    (''BPF_MAP_DELETE_ELEM'', 3), (''BPF_MAP_GET_NEXT_KEY'', 4), (''BPF_PROG_LOAD'', 5),
    (''BPF_OBJ_PIN'', 6), (''BPF_OBJ_GET'', 7), (''BPF_PROG_ATTACH'', 8),
    (''BPF_PROG_DETACH'', 9), (''BPF_PROG_TEST_RUN'', 10), (''BPF_PROG_GET_NEXT_ID'', 11),
    (''BPF_MAP_GET_NEXT_ID'', 12), (''BPF_PROG_GET_FD_BY_ID'', 13),
    (''BPF_MAP_GET_FD_BY_ID'', 14), (''BPF_OBJ_GET_INFO_BY_FD'', 15), (''BPF_PROG_QUERY'', 16),
    (''BPF_RAW_TRACEPOINT_OPEN'', 17), (''BPF_BTF_LOAD'', 18), (''BPF_BTF_GET_FD_BY_ID'', 19),
    (''BPF_TASK_FD_QUERY'', 20), (''BPF_MAP_LOOKUP_AND_DELETE_ELEM'', 21),
    (''BPF_MAP_FREEZE'', 22), (''BPF_BTF_GET_NEXT_ID'', 23), (''BPF_MAP_LOOKUP_BATCH'', 24),
    (''BPF_MAP_LOOKUP_AND_DELETE_BATCH'', 25), (''BPF_MAP_UPDATE_BATCH'', 26),
    (''BPF_MAP_DELETE_BATCH'', 27), (''BPF_LINK_CREATE'', 28), (''BPF_LINK_UPDATE'', 29),
    (''BPF_LINK_GET_FD_BY_ID'', 30), (''BPF_LINK_GET_NEXT_ID'', 31), (''BPF_ENABLE_STATS'', 32),
    (''BPF_ITER_CREATE'', 33)]"

definition enum_bpf_arg_type :: enumerators where
  "enum_bpf_arg_type = [
    (''ARG_DONTCARE'', 0), (''ARG_CONST_MAP_PTR'', 1), (''ARG_PTR_TO_MAP_KEY'', 2),
    (''ARG_PTR_TO_MAP_VALUE'', 3), (''ARG_PTR_TO_UNINIT_MAP_VALUE'', 4),
    (''ARG_PTR_TO_MAP_VALUE_OR_NULL'', 5), (''ARG_PTR_TO_MEM'', 6),
    (''ARG_PTR_TO_MEM_OR_NULL'', 7), (''ARG_PTR_TO_UNINIT_MEM'', 8), (''ARG_CONST_SIZE'', 9),
    (''ARG_CONST_SIZE_OR_ZERO'', 10), (''ARG_PTR_TO_CTX'', 11), (''ARG_PTR_TO_CTX_OR_NULL'', 12),
    (''ARG_ANYTHING'', 13), (''ARG_PTR_TO_SPIN_LOCK'', 14), (''ARG_PTR_TO_SOCK_COMMON'', 15),
    (''ARG_PTR_TO_INT'', 16), (''ARG_PTR_TO_LONG'', 17), (''ARG_PTR_TO_SOCKET'', 18),
    (''ARG_PTR_TO_BTF_ID'', 19), (''ARG_PTR_TO_ALLOC_MEM'', 20),
    (''ARG_PTR_TO_ALLOC_MEM_OR_NULL'', 21), (''ARG_CONST_ALLOC_SIZE_OR_ZERO'', 22)]"

definition enum_bpf_return_type :: enumerators where
  "enum_bpf_return_type = [
    (''RET_INTEGER'', 0), (''RET_VOID'', 1), (''RET_PTR_TO_MAP_VALUE'', 2),
    (''RET_PTR_TO_MAP_VALUE_OR_NULL'', 3), (''RET_PTR_TO_SOCKET_OR_NULL'', 4),
    (''RET_PTR_TO_TCP_SOCK_OR_NULL'', 5), (''RET_PTR_TO_SOCK_COMMON_OR_NULL'', 6),
    (''RET_PTR_TO_ALLOC_MEM_OR_NULL'', 7)]"

definition enum_bpf_access_type :: enumerators where
  "enum_bpf_access_type = [
    (''BPF_READ'', 1), (''BPF_WRITE'', 2)]"

definition enum_bpf_reg_type :: enumerators where
  "enum_bpf_reg_type = [
    (''NOT_INIT'', 0), (''SCALAR_VALUE'', 1), (''PTR_TO_CTX'', 2), (''CONST_PTR_TO_MAP'', 3),
    (''PTR_TO_MAP_VALUE'', 4), (''PTR_TO_MAP_VALUE_OR_NULL'', 5), (''PTR_TO_STACK'', 6),
    (''PTR_TO_PACKET_META'', 7), (''PTR_TO_PACKET'', 8), (''PTR_TO_PACKET_END'', 9),
    (''PTR_TO_FLOW_KEYS'', 10), (''PTR_TO_SOCKET'', 11), (''PTR_TO_SOCKET_OR_NULL'', 12),
    (''PTR_TO_SOCK_COMMON'', 13), (''PTR_TO_SOCK_COMMON_OR_NULL'', 14), (''PTR_TO_TCP_SOCK'', 15),
    (''PTR_TO_TCP_SOCK_OR_NULL'', 16), (''PTR_TO_TP_BUFFER'', 17), (''PTR_TO_XDP_SOCK'', 18),
    (''PTR_TO_BTF_ID'', 19), (''PTR_TO_BTF_ID_OR_NULL'', 20), (''PTR_TO_MEM'', 21),
    (''PTR_TO_MEM_OR_NULL'', 22)]"

definition enum_bpf_link_type :: enumerators where
  "enum_bpf_link_type = [
    (''BPF_LINK_TYPE_UNSPEC'', 0), (''BPF_LINK_TYPE_RAW_TRACEPOINT'', 1),
    (''BPF_LINK_TYPE_TRACING'', 2), (''BPF_LINK_TYPE_CGROUP'', 3), (''BPF_LINK_TYPE_ITER'', 4),
    (''BPF_LINK_TYPE_NETNS'', 5), (''MAX_BPF_LINK_TYPE'', 6)]"

definition enum_bpf_task_fd_type :: enumerators where
  "enum_bpf_task_fd_type = [
    (''BPF_FD_TYPE_RAW_TRACEPOINT'', 0), (''BPF_FD_TYPE_TRACEPOINT'', 1),
    (''BPF_FD_TYPE_KPROBE'', 2), (''BPF_FD_TYPE_KRETPROBE'', 3), (''BPF_FD_TYPE_UPROBE'', 4),
    (''BPF_FD_TYPE_URETPROBE'', 5)]"

definition enum_bpf_stack_build_id_status :: enumerators where
  "enum_bpf_stack_build_id_status = [
    (''BPF_STACK_BUILD_ID_EMPTY'', 0), (''BPF_STACK_BUILD_ID_VALID'', 1),
    (''BPF_STACK_BUILD_ID_IP'', 2)]"

definition enum_bpf_cgroup_storage_type :: enumerators where
  "enum_bpf_cgroup_storage_type = [
    (''BPF_CGROUP_STORAGE_SHARED'', 0), (''BPF_CGROUP_STORAGE_PERCPU'', 1),
    (''__BPF_CGROUP_STORAGE_MAX'', 2)]"

definition enum_perf_type_id :: enumerators where
  "enum_perf_type_id = [
    (''PERF_TYPE_HARDWARE'', 0), (''PERF_TYPE_SOFTWARE'', 1), (''PERF_TYPE_TRACEPOINT'', 2),
    (''PERF_TYPE_HW_CACHE'', 3), (''PERF_TYPE_RAW'', 4), (''PERF_TYPE_BREAKPOINT'', 5),
    (''PERF_TYPE_MAX'', 6)]"

definition enum_perf_sw_ids :: enumerators where
  "enum_perf_sw_ids = [
    (''PERF_COUNT_SW_CPU_CLOCK'', 0), (''PERF_COUNT_SW_TASK_CLOCK'', 1),
    (''PERF_COUNT_SW_PAGE_FAULTS'', 2), (''PERF_COUNT_SW_CONTEXT_SWITCHES'', 3),
    (''PERF_COUNT_SW_CPU_MIGRATIONS'', 4), (''PERF_COUNT_SW_PAGE_FAULTS_MIN'', 5),
    (''PERF_COUNT_SW_PAGE_FAULTS_MAJ'', 6), (''PERF_COUNT_SW_ALIGNMENT_FAULTS'', 7),
    (''PERF_COUNT_SW_EMULATION_FAULTS'', 8), (''PERF_COUNT_SW_DUMMY'', 9),
    (''PERF_COUNT_SW_BPF_OUTPUT'', 10), (''PERF_COUNT_SW_MAX'', 11)]"

definition enum_perf_hw_id :: enumerators where
  "enum_perf_hw_id = [
    (''PERF_COUNT_HW_CPU_CYCLES'', 0), (''PERF_COUNT_HW_INSTRUCTIONS'', 1),
    (''PERF_COUNT_HW_CACHE_REFERENCES'', 2), (''PERF_COUNT_HW_CACHE_MISSES'', 3),
    (''PERF_COUNT_HW_BRANCH_INSTRUCTIONS'', 4), (''PERF_COUNT_HW_BRANCH_MISSES'', 5),
    (''PERF_COUNT_HW_BUS_CYCLES'', 6), (''PERF_COUNT_HW_STALLED_CYCLES_FRONTEND'', 7),
    (''PERF_COUNT_HW_STALLED_CYCLES_BACKEND'', 8), (''PERF_COUNT_HW_REF_CPU_CYCLES'', 9),
    (''PERF_COUNT_HW_MAX'', 10)]"

definition enum_perf_event_sample_format :: enumerators where
  "enum_perf_event_sample_format = [
    (''PERF_SAMPLE_IP'', 1), (''PERF_SAMPLE_TID'', 2), (''PERF_SAMPLE_TIME'', 4),
    (''PERF_SAMPLE_ADDR'', 8), (''PERF_SAMPLE_READ'', 16), (''PERF_SAMPLE_CALLCHAIN'', 32),
    (''PERF_SAMPLE_ID'', 64), (''PERF_SAMPLE_CPU'', 128), (''PERF_SAMPLE_PERIOD'', 256),
    (''PERF_SAMPLE_STREAM_ID'', 512), (''PERF_SAMPLE_RAW'', 1024),
    (''PERF_SAMPLE_BRANCH_STACK'', 2048), (''PERF_SAMPLE_REGS_USER'', 4096),
    (''PERF_SAMPLE_STACK_USER'', 8192), (''PERF_SAMPLE_WEIGHT'', 16384),
    (''PERF_SAMPLE_DATA_SRC'', 32768), (''PERF_SAMPLE_IDENTIFIER'', 65536),
    (''PERF_SAMPLE_TRANSACTION'', 131072), (''PERF_SAMPLE_REGS_INTR'', 262144),
    (''PERF_SAMPLE_PHYS_ADDR'', 524288), (''PERF_SAMPLE_AUX'', 1048576),
    (''PERF_SAMPLE_CGROUP'', 2097152), (''PERF_SAMPLE_MAX'', 4194304),
    (''__PERF_SAMPLE_CALLCHAIN_EARLY'', 0)]"

definition enum_perf_event_read_format :: enumerators where
  "enum_perf_event_read_format = [
    (''PERF_FORMAT_TOTAL_TIME_ENABLED'', 1), (''PERF_FORMAT_TOTAL_TIME_RUNNING'', 2),
    (''PERF_FORMAT_ID'', 4), (''PERF_FORMAT_GROUP'', 8), (''PERF_FORMAT_MAX'', 16)]"

definition enum_perf_event_type :: enumerators where
  "enum_perf_event_type = [
    (''PERF_RECORD_MMAP'', 1), (''PERF_RECORD_LOST'', 2), (''PERF_RECORD_COMM'', 3),
    (''PERF_RECORD_EXIT'', 4), (''PERF_RECORD_THROTTLE'', 5), (''PERF_RECORD_UNTHROTTLE'', 6),
    (''PERF_RECORD_FORK'', 7), (''PERF_RECORD_READ'', 8), (''PERF_RECORD_SAMPLE'', 9),
    (''PERF_RECORD_MMAP2'', 10), (''PERF_RECORD_AUX'', 11), (''PERF_RECORD_ITRACE_START'', 12),
    (''PERF_RECORD_LOST_SAMPLES'', 13), (''PERF_RECORD_SWITCH'', 14),
    (''PERF_RECORD_SWITCH_CPU_WIDE'', 15), (''PERF_RECORD_NAMESPACES'', 16),
    (''PERF_RECORD_KSYMBOL'', 17), (''PERF_RECORD_BPF_EVENT'', 18), (''PERF_RECORD_CGROUP'', 19),
    (''PERF_RECORD_MAX'', 20)]"

definition enum_perf_branch_sample_type :: enumerators where
  "enum_perf_branch_sample_type = [
    (''PERF_SAMPLE_BRANCH_USER'', 1), (''PERF_SAMPLE_BRANCH_KERNEL'', 2),
    (''PERF_SAMPLE_BRANCH_HV'', 4), (''PERF_SAMPLE_BRANCH_ANY'', 8),
    (''PERF_SAMPLE_BRANCH_ANY_CALL'', 16), (''PERF_SAMPLE_BRANCH_ANY_RETURN'', 32),
    (''PERF_SAMPLE_BRANCH_IND_CALL'', 64), (''PERF_SAMPLE_BRANCH_ABORT_TX'', 128),
    (''PERF_SAMPLE_BRANCH_IN_TX'', 256), (''PERF_SAMPLE_BRANCH_NO_TX'', 512),
    (''PERF_SAMPLE_BRANCH_COND'', 1024), (''PERF_SAMPLE_BRANCH_CALL_STACK'', 2048),
    (''PERF_SAMPLE_BRANCH_IND_JUMP'', 4096), (''PERF_SAMPLE_BRANCH_CALL'', 8192),
    (''PERF_SAMPLE_BRANCH_NO_FLAGS'', 16384), (''PERF_SAMPLE_BRANCH_NO_CYCLES'', 32768),
    (''PERF_SAMPLE_BRANCH_TYPE_SAVE'', 65536), (''PERF_SAMPLE_BRANCH_HW_INDEX'', 131072),
    (''PERF_SAMPLE_BRANCH_MAX'', 262144)]"

definition enum_perf_event_x86_regs :: enumerators where
  "enum_perf_event_x86_regs = [
    (''PERF_REG_X86_AX'', 0), (''PERF_REG_X86_BX'', 1), (''PERF_REG_X86_CX'', 2),
    (''PERF_REG_X86_DX'', 3), (''PERF_REG_X86_SI'', 4), (''PERF_REG_X86_DI'', 5),
    (''PERF_REG_X86_BP'', 6), (''PERF_REG_X86_SP'', 7), (''PERF_REG_X86_IP'', 8),
    (''PERF_REG_X86_FLAGS'', 9), (''PERF_REG_X86_CS'', 10), (''PERF_REG_X86_SS'', 11),
    (''PERF_REG_X86_DS'', 12), (''PERF_REG_X86_ES'', 13), (''PERF_REG_X86_FS'', 14),
    (''PERF_REG_X86_GS'', 15), (''PERF_REG_X86_R8'', 16), (''PERF_REG_X86_R9'', 17),
    (''PERF_REG_X86_R10'', 18), (''PERF_REG_X86_R11'', 19), (''PERF_REG_X86_R12'', 20),
    (''PERF_REG_X86_R13'', 21), (''PERF_REG_X86_R14'', 22), (''PERF_REG_X86_R15'', 23),
    (''PERF_REG_X86_32_MAX'', 16), (''PERF_REG_X86_64_MAX'', 24), (''PERF_REG_X86_XMM0'', 32),
    (''PERF_REG_X86_XMM1'', 34), (''PERF_REG_X86_XMM2'', 36), (''PERF_REG_X86_XMM3'', 38),
    (''PERF_REG_X86_XMM4'', 40), (''PERF_REG_X86_XMM5'', 42), (''PERF_REG_X86_XMM6'', 44),
    (''PERF_REG_X86_XMM7'', 46), (''PERF_REG_X86_XMM8'', 48), (''PERF_REG_X86_XMM9'', 50),
    (''PERF_REG_X86_XMM10'', 52), (''PERF_REG_X86_XMM11'', 54), (''PERF_REG_X86_XMM12'', 56),
    (''PERF_REG_X86_XMM13'', 58), (''PERF_REG_X86_XMM14'', 60), (''PERF_REG_X86_XMM15'', 62),
    (''PERF_REG_X86_XMM_MAX'', 64)]"

definition enum_perf_callchain_context :: enumerators where
  "enum_perf_callchain_context = [
    (''PERF_CONTEXT_HV'', 4294967264), (''PERF_CONTEXT_KERNEL'', 4294967168),
    (''PERF_CONTEXT_USER'', 4294966784), (''PERF_CONTEXT_GUEST'', 4294965248),
    (''PERF_CONTEXT_GUEST_KERNEL'', 4294965120), (''PERF_CONTEXT_GUEST_USER'', 4294964736),
    (''PERF_CONTEXT_MAX'', 4294963201)]"

definition enum_perf_event_state :: enumerators where
  "enum_perf_event_state = [
    (''PERF_EVENT_STATE_DEAD'', 4294967292), (''PERF_EVENT_STATE_EXIT'', 4294967293),
    (''PERF_EVENT_STATE_ERROR'', 4294967294), (''PERF_EVENT_STATE_OFF'', 4294967295),
    (''PERF_EVENT_STATE_INACTIVE'', 0), (''PERF_EVENT_STATE_ACTIVE'', 1)]"

definition enum_perf_sample_regs_abi :: enumerators where
  "enum_perf_sample_regs_abi = [
    (''PERF_SAMPLE_REGS_ABI_NONE'', 0), (''PERF_SAMPLE_REGS_ABI_32'', 1),
    (''PERF_SAMPLE_REGS_ABI_64'', 2)]"

definition enum_perf_event_ioc_flags :: enumerators where
  "enum_perf_event_ioc_flags = [
    (''PERF_IOC_FLAG_GROUP'', 1)]"

definition enum_perf_bpf_event_type :: enumerators where
  "enum_perf_bpf_event_type = [
    (''PERF_BPF_EVENT_UNKNOWN'', 0), (''PERF_BPF_EVENT_PROG_LOAD'', 1),
    (''PERF_BPF_EVENT_PROG_UNLOAD'', 2), (''PERF_BPF_EVENT_MAX'', 3)]"

definition enum_btf_func_linkage :: enumerators where
  "enum_btf_func_linkage = [
    (''BTF_FUNC_STATIC'', 0), (''BTF_FUNC_GLOBAL'', 1), (''BTF_FUNC_EXTERN'', 2)]"

definition enum_bpf_output_flags :: enumerators where
  "enum_bpf_output_flags = [
    (''BPF_F_INDEX_MASK'', 4294967295), (''BPF_F_CURRENT_CPU'', 4294967295),
    (''BPF_F_CTXLEN_MASK'', 0)]"

definition enum_bpf_update_flags :: enumerators where
  "enum_bpf_update_flags = [
    (''BPF_ANY'', 0), (''BPF_NOEXIST'', 1), (''BPF_EXIST'', 2), (''BPF_F_LOCK'', 4)]"

definition enum_bpf_stack_flags :: enumerators where
  "enum_bpf_stack_flags = [
    (''BPF_F_SKIP_FIELD_MASK'', 255), (''BPF_F_USER_STACK'', 256),
    (''BPF_F_FAST_STACK_CMP'', 512), (''BPF_F_REUSE_STACKID'', 1024),
    (''BPF_F_USER_BUILD_ID'', 2048)]"


end
