(* ===== verification/Codec.thy ===== *)
theory Codec
  imports CLayout
begin

text \<open>
  Reading a record out of raw bytes by its C layout: the value of a field is the slice of the bits
  its declaration gives it, little-endian. Both sides of a byte interface (the BPF program and its
  reader, the profiler and the kernel) are compared through this reading.
\<close>

section \<open>Slices of little-endian bytes\<close>

lemma le_int_append: "le_int (xs @ ys) = le_int xs + 256 ^ length xs * le_int ys"
  by (induction xs) (simp_all add: algebra_simps)

lemma le_int_take: "le_int (take n bs) = le_int bs mod 256 ^ n"
proof (cases "n \<le> length bs")
  case True
  have "le_int bs = le_int (take n bs) + 256 ^ n * le_int (drop n bs)"
    using le_int_append [of "take n bs" "drop n bs"] True by simp
  moreover have "le_int (take n bs) < 256 ^ n"
    using le_int_bound [of "take n bs"] True by simp
  ultimately show ?thesis by simp
next
  case False
  then have "(256::int) ^ length bs \<le> 256 ^ n" by (intro power_increasing) auto
  with le_int_bound [of bs] have "le_int bs < 256 ^ n" by linarith
  with False show ?thesis by simp
qed

lemma le_int_drop: "le_int (drop n bs) = le_int bs div 256 ^ n"
proof (cases "n \<le> length bs")
  case True
  have "le_int bs = le_int (take n bs) + 256 ^ n * le_int (drop n bs)"
    using le_int_append [of "take n bs" "drop n bs"] True by simp
  moreover have "le_int (take n bs) < 256 ^ n"
    using le_int_bound [of "take n bs"] True by simp
  ultimately show ?thesis by simp
next
  case False
  then have "(256::int) ^ length bs \<le> 256 ^ n" by (intro power_increasing) auto
  with le_int_bound [of bs] have "le_int bs < 256 ^ n" by linarith
  with False show ?thesis by simp
qed

lemma le_int_word_le:
  fixes w :: "'a::len word"
  assumes "LENGTH('a) \<le> 8 * k"
  shows "le_int (word_le k w) = uint w"
proof -
  have "uint w < 2 ^ LENGTH('a)" by (rule uint_lt2p)
  also have "(2::int) ^ LENGTH('a) \<le> 2 ^ (8 * k)" using assms by (rule power_increasing) simp
  also have "(2::int) ^ (8 * k) = 256 ^ k" by (simp add: power_mult)
  finally show ?thesis by (simp add: word_le_def le_int_int_le)
qed

lemma le_int64 [simp]: "le_int (word_le 8 (w :: u64)) = uint w"
  and le_int32 [simp]: "le_int (word_le 4 (v :: u32)) = uint v"
  and le_int16 [simp]: "le_int (word_le 2 (x :: u16)) = uint x"
  by (rule le_int_word_le; simp)+

section \<open>Fields\<close>

definition field_value :: "ctype \<Rightarrow> string \<Rightarrow> u8 list \<Rightarrow> int" where
  "field_value t f bs =
     (case field_in f t of Some (p, w) \<Rightarrow> (le_int bs div 2 ^ p) mod 2 ^ w | None \<Rightarrow> 0)"

text \<open>A field on byte boundaries is the number its bytes encode; a bit-field is a slice of them.\<close>

lemma field_value_bytes:
  assumes "field_in f t = Some (8 * i, 8 * k)"
  shows "field_value t f bs = le_int (take k (drop i bs))"
  using assms by (simp add: field_value_def le_int_take le_int_drop power_mult)

lemma field_value_bits:
  assumes "field_in f t = Some (8 * i + j, w)" and "j + w \<le> 8 * k"
  shows "field_value t f bs = (le_int (take k (drop i bs)) div 2 ^ j) mod 2 ^ w"
proof -
  have p: "(256::int) ^ n = 2 ^ (8 * n)" for n by (simp add: power_mult)
  have "(le_int bs div 2 ^ (8 * i) mod 2 ^ (8 * k)) div 2 ^ j mod 2 ^ w =
        (le_int bs div 2 ^ (8 * i)) div 2 ^ j mod 2 ^ w"
    using assms(2) by (simp flip: take_bit_eq_mod drop_bit_eq_div add: drop_bit_take_bit)
  moreover have "le_int bs div 2 ^ (8 * i + j) = le_int bs div 2 ^ (8 * i) div 2 ^ j"
    by (simp add: power_add zdiv_zmult2_eq)
  ultimately show ?thesis
    using assms(1) by (simp add: field_value_def le_int_take le_int_drop p)
qed

end
