(* ===== verification/KernelAbi.thy ===== *)
theory KernelAbi
  imports KernelEnums Codec BpfEnv
begin

text \<open>
  How the BPF program meets the kernel whose types vmlinux.h declares: the helpers it calls by
  number, the maps it defines, and the layout of the contexts it is handed.
\<close>

section \<open>Kernel records\<close>

definition kernel_types :: "ctype list" where
  "kernel_types = kernel_perf_types @ kernel_bpf_types @ kernel_task_types"

lemma kernel_perf_wf: "list_all wf_type kernel_perf_types"
  by (simp add: kernel_perf_types_def kernel_perf_defs)

lemma kernel_bpf_wf: "list_all wf_type kernel_bpf_types"
  by (simp add: kernel_bpf_types_def kernel_bpf_defs kernel_perf_defs)

lemma kernel_task_wf: "list_all wf_type kernel_task_types"
  by (simp add: kernel_task_types_def kernel_task_defs kernel_bpf_defs kernel_perf_defs)

lemma kernel_types_wf: "list_all wf_type kernel_types"
  by (simp add: kernel_types_def kernel_perf_wf kernel_bpf_wf kernel_task_wf)

definition members_apart :: "ctype \<Rightarrow> bool" where
  "members_apart t =
     (case t of
        CStruct ms \<Rightarrow>
          sorted_wrt (\<lambda>(m, s, w) (m', s', w'). s + w \<le> s') (placements ms 0) \<and>
          list_all (\<lambda>(m, s, w). s + w \<le> 8 * sizeof t) (placements ms 0)
      | _ \<Rightarrow> True)"

lemma wf_members_apart: "wf_type t \<Longrightarrow> members_apart t"
proof (cases t)
  case (CStruct ms)
  assume "wf_type t"
  with CStruct have ms: "list_all wf_member ms" by simp
  have "s + w \<le> 8 * sizeof (CStruct ms)" if "(m, s, w) \<in> set (placements ms 0)" for m s w
    using placements_end [OF ms that] struct_end_bytes [OF ms] by linarith
  with placements_disjoint [OF ms] CStruct show ?thesis
    by (auto simp: members_apart_def list_all_iff)
qed (simp_all add: members_apart_def)

text \<open>
  Every record of the kernel the development uses is laid out soundly: its members follow each
  other without overlap, each lies inside the record, and the record's size is a multiple of its
  alignment, so that arrays of it are aligned.
\<close>

theorem kernel_records_sound:
  "list_all (\<lambda>t. members_apart t \<and> alignof t dvd sizeof t) kernel_types"
  using kernel_types_wf by (auto simp: list_all_iff intro: wf_members_apart sizeof_aligned)

section \<open>Contexts\<close>

text \<open>
  On aarch64 the program declares \<open>user_pt_regs\<close> itself; the first argument of a probed call is its
  first register, the word at the start of the context.
\<close>

definition user_pt_regs_t :: ctype where
  "user_pt_regs_t = CStruct [
    Member ''regs'' (CArr 31 (CInt 8)), Member ''sp'' (CInt 8), Member ''pc'' (CInt 8),
    Member ''pstate'' (CInt 8)]"

lemma context_offsets:
  "offsetof user_pt_regs_t ''regs'' = 0" "offsetof user_pt_regs_t ''sp'' = 248"
  "offsetof user_pt_regs_t ''pc'' = 256" "sizeof user_pt_regs_t = 272"
  "offsetof struct_bpf_perf_event_data ''regs'' = 0"
  "offsetof struct_bpf_perf_event_data ''sample_period'' = sizeof struct_pt_regs"
  "offsetof struct_pt_regs ''di'' = 112" "offsetof struct_pt_regs ''ip'' = 128"
  "offsetof struct_pt_regs ''sp'' = 152" "offsetof struct_pt_regs ''bp'' = 32"
  by (simp_all add: user_pt_regs_t_def struct_bpf_perf_event_data_def struct_pt_regs_def layout_simps)

section \<open>Helpers\<close>

text \<open>The helpers \<open>profile.bpf.c\<close> calls, with the numbers of the BPF interface.\<close>

definition program_helpers :: enumerators where
  "program_helpers = [
    (''BPF_FUNC_map_lookup_elem'', 1), (''BPF_FUNC_map_update_elem'', 2),
    (''BPF_FUNC_map_delete_elem'', 3), (''BPF_FUNC_get_current_pid_tgid'', 14),
    (''BPF_FUNC_perf_event_output'', 25), (''BPF_FUNC_get_stack'', 67),
    (''BPF_FUNC_probe_read_user'', 112), (''BPF_FUNC_probe_read_user_str'', 114)]"

fun numbered :: "int \<Rightarrow> enumerators \<Rightarrow> bool" where
  "numbered n [] = True"
| "numbered n ((f, v) # es) = (v = n \<and> numbered (n + 1) es)"

lemma numbered_values: "numbered n es \<Longrightarrow> (f, v) \<in> set es \<Longrightarrow> n \<le> v"
  by (induction n es rule: numbered.induct) auto

lemma numbered_distinct: "numbered n es \<Longrightarrow> distinct (map snd es)"
  by (induction n es rule: numbered.induct) (auto dest: numbered_values)

lemma helper_lookups:
  "list_all (\<lambda>(f, n). map_of enum_bpf_func_id f = Some n) program_helpers"
  by code_simp

lemma enums_numbered:
  "numbered 0 enum_bpf_func_id" "numbered 0 enum_bpf_map_type" "numbered 0 enum_bpf_prog_type"
  by (simp_all add: enum_bpf_func_id_def enum_bpf_map_type_def enum_bpf_prog_type_def)

text \<open>
  The kernel the program is compiled against has every helper it calls under its number, and
  no two of its helpers, map types or program types share a number.
\<close>

theorem helpers_available:
  "list_all (\<lambda>(f, n). map_of enum_bpf_func_id f = Some n) program_helpers \<and>
   distinct (map snd enum_bpf_func_id) \<and> distinct (map snd enum_bpf_map_type) \<and>
   distinct (map snd enum_bpf_prog_type)"
  using helper_lookups enums_numbered by (blast intro: numbered_distinct)

section \<open>Map definitions\<close>

record map_def =
  md_type :: string
  md_key_size :: nat
  md_value_size :: nat
  md_max_entries :: nat

definition lua_state_slot_t :: ctype where
  "lua_state_slot_t = CStruct [Member ''ptr'' (CInt 8), Member ''depth'' (CInt 4)]"

definition map_def_of :: "string \<Rightarrow> nat \<Rightarrow> nat \<Rightarrow> nat \<Rightarrow> map_def" where
  "map_def_of ty k v n = \<lparr>md_type = ty, md_key_size = k, md_value_size = v, md_max_entries = n\<rparr>"

text \<open>A perf event array leaves its number of entries to the loader, which sizes it by the CPUs.\<close>

definition map_defs :: "nat \<Rightarrow> (string \<times> map_def) list" where
  "map_defs nr_cpus = [
    (''lua_states'', map_def_of ''BPF_MAP_TYPE_HASH'' 4 (sizeof lua_state_slot_t) MAX_ENTRIES),
    (''seq_map'', map_def_of ''BPF_MAP_TYPE_HASH'' 4 4 MAX_ENTRIES),
    (''native_events'', map_def_of ''BPF_MAP_TYPE_PERF_EVENT_ARRAY'' 4 4 nr_cpus),
    (''lua_events_out'', map_def_of ''BPF_MAP_TYPE_PERF_EVENT_ARRAY'' 4 4 nr_cpus),
    (''native_buf'', map_def_of ''BPF_MAP_TYPE_PERCPU_ARRAY'' 4 (sizeof native_event_t) 1),
    (''lua_event_buf'', map_def_of ''BPF_MAP_TYPE_PERCPU_ARRAY'' 4 (sizeof lua_stack_event_t) 1)]"

text \<open>
  The program's maps as the kernel sees them: two hash tables of \<open>MAX_ENTRIES\<close> entries keyed by
  thread, with 16-byte slots and 4-byte sequence numbers, two perf event arrays, and one scratch
  event per CPU of each kind, of exactly the size user space reads.
\<close>

theorem map_definitions:
  "map (\<lambda>(n, d). (n, map_of enum_bpf_map_type (md_type d), md_key_size d, md_value_size d,
                   md_max_entries d)) (map_defs cpus) =
     [(''lua_states'', Some 1, 4, 16, 10240), (''seq_map'', Some 1, 4, 4, 10240),
      (''native_events'', Some 4, 4, 4, cpus), (''lua_events_out'', Some 4, 4, 4, cpus),
      (''native_buf'', Some 6, 4, 4408, 1), (''lua_event_buf'', Some 6, 4, 168, 1)] \<and>
   sizeof NativeEvent_t = 4408 \<and> sizeof LuaStackEvent_t = 168"
  using native_event_layout lua_stack_event_layout
  by (simp add: map_defs_def map_def_of_def enum_bpf_map_type_def lua_state_slot_t_def
        MAX_ENTRIES_def rust_mirror round_up_def rust_layouts)

end
