(* ===== verification/PerfAttr.thy ===== *)
theory PerfAttr
  imports Codec KernelEnums
begin

unbundle bit_operations_syntax

text \<open>
  The profiler's side of \<open>perf_event_open\<close> (src/perf.rs): the \<open>PerfEventAttr\<close> it declares, the record
  \<open>open_cpu_clock\<close> fills, its bytes, and the call. The kernel reads those bytes through its own
  \<open>perf_event_attr\<close>, and so does the property: it says what every field of that record reads.
\<close>

section \<open>Source types\<close>

definition PERF_TYPE_SOFTWARE :: u32 where "PERF_TYPE_SOFTWARE = 1"
definition PERF_COUNT_SW_CPU_CLOCK :: u64 where "PERF_COUNT_SW_CPU_CLOCK = 0"

record perf_event_attr =
  pa_type :: u32
  pa_size :: u32
  pa_config :: u64
  sample_period_or_freq :: u64
  sample_type :: u64
  read_format :: u64
  pa_flags :: u64
  wakeup_events_or_watermark :: u32
  bp_type :: u32
  config1 :: u64
  config2 :: u64
  branch_sample_type :: u64
  sample_regs_user :: u64
  sample_stack_user :: u32
  pa_clockid :: i32
  sample_regs_intr :: u64
  aux_watermark :: u32
  sample_max_stack :: u16
  pa_reserved2 :: u16

definition PerfEventAttr_t :: ctype where
  "PerfEventAttr_t = CStruct [
    Member ''type_'' (CInt 4), Member ''size'' (CInt 4), Member ''config'' (CInt 8),
    Member ''sample_period_or_freq'' (CInt 8), Member ''sample_type'' (CInt 8), Member ''read_format'' (CInt 8),
    Member ''flags'' (CInt 8), Member ''wakeup_events_or_watermark'' (CInt 4), Member ''bp_type'' (CInt 4),
    Member ''config1'' (CInt 8), Member ''config2'' (CInt 8), Member ''branch_sample_type'' (CInt 8),
    Member ''sample_regs_user'' (CInt 8), Member ''sample_stack_user'' (CInt 4),
    Member ''clockid'' (CInt 4), Member ''sample_regs_intr'' (CInt 8), Member ''aux_watermark'' (CInt 4),
    Member ''sample_max_stack'' (CInt 2), Member ''__reserved2'' (CInt 2)]"

text \<open>The bytes of the record in memory: the members follow each other without padding.\<close>

definition perf_attr_bytes :: "perf_event_attr \<Rightarrow> u8 list" where
  "perf_attr_bytes a =
     word_le 4 (pa_type a) @ word_le 4 (pa_size a) @ word_le 8 (pa_config a) @
     word_le 8 (sample_period_or_freq a) @ word_le 8 (sample_type a) @ word_le 8 (read_format a) @
     word_le 8 (pa_flags a) @ word_le 4 (wakeup_events_or_watermark a) @ word_le 4 (bp_type a) @
     word_le 8 (config1 a) @ word_le 8 (config2 a) @ word_le 8 (branch_sample_type a) @
     word_le 8 (sample_regs_user a) @ word_le 4 (sample_stack_user a) @ word_le 4 (pa_clockid a) @
     word_le 8 (sample_regs_intr a) @ word_le 4 (aux_watermark a) @ word_le 2 (sample_max_stack a) @
     word_le 2 (pa_reserved2 a)"

definition default_attr :: perf_event_attr where
  "default_attr =
     \<lparr>pa_type = 0, pa_size = 0, pa_config = 0, sample_period_or_freq = 0, sample_type = 0,
      read_format = 0, pa_flags = 0, wakeup_events_or_watermark = 0, bp_type = 0, config1 = 0,
      config2 = 0, branch_sample_type = 0, sample_regs_user = 0, sample_stack_user = 0,
      pa_clockid = 0, sample_regs_intr = 0, aux_watermark = 0, sample_max_stack = 0,
      pa_reserved2 = 0\<rparr>"

definition cpu_clock_attr :: "u64 \<Rightarrow> bool \<Rightarrow> perf_event_attr" where
  "cpu_clock_attr freq exclude_kernel =
     default_attr\<lparr>pa_type := PERF_TYPE_SOFTWARE, pa_size := of_nat (sizeof PerfEventAttr_t),
       pa_config := PERF_COUNT_SW_CPU_CLOCK, sample_period_or_freq := freq,
       pa_flags := push_bit 10 1 OR push_bit 5 (if exclude_kernel then 1 else 0)\<rparr>"

section \<open>The call\<close>

text \<open>
  \<open>perf_event_open\<close> takes the attribute's bytes, the process, the CPU, the group and the flags and
  returns a \<open>c_long\<close>; a negative one is an error, otherwise it is the descriptor.
\<close>

type_synonym perf_event_open = "u8 list \<Rightarrow> i32 \<Rightarrow> i32 \<Rightarrow> i32 \<Rightarrow> u64 \<Rightarrow> u64"

datatype perf_error = OpenFailed i32 u64

definition open_cpu_clock :: "perf_event_open \<Rightarrow> u64 \<Rightarrow> i32 \<Rightarrow> bool \<Rightarrow> perf_error + i32" where
  "open_cpu_clock sys freq cpu exclude_kernel =
     (let fd = sys (perf_attr_bytes (cpu_clock_attr freq exclude_kernel)) (- 1) cpu (- 1) 0
      in if fd <s 0 then Inl (OpenFailed cpu freq) else Inr (ucast fd))"

section \<open>The kernel's declaration\<close>

lemma length_perf_attr_bytes: "length (perf_attr_bytes a) = sizeof PerfEventAttr_t"
  by (simp add: perf_attr_bytes_def PerfEventAttr_t_def round_up_def)

text \<open>Where the two declarations put the fields.\<close>

lemma kernel_attr_table:
  "fields_of struct_perf_event_attr =
    [(''type'', 0, 32), (''size'', 32, 32), (''config'', 64, 64), (''sample_period'', 128, 64),
     (''sample_freq'', 128, 64), (''sample_type'', 192, 64), (''read_format'', 256, 64),
     (''disabled'', 320, 1), (''inherit'', 321, 1), (''pinned'', 322, 1), (''exclusive'', 323, 1),
     (''exclude_user'', 324, 1), (''exclude_kernel'', 325, 1), (''exclude_hv'', 326, 1),
     (''exclude_idle'', 327, 1), (''mmap'', 328, 1), (''comm'', 329, 1), (''freq'', 330, 1),
     (''inherit_stat'', 331, 1), (''enable_on_exec'', 332, 1), (''task'', 333, 1),
     (''watermark'', 334, 1), (''precise_ip'', 335, 2), (''mmap_data'', 337, 1),
     (''sample_id_all'', 338, 1), (''exclude_host'', 339, 1), (''exclude_guest'', 340, 1),
     (''exclude_callchain_kernel'', 341, 1), (''exclude_callchain_user'', 342, 1), (''mmap2'', 343, 1),
     (''comm_exec'', 344, 1), (''use_clockid'', 345, 1), (''context_switch'', 346, 1),
     (''write_backward'', 347, 1), (''namespaces'', 348, 1), (''ksymbol'', 349, 1),
     (''bpf_event'', 350, 1), (''aux_output'', 351, 1), (''cgroup'', 352, 1), (''__reserved_1'', 353, 31),
     (''wakeup_events'', 384, 32), (''wakeup_watermark'', 384, 32), (''bp_type'', 416, 32),
     (''bp_addr'', 448, 64), (''kprobe_func'', 448, 64), (''uprobe_path'', 448, 64),
     (''config1'', 448, 64), (''bp_len'', 512, 64), (''kprobe_addr'', 512, 64),
     (''probe_offset'', 512, 64), (''config2'', 512, 64), (''branch_sample_type'', 576, 64),
     (''sample_regs_user'', 640, 64), (''sample_stack_user'', 704, 32), (''clockid'', 736, 32),
     (''sample_regs_intr'', 768, 64), (''aux_watermark'', 832, 32), (''sample_max_stack'', 864, 16),
     (''__reserved_2'', 880, 16), (''aux_sample_size'', 896, 32), (''__reserved_3'', 928, 32)]"
  by (simp add: struct_perf_event_attr_def round_up_def Let_def)

lemma attr_sizes: "sizeof PerfEventAttr_t = 112" "sizeof struct_perf_event_attr = 120"
  by (simp_all add: PerfEventAttr_t_def struct_perf_event_attr_def round_up_def)

section \<open>What the kernel reads\<close>

text \<open>
  The fields \<open>open_cpu_clock\<close> gives a value, by the names the kernel's record and enumerations have
  for them: the CPU clock event of the software events, the frequency with the bit that says it is
  one, and user mode only when asked.
\<close>

definition cpu_clock_fields :: "u64 \<Rightarrow> bool \<Rightarrow> (string \<times> int) list" where
  "cpu_clock_fields freq exclude_kernel =
     [(''type'', the (map_of enum_perf_type_id ''PERF_TYPE_SOFTWARE'')), (''size'', 112),
      (''config'', the (map_of enum_perf_sw_ids ''PERF_COUNT_SW_CPU_CLOCK'')),
      (''sample_period'', uint freq), (''sample_freq'', uint freq), (''freq'', 1),
      (''exclude_kernel'', of_bool exclude_kernel)]"

definition wanted_field :: "u64 \<Rightarrow> bool \<Rightarrow> string \<Rightarrow> int" where
  "wanted_field freq exclude_kernel f =
     (case map_of (cpu_clock_fields freq exclude_kernel) f of Some v \<Rightarrow> v | None \<Rightarrow> 0)"

text \<open>The bytes as 64-bit words: no field of the kernel's record crosses one.\<close>

definition attr_words :: "u64 \<Rightarrow> bool \<Rightarrow> int list" where
  "attr_words freq exclude_kernel =
     [1 + 112 * 2 ^ 32, 0, uint freq, 0, 0, 1024 + 32 * of_bool exclude_kernel, 0, 0, 0, 0, 0, 0, 0, 0]"

lemma attr_words_read:
  "q < 14 \<Longrightarrow> le_int (take 8 (drop (8 * q) (perf_attr_bytes (cpu_clock_attr freq exclude_kernel)))) =
             attr_words freq exclude_kernel ! q"
proof -
  have "list_all (\<lambda>q. le_int (take 8 (drop (8 * q) (perf_attr_bytes (cpu_clock_attr freq exclude_kernel)))) =
             attr_words freq exclude_kernel ! q) [0..<14]"
    by (simp add: upt_rec attr_words_def perf_attr_bytes_def cpu_clock_attr_def default_attr_def
        PERF_TYPE_SOFTWARE_def PERF_COUNT_SW_CPU_CLOCK_def attr_sizes le_int_append)
  then show "q < 14 \<Longrightarrow> ?thesis" by (simp add: list_all_iff)
qed

lemma attr_field_value:
  assumes "field_in f struct_perf_event_attr = Some (64 * q + j, w)" and "j + w \<le> 64" and "q < 14"
  shows "field_value struct_perf_event_attr f (perf_attr_bytes (cpu_clock_attr freq exclude_kernel)) =
           attr_words freq exclude_kernel ! q div 2 ^ j mod 2 ^ w"
  using field_value_bits [of f struct_perf_event_attr "8 * q" j w 8] assms attr_words_read [of q]
  by simp

text \<open>The fields that lie inside the 112 bytes.\<close>

definition passed_fields :: "(string \<times> nat \<times> nat) list" where
  "passed_fields = filter (\<lambda>(f, p, w). p + w \<le> 8 * 112) (fields_of struct_perf_event_attr)"

lemma passed_fields_eq:
  "passed_fields = butlast (butlast (fields_of struct_perf_event_attr))"
  by (simp add: passed_fields_def kernel_attr_table)

lemma kernel_attr_names: "distinct (map fst (fields_of struct_perf_event_attr))"
  unfolding kernel_attr_table by code_simp

lemma passed_field:
  assumes "(f, p, w) \<in> set passed_fields"
  shows "field_in f struct_perf_event_attr = Some (p, w)"
  using fields_ofD [OF refl, of f struct_perf_event_attr] map_of_is_SomeI [OF kernel_attr_names] assms
  by (simp add: passed_fields_def)

lemma passed_fields_words:
  "list_all (\<lambda>(f, p, w). p mod 64 + w \<le> 64 \<and> p div 64 < 14) passed_fields"
  unfolding passed_fields_eq kernel_attr_table by simp

lemma passed_fields_wanted:
  "list_all (\<lambda>(f, p, w). attr_words freq ek ! (p div 64) div 2 ^ (p mod 64) mod 2 ^ w = wanted_field freq ek f)
     passed_fields"
proof -
  have "uint freq mod 2 ^ 64 = uint freq"
    using uint_idem [of freq] by simp
  then show ?thesis
    unfolding passed_fields_eq kernel_attr_table
    by (cases ek) (simp_all add: attr_words_def wanted_field_def cpu_clock_fields_def
          enum_perf_type_id_def enum_perf_sw_ids_def)
qed

text \<open>
  C40. \<open>open_cpu_clock\<close> opens the event it means to. The bytes it hands to the kernel, for every CPU
  and process, are 112, and every field and bit-field of the kernel's own \<open>perf_event_attr\<close> inside
  them reads as wanted: a software CPU clock, sampled by frequency, restricted to user mode exactly
  when asked, and zero everything else (so the event starts enabled, counts both modes otherwise and
  writes no records of its own). A negative answer is an error that names the CPU and the frequency,
  any other is the descriptor.
\<close>

theorem cpu_clock_attr_read_by_kernel:
  "\<exists>attr. length attr = 112 \<and>
     list_all (\<lambda>(f, p, w). field_value struct_perf_event_attr f attr = wanted_field freq exclude_kernel f)
       (filter (\<lambda>(f, p, w). p + w \<le> 8 * length attr) (fields_of struct_perf_event_attr)) \<and>
     (\<forall>sys cpu. open_cpu_clock sys freq cpu exclude_kernel =
        (let fd = sys attr (- 1) cpu (- 1) 0 in
         if sint fd < 0 then Inl (OpenFailed cpu freq) else Inr (ucast fd)))"
proof (intro exI conjI allI)
  let ?bs = "perf_attr_bytes (cpu_clock_attr freq exclude_kernel)"
  show len: "length ?bs = 112" by (simp add: length_perf_attr_bytes attr_sizes)
  have "field_value struct_perf_event_attr f ?bs = wanted_field freq exclude_kernel f"
    if "(f, p, w) \<in> set passed_fields" for f p w
  proof -
    have "field_in f struct_perf_event_attr = Some (64 * (p div 64) + p mod 64, w)"
        "p mod 64 + w \<le> 64" "p div 64 < 14"
      using passed_field [OF that] passed_fields_words that by (auto simp: list_all_iff)
    from attr_field_value [OF this] passed_fields_wanted [of freq exclude_kernel] that
    show ?thesis by (auto simp: list_all_iff)
  qed
  then show "list_all (\<lambda>(f, p, w). field_value struct_perf_event_attr f ?bs = wanted_field freq exclude_kernel f)
      (filter (\<lambda>(f, p, w). p + w \<le> 8 * length ?bs) (fields_of struct_perf_event_attr))"
    unfolding len passed_fields_def [symmetric] by (auto simp: list_all_iff)
  show "open_cpu_clock sys freq cpu exclude_kernel =
      (let fd = sys ?bs (- 1) cpu (- 1) 0 in
       if sint fd < 0 then Inl (OpenFailed cpu freq) else Inr (ucast fd))" for sys cpu
    by (simp add: open_cpu_clock_def Let_def word_sless_alt)
qed

end
