(* ===== verification/Wire.thy ===== *)
theory Wire
  imports Codec Events
begin

text \<open>
  Events as bytes: the memory of the C structs the BPF program outputs, and how the profiler reads
  the bytes of a perf-buffer sample back (\<open>from_bytes_aligned\<close> and \<open>native_event_from_bytes\<close> of
  src/main.rs) through the offsets of its own \<open>repr(C)\<close> declarations. The kernel may append up to
  seven bytes of padding to a sample.
\<close>

section \<open>The bytes the BPF program outputs\<close>

definition key_bytes :: "sample_key \<Rightarrow> u8 list" where
  "key_bytes k = word_le 4 (sk_pid k) @ word_le 4 (sk_tid k) @ word_le 4 (sk_seq k)"

definition ips_bytes :: "u64 list \<Rightarrow> u8 list" where
  "ips_bytes ips = concat (map (word_le 8) ips)"

text \<open>The padding of the scratch events is zero: the maps start zeroed and no field covers it.\<close>

definition native_bytes :: "native_event \<Rightarrow> u8 list" where
  "native_bytes e =
     key_bytes (ne_key e) @ word_le 4 (ne_ip_cnt e) @ word_le 4 (ne_stack_len e) @ replicate 4 0 @
     word_le 8 (ne_ip e) @ word_le 8 (ne_sp e) @ word_le 8 (ne_fp e) @ word_le 8 (ne_lr e) @
     ips_bytes (ne_ips e) @ ne_stack e"

definition lua_bytes :: "lua_stack_event \<Rightarrow> u8 list" where
  "lua_bytes e =
     key_bytes (le_key e) @ word_le 4 (le_level e) @ word_le 4 (le_type e) @ le_name e @
     replicate 4 0 @ word_le 8 (le_funcp e) @ word_le 4 (le_line e) @ replicate 4 0"

section \<open>Reading them back\<close>

definition word_at :: "ctype \<Rightarrow> string \<Rightarrow> nat \<Rightarrow> u8 list \<Rightarrow> 'a::len word" where
  "word_at t f k bs = le_word (take k (drop (offsetof t f) bs))"

definition key_of_bytes :: "u8 list \<Rightarrow> sample_key" where
  "key_of_bytes bs =
     \<lparr>sk_pid = word_at SampleKey_t ''pid'' 4 bs, sk_tid = word_at SampleKey_t ''tid'' 4 bs,
      sk_seq = word_at SampleKey_t ''seq'' 4 bs\<rparr>"

definition native_of_bytes :: "u8 list \<Rightarrow> native_event" where
  "native_of_bytes bs =
     \<lparr>ne_key = key_of_bytes (drop (offsetof NativeEvent_t ''key'') bs),
      ne_ip_cnt = word_at NativeEvent_t ''ip_cnt'' 4 bs,
      ne_stack_len = word_at NativeEvent_t ''stack_len'' 4 bs,
      ne_ip = word_at NativeEvent_t ''ip'' 8 bs, ne_sp = word_at NativeEvent_t ''sp'' 8 bs,
      ne_fp = word_at NativeEvent_t ''fp'' 8 bs, ne_lr = word_at NativeEvent_t ''lr'' 8 bs,
      ne_ips = map (\<lambda>i. le_word (take 8 (drop (8 * i) (drop (offsetof NativeEvent_t ''ips'') bs))))
                 [0..<rs_PERF_MAX_STACK_DEPTH],
      ne_stack = take rs_USER_STACK_SNAPSHOT_SIZE (drop (offsetof NativeEvent_t ''stack'') bs)\<rparr>"

definition lua_of_bytes :: "u8 list \<Rightarrow> lua_stack_event" where
  "lua_of_bytes bs =
     \<lparr>le_key = key_of_bytes (drop (offsetof LuaStackEvent_t ''key'') bs),
      le_level = word_at LuaStackEvent_t ''level'' 4 bs,
      le_type = word_at LuaStackEvent_t ''type'' 4 bs,
      le_name = take rs_CHUNKNAME_LEN (drop (offsetof LuaStackEvent_t ''name'') bs),
      le_funcp = word_at LuaStackEvent_t ''funcp'' 8 bs,
      le_line = word_at LuaStackEvent_t ''line'' 4 bs\<rparr>"

text \<open>\<open>from_bytes_aligned\<close> at the type of Lua events, the one it is used at.\<close>

definition from_bytes_aligned :: "u8 list \<Rightarrow> lua_stack_event option" where
  "from_bytes_aligned data =
     (let sz = sizeof LuaStackEvent_t in
      if length data < sz then None
      else Some (lua_of_bytes (overlay (take sz data) (lua_bytes default_lua))))"

definition prefix_size :: nat where
  "prefix_size = sizeof NativeEvent_t - rs_USER_STACK_SNAPSHOT_SIZE"

definition native_event_from_bytes :: "u8 list \<Rightarrow> native_event option" where
  "native_event_from_bytes data =
     (if length data < prefix_size then None
      else let copy_len = min (length data) (sizeof NativeEvent_t);
               event = native_of_bytes (overlay (take copy_len data) (native_bytes default_native))
           in Some (event\<lparr>ne_stack_len :=
                     min (ne_stack_len event) (of_nat (length data - prefix_size))\<rparr>))"

section \<open>Round trips\<close>

lemma length_key_bytes [simp]: "length (key_bytes k) = 12"
  by (simp add: key_bytes_def)

lemma length_ips_bytes [simp]: "length (ips_bytes ips) = 8 * length ips"
  by (induction ips) (simp_all add: ips_bytes_def)

lemma key_of_bytes_key [simp]: "key_of_bytes (key_bytes k @ bs) = k"
  by (simp add: key_of_bytes_def key_bytes_def word_at_def layout_simps)

lemma ips_of_bytes:
  "map (\<lambda>i. le_word (take 8 (drop (8 * i) (ips_bytes ips @ bs)))) [0..<length ips] = ips"
proof (rule nth_equalityI)
  fix i assume "i < length (map (\<lambda>i. le_word (take 8 (drop (8 * i) (ips_bytes ips @ bs))) :: u64) [0..<length ips])"
  then have i: "i < length ips" by simp
  obtain xs ys where ips: "ips = xs @ ips ! i # ys" and xs: "length xs = i"
    using id_take_nth_drop [OF i] i by (metis length_take min.absorb4)
  have "ips_bytes (xs @ w # ys) @ bs = ips_bytes xs @ word_le 8 w @ ips_bytes ys @ bs" for w
    by (simp add: ips_bytes_def)
  then have "drop (8 * i) (ips_bytes ips @ bs) = word_le 8 (ips ! i) @ ips_bytes ys @ bs"
    using ips xs by (metis append_eq_conv_conj length_ips_bytes)
  then show "map (\<lambda>i. le_word (take 8 (drop (8 * i) (ips_bytes ips @ bs)))) [0..<length ips] ! i = ips ! i"
    using i by simp
qed simp

lemma wire_sizes:
  "sizeof NativeEvent_t = 4408" "sizeof LuaStackEvent_t = 168" "prefix_size = 312"
  by (simp_all add: rust_layouts prefix_size_def rs_consts)

lemma length_native_bytes: "wf_native e \<Longrightarrow> length (native_bytes e) = sizeof NativeEvent_t"
  by (simp add: native_bytes_def wf_native_def common_consts wire_sizes)

lemma length_lua_bytes: "wf_lua e \<Longrightarrow> length (lua_bytes e) = sizeof LuaStackEvent_t"
  by (simp add: lua_bytes_def wf_lua_def common_consts wire_sizes)

lemma rust_offsets:
  "offsetof NativeEvent_t ''key'' = 0" "offsetof NativeEvent_t ''ip_cnt'' = 12"
  "offsetof NativeEvent_t ''stack_len'' = 16" "offsetof NativeEvent_t ''ip'' = 24"
  "offsetof NativeEvent_t ''sp'' = 32" "offsetof NativeEvent_t ''fp'' = 40"
  "offsetof NativeEvent_t ''lr'' = 48" "offsetof NativeEvent_t ''ips'' = 56"
  "offsetof NativeEvent_t ''stack'' = 312"
  "offsetof LuaStackEvent_t ''key'' = 0" "offsetof LuaStackEvent_t ''level'' = 12"
  "offsetof LuaStackEvent_t ''type'' = 16" "offsetof LuaStackEvent_t ''name'' = 20"
  "offsetof LuaStackEvent_t ''funcp'' = 152" "offsetof LuaStackEvent_t ''line'' = 160"
  by (simp_all add: rust_mirror native_event_layout lua_stack_event_layout)

lemma lua_of_bytes_bytes: "wf_lua e \<Longrightarrow> lua_of_bytes (lua_bytes e) = e"
  by (simp add: lua_of_bytes_def lua_bytes_def wf_lua_def rust_offsets word_at_def common_consts
      rs_consts)

lemma native_of_bytes_bytes: "wf_native e \<Longrightarrow> native_of_bytes (native_bytes e) = e"
  using ips_of_bytes [of "ne_ips e" "ne_stack e"]
  by (simp add: native_of_bytes_def native_bytes_def wf_native_def rust_offsets word_at_def
      common_consts rs_consts)

text \<open>A snapshot-free sample: the fields come back, the stack is what arrived after them.\<close>

lemma native_of_prefix:
  assumes "wf_native e"
  shows "native_of_bytes (take prefix_size (native_bytes e) @ st) =
         e\<lparr>ne_stack := take USER_STACK_SNAPSHOT_SIZE st\<rparr>"
  using assms ips_of_bytes [of "ne_ips e" st]
  by (simp add: native_of_bytes_def native_bytes_def wf_native_def rust_offsets word_at_def
      common_consts rs_consts wire_sizes)

section \<open>Codecs\<close>

text \<open>
  What a reader of a perf buffer relies on: a valid event's bytes decode to it whatever padding the
  kernel appended.
\<close>

locale event_codec =
  fixes enc :: "'e \<Rightarrow> u8 list" and dec :: "u8 list \<Rightarrow> 'e option" and valid :: "'e \<Rightarrow> bool"
  assumes dec_enc: "valid e \<Longrightarrow> length pad < 8 \<Longrightarrow> dec (enc e @ pad) = Some e"
begin

lemma enc_inj: "valid e \<Longrightarrow> valid e' \<Longrightarrow> enc e = enc e' \<Longrightarrow> e = e'"
  using dec_enc [of e "[]"] dec_enc [of e' "[]"] by simp

text \<open>A whole stream of samples, each with its own padding.\<close>

lemma dec_stream:
  "list_all (\<lambda>(e, pad). valid e \<and> length pad < 8) es \<Longrightarrow>
   List.map_filter dec (map (\<lambda>(e, pad). enc e @ pad) es) = map fst es"
  by (induction es) (auto simp: dec_enc map_filter_simps)

end

interpretation lua_wire: event_codec lua_bytes from_bytes_aligned wf_lua
proof
  fix e :: lua_stack_event and pad :: "u8 list" assume e: "wf_lua e"
  have "overlay (lua_bytes e) (lua_bytes default_lua) = lua_bytes e"
    using length_lua_bytes [OF e] length_lua_bytes [OF wf_default(2)] by simp
  then show "from_bytes_aligned (lua_bytes e @ pad) = Some e"
    using length_lua_bytes [OF e] lua_of_bytes_bytes [OF e] by (simp add: from_bytes_aligned_def Let_def)
qed

text \<open>A native event's snapshot length never exceeds its snapshot.\<close>

definition sendable :: "native_event \<Rightarrow> bool" where
  "sendable e \<longleftrightarrow> wf_native e \<and> unat (ne_stack_len e) \<le> USER_STACK_SNAPSHOT_SIZE"

interpretation native_wire: event_codec native_bytes native_event_from_bytes sendable
proof
  fix e :: native_event and pad :: "u8 list" assume e: "sendable e" and pad: "length pad < 8"
  then have wf: "wf_native e" by (simp add: sendable_def)
  have "overlay (native_bytes e) (native_bytes default_native) = native_bytes e"
    using length_native_bytes [OF wf] length_native_bytes [OF wf_default(1)] by simp
  moreover have "unat (of_nat (4096 + length pad) :: u32) = 4096 + length pad"
    using pad by (intro unat_of_nat_small) simp
  then have "ne_stack_len e \<le> of_nat (4096 + length pad)"
    using e unfolding word_le_nat_alt sendable_def common_consts by linarith
  ultimately show "native_event_from_bytes (native_bytes e @ pad) = Some e"
    using length_native_bytes [OF wf] native_of_bytes_bytes [OF wf]
    by (simp add: native_event_from_bytes_def wire_sizes Let_def min_absorb1)
qed

section \<open>Properties\<close>

text \<open>
  C15. Lua events survive the perf buffer: the profiler reads from the bytes the BPF program outputs,
  whatever padding follows, exactly the event that was emitted.
\<close>

theorem lua_event_roundtrip:
  assumes "wf_lua e" and "length pad < 8"
  shows "from_bytes_aligned (lua_bytes e @ pad) = Some e"
  using assms by (rule lua_wire.dec_enc)

lemma lua_event_roundtrip_witness:
  "from_bytes_aligned (lua_bytes (default_lua\<lparr>le_line := 7\<rparr>) @ [1, 2, 3]) = Some (default_lua\<lparr>le_line := 7\<rparr>)"
  by (rule lua_event_roundtrip) (simp_all add: wf_lua_def default_lua_def)

text \<open>
  C14. Native events with a snapshot survive it as well, the snapshot length included.
\<close>

theorem native_event_roundtrip:
  assumes "wf_native e" and "unat (ne_stack_len e) \<le> USER_STACK_SNAPSHOT_SIZE" and "length pad < 8"
  shows "native_event_from_bytes (native_bytes e @ pad) = Some e"
  using assms by (intro native_wire.dec_enc) (simp_all add: sendable_def)

lemma native_event_roundtrip_witness:
  "native_event_from_bytes (native_bytes (default_native\<lparr>ne_stack_len := 4096\<rparr>) @ [1, 2]) =
     Some (default_native\<lparr>ne_stack_len := 4096\<rparr>)"
  by (rule native_event_roundtrip) (simp_all add: wf_native_def default_native_def common_consts)

lemma native_event_from_prefix:
  assumes "312 \<le> length data" and "length data \<le> 312 + 4096"
  shows "native_event_from_bytes data =
         (let e = native_of_bytes (data @ replicate (4408 - length data) 0)
          in Some (e\<lparr>ne_stack_len := min (ne_stack_len e) (of_nat (length data - 312))\<rparr>))"
proof -
  have "native_bytes default_native = replicate 312 0 @ replicate 4096 0"
    by (simp add: native_bytes_def default_native_def key_bytes_def default_key_def ips_bytes_def
        word_le_def common_consts numeral_eq_Suc flip: replicate_add)
  then have "overlay data (native_bytes default_native) = data @ replicate (4408 - length data) 0"
    by (simp add: overlay_def flip: replicate_add)
  with assms show ?thesis
    by (simp add: native_event_from_bytes_def wire_sizes Let_def)
qed

text \<open>The snapshot-free form decodes to the event, but for what stands where the snapshot was.\<close>

lemma native_event_from_snapshot_free:
  assumes "wf_native e" and "ne_stack_len e = 0" and "length pad < 8"
  shows "\<exists>st. native_event_from_bytes (take prefix_size (native_bytes e) @ pad) =
           Some (e\<lparr>ne_stack := st, ne_stack_len := 0\<rparr>)"
proof -
  let ?data = "take prefix_size (native_bytes e) @ pad"
  have len: "length ?data = 312 + length pad"
    using length_native_bytes [OF assms(1)] by (simp add: wire_sizes)
  have "native_of_bytes (?data @ replicate (4408 - length ?data) 0) =
        e\<lparr>ne_stack := take USER_STACK_SNAPSHOT_SIZE (pad @ replicate (4408 - length ?data) 0)\<rparr>"
    using native_of_prefix [OF assms(1), of "pad @ replicate (4408 - length ?data) 0"] by simp
  then show ?thesis
    using native_event_from_prefix [of ?data] len assms(2,3) by (auto simp: Let_def)
qed

text \<open>
  The snapshot-free form the program outputs without native collection is read back too: every
  field is the emitted one, and the snapshot is empty even when padding bytes follow the prefix.
\<close>

theorem snapshot_free_roundtrip:
  assumes "wf_native e" and "ne_stack_len e = 0" and "length pad < 8"
  shows "case native_event_from_bytes (take prefix_size (native_bytes e) @ pad) of
           None \<Rightarrow> False
         | Some ev \<Rightarrow> ev\<lparr>ne_stack := ne_stack e\<rparr> = e \<and> ne_stack_len ev = 0"
  using native_event_from_snapshot_free [OF assms] assms(2) by (cases e) auto

lemma snapshot_free_roundtrip_witness:
  "case native_event_from_bytes (take prefix_size (native_bytes (default_native\<lparr>ne_ip_cnt := 3\<rparr>)) @ [9, 9, 9, 9]) of
     None \<Rightarrow> False | Some ev \<Rightarrow> ne_ip_cnt ev = 3 \<and> ne_stack_len ev = 0"
proof -
  have "case native_event_from_bytes (take prefix_size (native_bytes (default_native\<lparr>ne_ip_cnt := 3\<rparr>)) @
      [9, 9, 9, 9]) of None \<Rightarrow> False
      | Some ev \<Rightarrow> ev\<lparr>ne_stack := ne_stack (default_native\<lparr>ne_ip_cnt := 3\<rparr>)\<rparr> = default_native\<lparr>ne_ip_cnt := 3\<rparr> \<and>
                   ne_stack_len ev = 0"
    by (rule snapshot_free_roundtrip) (simp_all add: wf_native_def default_native_def)
  then show ?thesis
    by (auto simp: default_native_def split: option.splits) (metis native_event.select_convs(2)
        native_event.update_convs(9) native_event.surjective)
qed

text \<open>
  C32. Reading never invents stack bytes: of a sample of any length, a truncated or an oversized one
  included, the snapshot the event claims is at most what arrived after the prefix, and its bytes
  within the buffer are those.
\<close>

theorem native_event_claims_only_received_bytes:
  assumes "native_event_from_bytes data = Some ev"
  shows "prefix_size \<le> length data \<and> wf_native ev \<and>
         unat (ne_stack_len ev) \<le> length data - prefix_size \<and>
         (let n = min (unat (ne_stack_len ev)) USER_STACK_SNAPSHOT_SIZE
          in take n (ne_stack ev) = take n (drop prefix_size data))"
proof -
  let ?bs = "overlay (take (min (length data) 4408) data) (native_bytes default_native)"
  from assms have len: "312 \<le> length data"
    and ev: "ev = (native_of_bytes ?bs)\<lparr>ne_stack_len :=
               min (ne_stack_len (native_of_bytes ?bs)) (of_nat (length data - 312))\<rparr>"
    by (auto simp: native_event_from_bytes_def wire_sizes Let_def split: if_splits)
  have "length (native_bytes default_native) = 4408"
    using length_native_bytes [OF wf_default(1)] by (simp add: wire_sizes)
  then have bs: "length ?bs = 4408" by (simp add: length_overlay)
  have n: "unat (ne_stack_len ev) \<le> length data - 312"
    using ev by (simp add: unat_min_of_nat)
  have "take n (drop 312 ?bs) = take n (drop 312 data)" if "n \<le> min (length data) 4408 - 312" for n
    using that len by (simp add: overlay_def drop_take min_absorb1)
  moreover have "min (unat (ne_stack_len ev)) 4096 \<le> min (length data) 4408 - 312" using n len by auto
  moreover have "ne_stack ev = take 4096 (drop 312 ?bs)"
    using ev by (simp add: native_of_bytes_def rust_offsets rs_consts)
  moreover have "wf_native ev"
    using ev bs by (simp add: wf_native_def native_of_bytes_def rust_offsets rs_consts common_consts)
  ultimately show ?thesis
    using len n by (simp add: wire_sizes Let_def common_consts)
qed

lemma native_event_claims_only_received_bytes_witness:
  "case native_event_from_bytes (native_bytes (default_native\<lparr>ne_stack_len := 64\<rparr>)) of
     None \<Rightarrow> False | Some ev \<Rightarrow> unat (ne_stack_len ev) \<le> 4096 \<and> wf_native ev"
proof -
  let ?e = "default_native\<lparr>ne_stack_len := 64\<rparr>"
  have wf: "wf_native ?e" by (simp add: wf_native_def default_native_def)
  have "native_event_from_bytes (native_bytes ?e @ []) = Some ?e"
    by (rule native_wire.dec_enc) (simp_all add: sendable_def wf common_consts)
  then have r: "native_event_from_bytes (native_bytes ?e) = Some ?e" by simp
  from native_event_claims_only_received_bytes [OF this] length_native_bytes [OF wf] r
  show ?thesis by (simp add: wire_sizes)
qed

end
