(* ===== verification/RustStr.thy ===== *)
theory RustStr
  imports Prelude "HOL-Library.Char_ord"
begin

unbundle bit_operations_syntax

text \<open>
  The parts of Rust's strings the profiler uses. A Rust string is its UTF-8 bytes, kept as a HOL
  \<open>string\<close> (a list of 8-bit characters); raw bytes are \<open>u8 list\<close>. Here are the conversion of raw
  bytes to a string, printing and parsing of numbers, and the splitting functions.
\<close>

section \<open>Bytes and strings\<close>

definition byte_of :: "char \<Rightarrow> u8" where "byte_of c = of_nat (of_char c)"
definition char_of_byte :: "u8 \<Rightarrow> char" where "char_of_byte b = char_of (unat b)"

definition bytes_of :: "string \<Rightarrow> u8 list" where "bytes_of s = map byte_of s"
definition str_of :: "u8 list \<Rightarrow> string" where "str_of bs = map char_of_byte bs"

lemma char_of_byte_of [simp]: "char_of_byte (byte_of c) = c"
  by (simp add: byte_of_def char_of_byte_def unat_of_nat take_bit_nat_eq_self)

lemma byte_of_char_of [simp]: "byte_of (char_of_byte b) = b"
  using unsigned_less [of b, where 'a = nat] by (simp add: byte_of_def char_of_byte_def)

lemma str_of_bytes_of [simp]: "str_of (bytes_of s) = s"
  by (induction s) (simp_all add: str_of_def bytes_of_def)

lemma bytes_of_str_of [simp]: "bytes_of (str_of bs) = bs"
  by (induction bs) (simp_all add: str_of_def bytes_of_def)

lemma bytes_of_simps [simp]:
  "bytes_of [] = []" "bytes_of (c # s) = byte_of c # bytes_of s"
  "bytes_of (s @ t) = bytes_of s @ bytes_of t" "length (bytes_of s) = length s"
  by (simp_all add: bytes_of_def)

lemma str_of_simps [simp]:
  "str_of [] = []" "str_of (b # bs) = char_of_byte b # str_of bs"
  "str_of (xs @ ys) = str_of xs @ str_of ys" "length (str_of bs) = length bs"
  by (simp_all add: str_of_def)

section \<open>\<open>String::from_utf8_lossy\<close>\<close>

text \<open>
  Decoding takes one character, or the longest prefix of one that no character continues; the
  latter is replaced by U+FFFD. \<open>utf8_step\<close> says which it is and how many bytes it takes (bytes
  past the end count as 0, which continues nothing).
\<close>

definition is_cont :: "u8 \<Rightarrow> bool" where "is_cont b \<longleftrightarrow> b AND 0xC0 = 0x80"

definition nth0 :: "u8 list \<Rightarrow> nat \<Rightarrow> u8" where
  "nth0 bs i = (if i < length bs then bs ! i else 0)"

definition second3 :: "u8 \<Rightarrow> u8 \<Rightarrow> bool" where
  "second3 b c \<longleftrightarrow>
     (b = 0xE0 \<and> 0xA0 \<le> c \<and> c \<le> 0xBF) \<or> (0xE1 \<le> b \<and> b \<le> 0xEC \<and> 0x80 \<le> c \<and> c \<le> 0xBF) \<or>
     (b = 0xED \<and> 0x80 \<le> c \<and> c \<le> 0x9F) \<or> (0xEE \<le> b \<and> b \<le> 0xEF \<and> 0x80 \<le> c \<and> c \<le> 0xBF)"

definition second4 :: "u8 \<Rightarrow> u8 \<Rightarrow> bool" where
  "second4 b c \<longleftrightarrow>
     (b = 0xF0 \<and> 0x90 \<le> c \<and> c \<le> 0xBF) \<or> (0xF1 \<le> b \<and> b \<le> 0xF3 \<and> 0x80 \<le> c \<and> c \<le> 0xBF) \<or>
     (b = 0xF4 \<and> 0x80 \<le> c \<and> c \<le> 0x8F)"

definition utf8_step :: "u8 list \<Rightarrow> bool \<times> nat" where
  "utf8_step bs =
     (let b = nth0 bs 0 in
      if b < 0x80 then (True, 1)
      else if 0xC2 \<le> b \<and> b \<le> 0xDF then (if is_cont (nth0 bs 1) then (True, 2) else (False, 1))
      else if 0xE0 \<le> b \<and> b \<le> 0xEF then
        (if \<not> second3 b (nth0 bs 1) then (False, 1)
         else if \<not> is_cont (nth0 bs 2) then (False, 2) else (True, 3))
      else if 0xF0 \<le> b \<and> b \<le> 0xF4 then
        (if \<not> second4 b (nth0 bs 1) then (False, 1)
         else if \<not> is_cont (nth0 bs 2) then (False, 2)
         else if \<not> is_cont (nth0 bs 3) then (False, 3) else (True, 4))
      else (False, 1))"

definition replacement :: "u8 list" where "replacement = [0xEF, 0xBF, 0xBD]"

lemma utf8_step_pos: "(ok, n) = utf8_step bs \<Longrightarrow> 0 < n"
  by (simp add: utf8_step_def Let_def split: if_splits)

function utf8_lossy :: "u8 list \<Rightarrow> u8 list" where
  "utf8_lossy bs =
     (if bs = [] then []
      else case utf8_step bs of
             (ok, n) \<Rightarrow> (if ok then take n bs else replacement) @ utf8_lossy (drop n bs))"
  by pat_completeness auto
termination
  by (relation "measure length") (auto dest: utf8_step_pos)

declare utf8_lossy.simps [simp del]

definition from_utf8_lossy :: "u8 list \<Rightarrow> string" where
  "from_utf8_lossy bs = str_of (utf8_lossy bs)"

text \<open>Valid UTF-8 is what decodes without a replacement.\<close>

function valid_utf8 :: "u8 list \<Rightarrow> bool" where
  "valid_utf8 bs =
     (if bs = [] then True
      else case utf8_step bs of (ok, n) \<Rightarrow> if ok then valid_utf8 (drop n bs) else False)"
  by pat_completeness auto
termination
  by (relation "measure length") (auto dest: utf8_step_pos)

declare valid_utf8.simps [simp del]

lemma nth0_continues:
  "is_cont (nth0 bs i) \<Longrightarrow> i < length bs"
  "second3 b (nth0 bs i) \<Longrightarrow> i < length bs"
  "second4 b (nth0 bs i) \<Longrightarrow> i < length bs"
  by (auto simp: nth0_def is_cont_def second3_def second4_def split: if_splits)

lemma utf8_step_local:
  assumes "utf8_step bs = (ok, n)" and "bs \<noteq> []"
  shows "n \<le> length bs"
proof -
  have "0 < length bs" using assms(2) by simp
  then show ?thesis using assms(1)
    by (auto simp: utf8_step_def Let_def Suc_le_eq split: if_splits dest: nth0_continues)
qed

text \<open>A valid character stays one whatever follows it.\<close>

lemma utf8_step_append:
  assumes "utf8_step bs = (True, n)" and "bs \<noteq> []"
  shows "utf8_step (take n bs @ ys) = (True, n)"
proof -
  have n: "n \<le> length bs" by (rule utf8_step_local [OF assms])
  have "nth0 (take n bs @ ys) k = nth0 bs k" if "k < n" for k
    using that n by (simp add: nth0_def nth_append)
  then show ?thesis
    using assms(1) utf8_step_pos [of True n bs]
    by (auto simp: utf8_step_def Let_def split: if_splits)
qed

lemma utf8_lossy_Nil [simp]: "utf8_lossy [] = []"
  by (simp add: utf8_lossy.simps)

lemma valid_utf8_Nil [simp]: "valid_utf8 []"
  by (simp add: valid_utf8.simps)

lemma utf8_lossy_valid: "valid_utf8 bs \<Longrightarrow> utf8_lossy bs = bs"
  by (induction bs rule: utf8_lossy.induct)
     (subst utf8_lossy.simps, subst (asm) (2) valid_utf8.simps, auto split: if_splits prod.splits)

lemma valid_char_append:
  assumes "utf8_step bs = (True, n)" and "bs \<noteq> []" and "valid_utf8 ys"
  shows "valid_utf8 (take n bs @ ys)"
proof -
  have n: "n \<le> length bs" "0 < n"
    using utf8_step_local [OF assms(1,2)] utf8_step_pos [of True n bs] assms(1) by simp_all
  then have "take n bs @ ys \<noteq> []" using assms(2) by auto
  moreover have "drop n (take n bs @ ys) = ys" using n by simp
  ultimately show ?thesis
    using utf8_step_append [OF assms(1,2), of ys] assms(3) by (subst valid_utf8.simps) simp
qed

lemma valid_replacement: "valid_utf8 ys \<Longrightarrow> valid_utf8 (replacement @ ys)"
  using valid_char_append [of "replacement" 3 ys]
  by (simp add: replacement_def utf8_step_def nth0_def second3_def is_cont_def)

lemma utf8_lossy_is_valid: "valid_utf8 (utf8_lossy bs)"
proof (induction bs rule: utf8_lossy.induct)
  case (1 bs)
  show ?case
  proof (cases "bs = []")
    case False
    obtain ok n where s: "utf8_step bs = (ok, n)" by force
    with 1 False have "valid_utf8 (utf8_lossy (drop n bs))" by simp
    then show ?thesis
      using False s valid_char_append [of bs n] valid_replacement
      by (subst utf8_lossy.simps) (cases ok, simp_all)
  qed simp
qed

lemma valid_ascii: "list_all (\<lambda>b. b < 0x80) bs \<Longrightarrow> valid_utf8 bs"
proof (induction bs)
  case (Cons b bs)
  then show ?case using valid_char_append [of "b # bs" 1 bs]
    by (simp add: utf8_step_def nth0_def)
qed simp

section \<open>Numbers\<close>

text \<open>\<open>{}\<close>, \<open>{:x}\<close> and \<open>{:#x}\<close> of unsigned and signed numbers.\<close>

definition digit_char :: "nat \<Rightarrow> char" where
  "digit_char d = char_of (if d < 10 then 48 + d else 87 + d)"

text \<open>The digits and the two separators as characters, for evaluation.\<close>

lemma digit_chars [text_simps]:
  "char_of (47::nat) = CHR ''/''" "char_of (92::nat) = CHR 0x5C"
  "char_of (48::nat) = CHR ''0''"
  "char_of (49::nat) = CHR ''1''"
  "char_of (50::nat) = CHR ''2''"
  "char_of (51::nat) = CHR ''3''"
  "char_of (52::nat) = CHR ''4''"
  "char_of (53::nat) = CHR ''5''"
  "char_of (54::nat) = CHR ''6''"
  "char_of (55::nat) = CHR ''7''"
  "char_of (56::nat) = CHR ''8''"
  "char_of (57::nat) = CHR ''9''"
  "char_of (97::nat) = CHR ''a''"
  "char_of (98::nat) = CHR ''b''"
  "char_of (99::nat) = CHR ''c''"
  "char_of (100::nat) = CHR ''d''"
  "char_of (101::nat) = CHR ''e''"
  "char_of (102::nat) = CHR ''f''"
  by code_simp+

fun radix_str :: "nat \<Rightarrow> nat \<Rightarrow> string" where
  "radix_str r n =
     (if r < 2 \<or> n < r then [digit_char n] else radix_str r (n div r) @ [digit_char (n mod r)])"

declare radix_str.simps [simp del]

definition dec_str :: "nat \<Rightarrow> string" where "dec_str n = radix_str 10 n"
definition hex_str :: "nat \<Rightarrow> string" where "hex_str n = radix_str 16 n"
definition alt_hex :: "nat \<Rightarrow> string" where "alt_hex n = ''0x'' @ hex_str n"
definition int_str :: "int \<Rightarrow> string" where
  "int_str i = (if i < 0 then ''-'' @ dec_str (nat (- i)) else dec_str (nat i))"

text \<open>
  \<open>from_str_radix\<close> of an unsigned type: an optional \<open>+\<close>, at least one digit of either case, and no
  overflow.
\<close>

definition digit_val :: "nat \<Rightarrow> char \<Rightarrow> nat option" where
  "digit_val r ch =
     (let c = of_char ch :: nat;
          d = (if 48 \<le> c \<and> c \<le> 57 then c - 48 else if 97 \<le> c \<and> c \<le> 122 then c - 87
               else if 65 \<le> c \<and> c \<le> 90 then c - 55 else r)
      in if d < r then Some d else None)"

fun digits_val :: "nat \<Rightarrow> nat \<Rightarrow> string \<Rightarrow> nat option" where
  "digits_val r acc [] = Some acc"
| "digits_val r acc (c # s) =
     (case digit_val r c of None \<Rightarrow> None | Some d \<Rightarrow> digits_val r (acc * r + d) s)"

definition from_str_radix :: "nat \<Rightarrow> string \<Rightarrow> 'a::len word option" where
  "from_str_radix r s =
     (case s of
        [] \<Rightarrow> None
      | c # t \<Rightarrow>
          let ds = (if c = CHR ''+'' then t else s) in
          if ds = [] then None
          else case digits_val r 0 ds of
                 None \<Rightarrow> None
               | Some v \<Rightarrow> if v < 2 ^ LENGTH('a) then Some (of_nat v) else None)"

lemma digits_val_append:
  "digits_val r acc (xs @ ys) =
     (case digits_val r acc xs of None \<Rightarrow> None | Some v \<Rightarrow> digits_val r v ys)"
  by (induction r acc xs rule: digits_val.induct) (auto split: option.splits)

lemma digit_val_char: "d < r \<Longrightarrow> r \<le> 36 \<Longrightarrow> digit_val r (digit_char d) = Some d"
  by (auto simp: digit_val_def digit_char_def Let_def)

lemma radix_str_val: "2 \<le> r \<Longrightarrow> r \<le> 36 \<Longrightarrow> digits_val r 0 (radix_str r n) = Some n"
proof (induction r n rule: radix_str.induct)
  case (1 r n)
  show ?case
  proof (cases "n < r")
    case True
    with 1 show ?thesis by (subst radix_str.simps) (simp add: digit_val_char)
  next
    case False
    with 1 have "digits_val r 0 (radix_str r (n div r)) = Some (n div r)" by simp
    with False 1 show ?thesis
      by (subst radix_str.simps) (simp add: digits_val_append digit_val_char)
  qed
qed

lemma radix_str_chars:
  "2 \<le> r \<Longrightarrow> r \<le> 36 \<Longrightarrow> set (radix_str r n) \<subseteq> digit_char ` {..<r}"
proof (induction r n rule: radix_str.induct)
  case (1 r n)
  have tail: "digit_char (n mod r) \<in> digit_char ` {..<r}" using 1(2) by simp
  show ?case
  proof (cases "n < r")
    case True
    with 1(2) show ?thesis by (subst radix_str.simps) simp
  next
    case False
    with 1 have "set (radix_str r (n div r)) \<subseteq> digit_char ` {..<r}" by simp
    with False 1(2) tail show ?thesis by (subst radix_str.simps) simp
  qed
qed

lemma radix_str_not_Nil [simp]: "radix_str r n \<noteq> []"
  by (subst radix_str.simps) simp

lemma digit_char_ascii: "d < 36 \<Longrightarrow> of_char (digit_char d) = (if d < 10 then 48 + d else 87 + d :: nat)"
  by (simp add: digit_char_def)

lemma radix_str_avoids:
  assumes "2 \<le> r" and "r \<le> 36" and "c \<in> set (radix_str r n)"
  shows "48 \<le> (of_char c :: nat) \<and> (of_char c :: nat) \<le> 57 \<or> 97 \<le> (of_char c :: nat) \<and> (of_char c :: nat) \<le> 122"
proof -
  obtain d where "d < r" "c = digit_char d" using radix_str_chars [OF assms(1,2)] assms(3) by blast
  with assms(2) show ?thesis by (auto simp: digit_char_ascii)
qed

lemma dec_str_digit: "c \<in> set (dec_str n) \<Longrightarrow> 48 \<le> (of_char c :: nat) \<and> (of_char c :: nat) \<le> 57"
proof -
  assume "c \<in> set (dec_str n)"
  then obtain d where "d < 10" "c = digit_char d"
    using radix_str_chars [of 10 n] by (auto simp: dec_str_def)
  then show ?thesis by (simp add: digit_char_ascii)
qed

text \<open>Parsing what was printed gives the number back.\<close>

lemma from_str_radix_print:
  assumes "2 \<le> r" and "r \<le> 36" and "n < 2 ^ LENGTH('a)"
  shows "from_str_radix r (radix_str r n) = Some (of_nat n :: 'a::len word)"
proof -
  obtain c t where s: "radix_str r n = c # t" by (cases "radix_str r n") auto
  then have "c \<noteq> CHR ''+''" using radix_str_avoids [OF assms(1,2), of c n] by auto
  then show ?thesis
    using radix_str_val [OF assms(1,2), of n] assms(3) s
    by (simp add: from_str_radix_def)
qed

text \<open>Numbers printed with leading zeros parse as well.\<close>

definition pad0 :: "nat \<Rightarrow> string \<Rightarrow> string" where
  "pad0 k s = replicate (k - length s) (CHR ''0'') @ s"

lemma digits_val_zeros: "0 < r \<Longrightarrow> digits_val r 0 (replicate n (CHR ''0'') @ s) = digits_val r 0 s"
  by (induction n) (simp_all add: digit_val_def)

lemma from_str_radix_pad:
  assumes "2 \<le> r" and "r \<le> 36" and "n < 2 ^ LENGTH('a)"
  shows "from_str_radix r (pad0 k (radix_str r n)) = Some (of_nat n :: 'a::len word)"
proof (cases "k - length (radix_str r n)")
  case 0
  then show ?thesis using from_str_radix_print [OF assms] by (simp add: pad0_def)
next
  case (Suc j)
  then show ?thesis
    using radix_str_val [OF assms(1,2), of n] digits_val_zeros [of r "Suc j" "radix_str r n"] assms
    by (simp add: pad0_def from_str_radix_def)
qed

section \<open>Splitting and joining\<close>

definition strip_prefix :: "string \<Rightarrow> string \<Rightarrow> string option" where
  "strip_prefix p s = (if take (length p) s = p then Some (drop (length p) s) else None)"

definition strip_suffix :: "string \<Rightarrow> string \<Rightarrow> string option" where
  "strip_suffix p s =
     (if length p \<le> length s \<and> drop (length s - length p) s = p
      then Some (take (length s - length p) s) else None)"

definition split_once :: "char \<Rightarrow> string \<Rightarrow> (string \<times> string) option" where
  "split_once c s =
     (case dropWhile (\<lambda>x. x \<noteq> c) s of
        [] \<Rightarrow> None
      | _ # t \<Rightarrow> Some (takeWhile (\<lambda>x. x \<noteq> c) s, t))"

definition after_last :: "char \<Rightarrow> string \<Rightarrow> string" where
  "after_last c s = rev (takeWhile (\<lambda>x. x \<noteq> c) (rev s))"

fun join :: "string \<Rightarrow> string list \<Rightarrow> string" where
  "join sep [] = []"
| "join sep [x] = x"
| "join sep (x # y # xs) = x @ sep @ join sep (y # xs)"

text \<open>The non-empty pieces between separator characters.\<close>

function tokens :: "(char \<Rightarrow> bool) \<Rightarrow> string \<Rightarrow> string list" where
  "tokens P [] = []"
| "tokens P (c # s) =
     (if P c then tokens P s
      else takeWhile (\<lambda>x. \<not> P x) (c # s) # tokens P (dropWhile (\<lambda>x. \<not> P x) s))"
  by pat_completeness auto
termination
  by (relation "measure (length o snd)") (auto simp: le_imp_less_Suc length_dropWhile_le)

definition nl :: char where "nl = CHR 0x0A"
definition cr :: char where "cr = CHR 0x0D"

definition is_ascii_whitespace :: "char \<Rightarrow> bool" where
  "is_ascii_whitespace c \<longleftrightarrow> (of_char c :: nat) \<in> {9, 10, 12, 13, 32}"

definition split_ascii_whitespace :: "string \<Rightarrow> string list" where
  "split_ascii_whitespace s = tokens is_ascii_whitespace s"

text \<open>\<open>lines\<close>: a line ends at a line feed, with a carriage return before it dropped.\<close>

function lines_of :: "string \<Rightarrow> string list" where
  "lines_of [] = []"
| "lines_of (c # s) =
     (let l = takeWhile (\<lambda>x. x \<noteq> nl) (c # s) in
      case dropWhile (\<lambda>x. x \<noteq> nl) (c # s) of
        [] \<Rightarrow> [l]
      | _ # t \<Rightarrow> (case strip_suffix [cr] l of Some l' \<Rightarrow> l' | None \<Rightarrow> l) # lines_of t)"
  by pat_completeness auto
termination
proof (relation "measure length")
  fix c s l x t
  assume "dropWhile (\<lambda>x. x \<noteq> nl) (c # s) = x # (t :: string)"
  then have "Suc (length t) \<le> length (c # s)"
    using length_dropWhile_le [of "\<lambda>x. x \<noteq> nl" "c # s"] by simp
  then show "(t, c # s) \<in> measure length" by simp
qed simp

text \<open>What splitting does to joined pieces.\<close>

lemma dropWhile_prefix:
  "list_all Q x \<Longrightarrow> \<not> Q c \<Longrightarrow> takeWhile Q (x @ c # s) = x \<and> dropWhile Q (x @ c # s) = c # s"
  by (induction x) auto

lemma tokens_word:
  assumes "x \<noteq> []" and "list_all (\<lambda>c. \<not> P c) x" and "P c"
  shows "tokens P (x @ c # s) = x # tokens P s"
proof -
  obtain a y where x: "x = a # y" using assms(1) by (cases x) auto
  with assms(2,3) show ?thesis
    using dropWhile_prefix [of "\<lambda>c. \<not> P c" y c s] dropWhile_prefix [of "\<lambda>c. \<not> P c" x c s] by simp
qed

lemma tokens_single:
  assumes "x \<noteq> []" and "list_all (\<lambda>c. \<not> P c) x"
  shows "tokens P x = [x]"
proof -
  obtain a y where x: "x = a # y" using assms(1) by (cases x) auto
  with assms(2) have "\<not> P a" "\<forall>c \<in> set y. \<not> P c" by (auto simp: list_all_iff)
  then have "takeWhile (\<lambda>c. \<not> P c) y = y" "dropWhile (\<lambda>c. \<not> P c) y = []" by simp_all
  with \<open>\<not> P a\<close> x show ?thesis
    by (simp del: takeWhile_eq_all_conv dropWhile_eq_Nil_conv)
qed

lemma tokens_skip: "list_all P x \<Longrightarrow> tokens P (x @ s) = tokens P s"
  by (induction x) auto

lemma tokens_join:
  "list_all (\<lambda>x. x \<noteq> [] \<and> list_all (\<lambda>c. \<not> P c) x) xs \<Longrightarrow> P c \<Longrightarrow> tokens P (join [c] xs) = xs"
  by (induction "[c]" xs rule: join.induct) (simp_all add: tokens_single tokens_word)

lemma split_once_append: "list_all (\<lambda>x. x \<noteq> c) xs \<Longrightarrow> split_once c (xs @ c # ys) = Some (xs, ys)"
  using dropWhile_prefix [of "\<lambda>x. x \<noteq> c" xs c ys] by (simp add: split_once_def)

lemma split_once_Some_iff: "split_once c s = Some (a, b) \<longleftrightarrow> s = a @ c # b \<and> c \<notin> set a"
proof
  assume r: "split_once c s = Some (a, b)"
  then obtain x t where d: "dropWhile (\<lambda>x. x \<noteq> c) s = x # t" and a: "a = takeWhile (\<lambda>x. x \<noteq> c) s" "b = t"
    by (auto simp: split_once_def split: list.splits)
  from d have "x = c" using hd_dropWhile [of "\<lambda>x. x \<noteq> c" s] by simp
  with d a show "s = a @ c # b \<and> c \<notin> set a"
    using takeWhile_dropWhile_id [of "\<lambda>x. x \<noteq> c" s] by (auto dest: set_takeWhileD)
next
  assume "s = a @ c # b \<and> c \<notin> set a"
  then show "split_once c s = Some (a, b)"
    using split_once_append [of c a b] by (auto simp: list_all_iff)
qed

lemma split_once_None: "c \<notin> set xs \<Longrightarrow> split_once c xs = None"
proof -
  assume "c \<notin> set xs"
  then have "dropWhile (\<lambda>x. x \<noteq> c) xs = []" by (simp add: dropWhile_eq_Nil_conv) metis
  then show ?thesis by (simp add: split_once_def del: dropWhile_eq_Nil_conv)
qed

lemma after_last_append: "c \<notin> set ys \<Longrightarrow> after_last c (xs @ c # ys) = ys"
proof -
  assume "c \<notin> set ys"
  then have "list_all (\<lambda>x. x \<noteq> c) (rev ys)" by (auto simp: list_all_iff)
  from dropWhile_prefix [OF this, of c "rev xs"] show ?thesis by (simp add: after_last_def)
qed

lemma after_last_none: "c \<notin> set ys \<Longrightarrow> after_last c ys = ys"
proof -
  assume "c \<notin> set ys"
  then have "takeWhile (\<lambda>x. x \<noteq> c) (rev ys) = rev ys" by (subst takeWhile_eq_all_conv) auto
  then show ?thesis by (simp add: after_last_def del: takeWhile_eq_all_conv)
qed

lemma after_last_no_sep: "c \<notin> set (after_last c s)"
  by (auto simp: after_last_def dest: set_takeWhileD)

definition unlines :: "string list \<Rightarrow> string" where
  "unlines ls = concat (map (\<lambda>l. l @ [nl]) ls)"

definition is_line :: "string \<Rightarrow> bool" where
  "is_line l \<longleftrightarrow> nl \<notin> set l \<and> (l = [] \<or> last l \<noteq> cr)"

lemma strip_cr_line: "is_line l \<Longrightarrow> strip_suffix [cr] l = None"
  by (cases l rule: rev_cases) (auto simp: strip_suffix_def is_line_def)

lemma lines_of_Cons: "is_line l \<Longrightarrow> lines_of (l @ nl # s) = l # lines_of s"
proof -
  assume l: "is_line l"
  obtain c t where e: "l @ nl # s = c # t" by (cases l) auto
  have "takeWhile (\<lambda>x. x \<noteq> nl) (l @ nl # s) = l \<and> dropWhile (\<lambda>x. x \<noteq> nl) (l @ nl # s) = nl # s"
    using l by (intro dropWhile_prefix) (auto simp: is_line_def list_all_iff)
  then show ?thesis
    using strip_cr_line [OF l] unfolding e by (subst lines_of.simps) simp
qed

lemma lines_of_unlines: "list_all is_line ls \<Longrightarrow> lines_of (unlines ls) = ls"
  by (induction ls) (simp_all add: unlines_def lines_of_Cons)

end
