(* ===== verification/FrameFormat.thy ===== *)
theory FrameFormat
  imports RustStr Events
begin

text \<open>
  The labels of frames in a folded stack (src/main.rs): the text of a Lua frame from its event, and
  which native symbols count as functions.
\<close>

section \<open>Source functions\<close>

definition name_str :: "lua_stack_event \<Rightarrow> string" where
  "name_str ev = from_utf8_lossy (takeWhile (\<lambda>b. b \<noteq> 0) (le_name ev))"

definition nul :: char where "nul = CHR 0x00"

definition strip_chunkname :: "string \<Rightarrow> string" where
  "strip_chunkname s =
     (let s = dropWhile (\<lambda>c. c = nul) s;
          s = (case strip_prefix ''@'' s of Some t \<Rightarrow> t | None \<Rightarrow> s)
      in after_last (CHR ''/'') s)"

definition named_frame :: "string \<Rightarrow> lua_stack_event \<Rightarrow> string option" where
  "named_frame tag ev =
     (let chunk = strip_chunkname (name_str ev) in
      if 0 <s le_line ev then Some (tag @ '':'' @ chunk @ '':'' @ int_str (sint (le_line ev)))
      else if chunk \<noteq> [] then Some (tag @ '':'' @ chunk)
      else None)"

definition format_lua_frame :: "lua_stack_event \<Rightarrow> string option" where
  "format_lua_frame ev =
     (if le_type ev = FUNC_TYPE_LUA then named_frame ''L'' ev
      else if le_type ev = FUNC_TYPE_JIT then named_frame ''JIT'' ev
      else if le_type ev = FUNC_TYPE_C then Some (''C:'' @ alt_hex (unat (le_funcp ev)))
      else if le_type ev = FUNC_TYPE_F then Some (''builtin#'' @ int_str (sint (le_line ev)))
      else None)"

definition is_ascii_digit :: "char \<Rightarrow> bool" where
  "is_ascii_digit c \<longleftrightarrow> 48 \<le> (of_char c :: nat) \<and> (of_char c :: nat) \<le> 57"

definition is_native_function_symbol :: "string \<Rightarrow> bool" where
  "is_native_function_symbol name \<longleftrightarrow>
     name \<noteq> [] \<and>
     name \<notin> set [''$a'', ''$d'', ''$t'', ''$x'', ''$a.0'', ''$d.0'', ''$t.0'', ''$x.0''] \<and>
     \<not> (case Option.bind (strip_prefix ''$'' name) (split_once (CHR ''.'')) of
           None \<Rightarrow> False
         | Some (kind, suffix) \<Rightarrow>
             kind \<in> set [''a'', ''d'', ''t'', ''x''] \<and> suffix \<noteq> [] \<and> list_all is_ascii_digit suffix)"

section \<open>Chunk names\<close>

text \<open>A chunk name as \<open>emit_lua\<close> leaves it in the buffer: the bytes, a NUL, and older bytes.\<close>

definition chunk_buffer :: "string \<Rightarrow> u8 list \<Rightarrow> u8 list" where
  "chunk_buffer s rest = bytes_of s @ 0 # rest"

lemma byte_of_zero: "byte_of c = 0 \<longleftrightarrow> c = nul"
proof -
  have "byte_of nul = 0" by (simp add: byte_of_def nul_def)
  then show ?thesis by (metis char_of_byte_of)
qed

lemma name_str_chunk:
  assumes "le_name ev = chunk_buffer s rest" and "nul \<notin> set s" and "valid_utf8 (bytes_of s)"
  shows "name_str ev = s"
proof -
  have "takeWhile (\<lambda>b. b \<noteq> 0) (bytes_of s @ 0 # rest) = bytes_of s"
    using assms(2) by (induction s) (auto simp: byte_of_zero)
  then show ?thesis
    using assms(1,3) by (simp add: name_str_def chunk_buffer_def from_utf8_lossy_def utf8_lossy_valid)
qed

text \<open>
  A chunk name taken apart: an \<open>@\<close> or none, a directory up to its last slash or none, and the base.
  Only the first \<open>@\<close> is a mark.
\<close>

definition chunk_parts :: "string \<Rightarrow> string \<Rightarrow> string \<Rightarrow> bool" where
  "chunk_parts mark dir base \<longleftrightarrow>
     (mark = ''@'' \<or> mark = [] \<and> take 1 (dir @ base) \<noteq> ''@'') \<and>
     (dir = [] \<or> last dir = CHR ''/'') \<and> CHR ''/'' \<notin> set base \<and> nul \<notin> set (dir @ base)"

lemma strip_chunkname_parts:
  assumes "chunk_parts mark dir base"
  shows "strip_chunkname (mark @ dir @ base) = base"
proof -
  have nul: "dropWhile (\<lambda>c. c = nul) (mark @ dir @ base) = mark @ dir @ base"
  proof -
    have "nul \<notin> set (mark @ dir @ base)" using assms by (auto simp: chunk_parts_def nul_def)
    then show ?thesis using hd_in_set by (metis dropWhile_eq_self_iff)
  qed
  have mark: "(case strip_prefix ''@'' (mark @ dir @ base) of Some t \<Rightarrow> t | None \<Rightarrow> mark @ dir @ base) =
      dir @ base"
  proof (cases "mark = ''@''")
    case False
    then have "mark = []" "take 1 (dir @ base) \<noteq> ''@''" using assms by (auto simp: chunk_parts_def)
    then show ?thesis by (cases "dir @ base") (auto simp: strip_prefix_def)
  qed (simp add: strip_prefix_def)
  have base: "CHR ''/'' \<notin> set base" using assms by (simp add: chunk_parts_def)
  have "after_last (CHR ''/'') (dir @ base) = base"
  proof (cases "dir = []")
    case True
    then show ?thesis using after_last_none [OF base] by simp
  next
    case False
    then have "dir = butlast dir @ ''/''" using assms by (metis append_butlast_last_id chunk_parts_def)
    then show ?thesis using after_last_append [OF base, of "butlast dir"] by (metis append.assoc append_Cons append_Nil)
  qed
  then show ?thesis unfolding strip_chunkname_def Let_def nul mark .
qed

text \<open>Every name without a NUL has such parts.\<close>

lemma chunk_parts_exist:
  assumes "nul \<notin> set s"
  shows "\<exists>mark dir base. s = mark @ dir @ base \<and> chunk_parts mark dir base"
proof -
  obtain mark t where t: "s = mark @ t" "mark = ''@'' \<or> mark = [] \<and> take 1 t \<noteq> ''@''"
  proof (cases "take 1 s = ''@''")
    case True
    then have "s = ''@'' @ drop 1 s" by (metis append_take_drop_id)
    then show ?thesis by (rule that) simp
  qed (auto intro: that [of "[]" s])
  let ?base = "rev (takeWhile (\<lambda>c. c \<noteq> CHR ''/'') (rev t))"
    and ?dir = "rev (dropWhile (\<lambda>c. c \<noteq> CHR ''/'') (rev t))"
  have split: "t = ?dir @ ?base" by (metis rev_append rev_rev_ident takeWhile_dropWhile_id)
  moreover have "?dir = [] \<or> last ?dir = CHR ''/''"
    using hd_dropWhile [of "\<lambda>c. c \<noteq> CHR ''/''" "rev t"] by (auto simp: last_rev)
  moreover have "CHR ''/'' \<notin> set ?base" by (auto dest: set_takeWhileD)
  ultimately have "chunk_parts mark ?dir ?base"
    using assms t unfolding chunk_parts_def by (metis Un_iff set_append)
  with t(1) split show ?thesis by metis
qed

lemma sint_pos: "0 <s (w :: i32) \<longleftrightarrow> 0 < sint w"
  by (simp add: word_sless_alt)

lemma int_str_pos: "0 < i \<Longrightarrow> int_str i = dec_str (nat i)"
  by (simp add: int_str_def)

section \<open>Properties\<close>

text \<open>
  C36. The label of a Lua function's frame, interpreted or compiled: of the chunk name in the event, any
  text in UTF-8, an \<open>@\<close> in front and everything up to the last slash are dropped, and the rest \<open>base\<close>
  is shown as \<open>L:base:line\<close>, as \<open>L:base\<close> when the line is not positive, and not at all when nothing is
  left of the name either, with \<open>JIT\<close> for \<open>L\<close> on a trace.
\<close>

theorem lua_frame_label:
  assumes "le_name ev = chunk_buffer (mark @ dir @ base) rest" and "chunk_parts mark dir base"
    and "valid_utf8 (bytes_of (mark @ dir @ base))"
    and "le_type ev = FUNC_TYPE_LUA \<or> le_type ev = FUNC_TYPE_JIT"
  shows "format_lua_frame ev =
    (let tag = (if le_type ev = FUNC_TYPE_JIT then ''JIT:'' else ''L:'') in
     if 0 <s le_line ev then Some (tag @ base @ '':'' @ dec_str (nat (sint (le_line ev))))
     else if base \<noteq> [] then Some (tag @ base) else None)"
proof -
  have "nul \<notin> set (mark @ dir @ base)" using assms(2) by (auto simp: chunk_parts_def nul_def)
  then have "name_str ev = mark @ dir @ base" by (rule name_str_chunk [OF assms(1) _ assms(3)])
  then have "strip_chunkname (name_str ev) = base" using strip_chunkname_parts [OF assms(2)] by simp
  then show ?thesis
    using assms(4) func_types_distinct
    by (auto simp: format_lua_frame_def named_frame_def int_str_pos sint_pos Let_def)
qed

definition example_event :: "string \<Rightarrow> lua_stack_event" where
  "example_event name = default_lua\<lparr>le_line := 42, le_type := FUNC_TYPE_JIT,
     le_name := chunk_buffer name (replicate (127 - length name) 7)\<rparr>"

lemma lua_frame_label_witness:
  "format_lua_frame (example_event ''@leaf.lua'') = Some ''JIT:leaf.lua:42'' \<and>
   format_lua_frame (example_event ''@/srv/app.lua'') = Some ''JIT:app.lua:42''"
proof -
  have utf8: "valid_utf8 (bytes_of ''@leaf.lua'')" "valid_utf8 (bytes_of ''@/srv/app.lua'')"
    by (intro valid_ascii, simp add: byte_of_def)+
  have name: "le_name (example_event s) = chunk_buffer s (replicate (127 - length s) 7)"
    and line: "le_line (example_event s) = 42" and type: "le_type (example_event s) = FUNC_TYPE_JIT" for s
    by (simp_all add: example_event_def)
  have "chunk_parts ''@'' [] ''leaf.lua''" "chunk_parts ''@'' ''/srv/'' ''app.lua''"
    by (simp_all add: chunk_parts_def nul_def)
  from lua_frame_label [OF _ this(1), of "example_event ''@leaf.lua''"]
    lua_frame_label [OF _ this(2), of "example_event ''@/srv/app.lua''"]
  show ?thesis
    using utf8 by (simp add: name line type word_sless_alt dec_str_def radix_str.simps digit_char_def text_simps)
qed

text \<open>The label's tag is what stands before its first separator.\<close>

definition label_tag :: "string \<Rightarrow> string" where
  "label_tag s = takeWhile (\<lambda>c. c \<noteq> CHR '':'' \<and> c \<noteq> CHR ''#'') s"

lemma named_frame_tag:
  "named_frame tag ev = Some s \<Longrightarrow> CHR '':'' \<notin> set tag \<Longrightarrow> CHR ''#'' \<notin> set tag \<Longrightarrow> label_tag s = tag"
proof -
  assume tag: "CHR '':'' \<notin> set tag" "CHR ''#'' \<notin> set tag" and s: "named_frame tag ev = Some s"
  have "list_all (\<lambda>c. c \<noteq> CHR '':'' \<and> c \<noteq> CHR ''#'') tag" using tag by (auto simp: list_all_iff)
  then have "label_tag (tag @ CHR '':'' # x) = tag" for x
    using dropWhile_prefix [of "\<lambda>c. c \<noteq> CHR '':'' \<and> c \<noteq> CHR ''#''" tag "CHR '':''" x]
    by (simp add: label_tag_def)
  with s show ?thesis by (auto simp: named_frame_def Let_def split: if_splits)
qed

lemma format_lua_frame_tag:
  assumes "format_lua_frame ev = Some s"
  shows "(label_tag s, le_type ev) \<in>
    {(''L'', FUNC_TYPE_LUA), (''JIT'', FUNC_TYPE_JIT), (''C'', FUNC_TYPE_C), (''builtin'', FUNC_TYPE_F)}"
  using assms by (auto simp: format_lua_frame_def dest: named_frame_tag split: if_splits)
    (simp_all add: label_tag_def)

text \<open>
  A label tells what kind of frame it stands for: two events with the same label have the same
  type, so interpreted, compiled, C and built-in frames are never merged in the graph.
\<close>

theorem frame_label_determines_type:
  assumes "format_lua_frame ev = Some s" and "format_lua_frame ev' = Some s"
  shows "le_type ev = le_type ev'"
  using format_lua_frame_tag [OF assms(1)] format_lua_frame_tag [OF assms(2)] by auto

lemma frame_label_determines_type_witness:
  "le_type (default_lua\<lparr>le_type := FUNC_TYPE_F, le_line := 7\<rparr>) =
   le_type (default_lua\<lparr>le_type := FUNC_TYPE_F, le_line := 7, le_funcp := 5\<rparr>)"
  by (rule frame_label_determines_type [where s = "''builtin#7''"])
     (simp_all add: format_lua_frame_def func_types int_str_def dec_str_def radix_str.simps
        digit_char_def text_simps)

text \<open>The ARM mapping symbols: \<open>$a\<close>, \<open>$d\<close>, \<open>$t\<close>, \<open>$x\<close>, alone or followed by a dot and a number.\<close>

definition mapping_symbol :: "string \<Rightarrow> bool" where
  "mapping_symbol name \<longleftrightarrow>
     (\<exists>k \<in> {CHR ''a'', CHR ''d'', CHR ''t'', CHR ''x''}.
        name = [CHR ''$'', k] \<or>
        (\<exists>ds. ds \<noteq> [] \<and> list_all is_ascii_digit ds \<and> name = CHR ''$'' # k # CHR ''.'' # ds))"

text \<open>
  A native frame is shown by its symbol exactly when the symbol is a function's: every name but
  the empty one and the ARM mapping symbols.
\<close>

theorem native_symbol_iff:
  "is_native_function_symbol name \<longleftrightarrow> name \<noteq> [] \<and> \<not> mapping_symbol name"
proof (cases "\<exists>r. name = CHR ''$'' # r")
  case False
  then have "strip_prefix ''$'' name = None" by (cases name) (auto simp: strip_prefix_def)
  with False show ?thesis by (auto simp: is_native_function_symbol_def mapping_symbol_def)
next
  case True
  then obtain r where name: "name = CHR ''$'' # r" by blast
  have digits: "list_all is_ascii_digit ''0''" by (simp add: is_ascii_digit_def)
  have "(case split_once (CHR ''.'') r of None \<Rightarrow> False
         | Some (kind, sfx) \<Rightarrow> kind \<in> set [''a'', ''d'', ''t'', ''x''] \<and> sfx \<noteq> [] \<and> list_all is_ascii_digit sfx)
        \<longleftrightarrow> (\<exists>k \<in> {CHR ''a'', CHR ''d'', CHR ''t'', CHR ''x''}. \<exists>ds. ds \<noteq> [] \<and> list_all is_ascii_digit ds \<and>
             r = k # CHR ''.'' # ds)" (is "?L \<longleftrightarrow> ?R")
  proof
    assume ?L
    then obtain kind sfx where "split_once (CHR ''.'') r = Some (kind, sfx)"
      "kind \<in> set [''a'', ''d'', ''t'', ''x'']" "sfx \<noteq> []" "list_all is_ascii_digit sfx"
      by (auto split: option.splits)
    then show ?R by (auto simp: split_once_Some_iff)
  next
    assume ?R
    then obtain k ds where k: "k \<in> {CHR ''a'', CHR ''d'', CHR ''t'', CHR ''x''}" "ds \<noteq> []"
      "list_all is_ascii_digit ds" "r = [k] @ CHR ''.'' # ds" by auto
    then have "split_once (CHR ''.'') r = Some ([k], ds)" by (subst split_once_Some_iff) auto
    with k show ?L by auto
  qed
  moreover have "mapping_symbol name \<longleftrightarrow> r \<in> set [''a'', ''d'', ''t'', ''x''] \<or> ?R"
    unfolding mapping_symbol_def name list.inject by auto
  moreover have "r \<in> set [''a.0'', ''d.0'', ''t.0'', ''x.0''] \<Longrightarrow> ?R"
    using digits by fastforce
  moreover have "strip_prefix ''$'' name = Some r" by (simp add: strip_prefix_def name)
  moreover have "name \<in> set [''$a'', ''$d'', ''$t'', ''$x'', ''$a.0'', ''$d.0'', ''$t.0'', ''$x.0''] \<longleftrightarrow>
      r \<in> set [''a'', ''d'', ''t'', ''x''] \<or> r \<in> set [''a.0'', ''d.0'', ''t.0'', ''x.0'']"
    unfolding name by simp
  ultimately show ?thesis
    unfolding is_native_function_symbol_def name by (simp only: bind.bind_lunit) blast
qed

end
