(* ===== verification/StackFold.thy ===== *)
theory StackFold
  imports FrameFormat "HOL-Library.Multiset" "HOL-Library.Sublist"
begin

text \<open>
  Folding one sample into a line of the folded output (\<open>build_stack\<close> and \<open>fold_symbolized_stack\<close> of
  src/main.rs): native frames root first, with the Lua frames, deepest level first, in place of the
  native frames that have no function symbol, and the rest of them at the end.
\<close>

section \<open>Source functions\<close>

definition by_level_desc :: "lua_stack_event list \<Rightarrow> lua_stack_event list" where
  "by_level_desc lua = sort_key (\<lambda>e. - sint (le_level e)) lua"

text \<open>The two loops over the native and the sorted Lua frames.\<close>

fun merge_frames :: "bool \<Rightarrow> string option list \<Rightarrow> lua_stack_event list \<Rightarrow> string list" where
  "merge_frames include_c [] [] = []"
| "merge_frames include_c [] (e # es) =
     (case format_lua_frame e of
        Some frame \<Rightarrow> frame # merge_frames include_c [] es
      | None \<Rightarrow> merge_frames include_c [] es)"
| "merge_frames include_c (Some name # ns) es =
     (if include_c then name # merge_frames include_c ns es else merge_frames include_c ns es)"
| "merge_frames include_c (None # ns) (e # es) =
     (case format_lua_frame e of
        Some frame \<Rightarrow> frame # merge_frames include_c ns es
      | None \<Rightarrow> merge_frames include_c ns es)"
| "merge_frames include_c (None # ns) [] =
     (if include_c then ''[unknown]'' # merge_frames include_c ns [] else merge_frames include_c ns [])"

definition fold_symbolized_stack ::
    "string option list \<Rightarrow> lua_stack_event list \<Rightarrow> bool \<Rightarrow> string option" where
  "fold_symbolized_stack native_frames lua include_c =
     (let frames = merge_frames include_c native_frames (by_level_desc lua)
      in if frames = [] then None else Some (join '';'' frames))"

text \<open>
  The symbolizer is an argument: what blazesym answers for an address is a symbol's name and the
  offset in it, or nothing.
\<close>

type_synonym symbolizer = "u64 \<Rightarrow> (string \<times> u64) option"

definition native_frame :: "symbolizer \<Rightarrow> u64 \<Rightarrow> string option" where
  "native_frame symb ip =
     (case symb ip of
        Some (name, off) \<Rightarrow>
          if is_native_function_symbol name then Some (name @ ''+'' @ alt_hex (unat off)) else None
      | None \<Rightarrow> None)"

definition build_stack ::
    "symbolizer \<Rightarrow> u64 list \<Rightarrow> lua_stack_event list \<Rightarrow> bool \<Rightarrow> string option" where
  "build_stack symb ips lua include_c =
     (let native_frames =
            (if include_c then map (native_frame symb) (filter (\<lambda>ip. ip \<noteq> 0) (rev ips)) else [])
      in fold_symbolized_stack native_frames lua include_c)"

section \<open>Merging\<close>

definition lua_labels :: "lua_stack_event list \<Rightarrow> string list" where
  "lua_labels es = List.map_filter format_lua_frame es"

lemma lua_labels_simps [simp]:
  "lua_labels [] = []"
  "lua_labels (e # es) =
     (case format_lua_frame e of Some f \<Rightarrow> f # lua_labels es | None \<Rightarrow> lua_labels es)"
  by (simp_all add: lua_labels_def map_filter_simps split: option.split)

lemma merge_without_c: "merge_frames False ns es = lua_labels es"
  by (induction "False" ns es rule: merge_frames.induct) (auto split: option.splits)

lemma merge_no_native: "merge_frames c [] es = lua_labels es"
  by (induction es) (auto split: option.splits)

text \<open>Sorting by level: with distinct levels the order of arrival does not matter.\<close>

lemma by_level_desc_perm:
  assumes "mset es = mset es'" and "distinct (map le_level es)"
  shows "by_level_desc es = by_level_desc es'"
proof -
  let ?f = "\<lambda>e. - sint (le_level e)"
  have "inj_on ?f (set es)"
    using assms(2) by (auto simp: distinct_map inj_on_def signed_word_eqI)
  then show ?thesis
    unfolding by_level_desc_def using assms(1)
    by (intro sort_key_inj_key_eq) simp_all
qed

text \<open>Events in the order the walk emits them, levels ascending, are sorted by reversing them.\<close>

lemma by_level_desc_ascending:
  assumes "sorted_wrt (\<lambda>e e'. sint (le_level e) < sint (le_level e')) es"
  shows "by_level_desc es = rev es"
proof -
  let ?f = "\<lambda>e. - sint (le_level e)"
  have "sorted_wrt (\<lambda>e e'. sint (le_level e) < sint (le_level e')) es \<Longrightarrow>
        inj_on ?f (set es) \<and> sorted (map ?f (rev es))"
    by (induction es) (auto simp: sorted_append)
  then show ?thesis
    unfolding by_level_desc_def using assms by (intro sort_key_inj_key_eq) simp_all
qed

text \<open>
  The Lua frames root first: those of higher levels before those of lower ones, and those of one level
  in the order they arrived. This determines the list, which is what the sort produces.
\<close>

definition root_first :: "lua_stack_event list \<Rightarrow> lua_stack_event list \<Rightarrow> bool" where
  "root_first lua ls \<longleftrightarrow>
     mset ls = mset lua \<and> sorted_wrt (\<lambda>e e'. sint (le_level e') \<le> sint (le_level e)) ls \<and>
     (\<forall>l. filter (\<lambda>e. le_level e = l) ls = filter (\<lambda>e. le_level e = l) lua)"

lemma root_first_iff: "root_first lua ls \<longleftrightarrow> ls = by_level_desc lua"
proof -
  let ?f = "\<lambda>e. - sint (le_level e)"
  have num: "sint (le_level e) = sint (le_level e') \<longleftrightarrow> le_level e = le_level e'" for e e'
    by (auto intro: signed_word_eqI)
  then have level: "?f e = ?f e' \<longleftrightarrow> le_level e = le_level e'" for e e' by simp
  have sorted: "sorted_wrt (\<lambda>e e'. sint (le_level e') \<le> sint (le_level e)) xs \<longleftrightarrow> sorted (map ?f xs)" for xs
    by (simp add: sorted_wrt_map)
  show ?thesis
  proof
    assume "root_first lua ls"
    then have "sort_key ?f lua = ls"
      unfolding root_first_def sorted by (intro properties_for_sort_key) (auto simp: num eq_commute)
    then show "ls = by_level_desc lua" by (simp add: by_level_desc_def)
  next
    assume ls: "ls = by_level_desc lua"
    have "filter (\<lambda>e. le_level e = l) (sort_key ?f lua) = filter (\<lambda>e. le_level e = l) lua" for l
    proof -
      have "le_level e = l \<longleftrightarrow> ?f e = - sint l" for e :: lua_stack_event
        by (auto intro: signed_word_eqI)
      then show ?thesis by (simp only: sort_key_stable)
    qed
    then show "root_first lua ls"
      unfolding ls by_level_desc_def root_first_def sorted by simp
  qed
qed

text \<open>
  What stands at the \<open>j\<close>-th native frame: its symbol, or in place of a frame without one the Lua frame
  whose turn it is, or \<open>[unknown]\<close> when they are used up.
\<close>

definition frames_at :: "bool \<Rightarrow> string option list \<Rightarrow> lua_stack_event list \<Rightarrow> nat \<Rightarrow> string list" where
  "frames_at include_c ns ls j =
     (case ns ! j of
        Some name \<Rightarrow> if include_c then [name] else []
      | None \<Rightarrow>
          let k = length (filter (\<lambda>n. n = None) (take j ns)) in
          if k < length ls then (case format_lua_frame (ls ! k) of Some label \<Rightarrow> [label] | None \<Rightarrow> [])
          else if include_c then [''[unknown]''] else [])"

definition placed_frames :: "bool \<Rightarrow> string option list \<Rightarrow> lua_stack_event list \<Rightarrow> string list" where
  "placed_frames include_c ns ls =
     concat (map (frames_at include_c ns ls) [0..<length ns]) @
     lua_labels (drop (length (filter (\<lambda>n. n = None) ns)) ls)"

lemma frames_at_Suc:
  "frames_at c (Some name # ns) ls (Suc j) = frames_at c ns ls j"
  "frames_at c (None # ns) (e # ls) (Suc j) = frames_at c ns ls j"
  "frames_at c (None # ns) [] (Suc j) = frames_at c ns [] j"
  by (simp_all add: frames_at_def Let_def split: option.split)

lemma placed_frames_Cons:
  "placed_frames c (Some name # ns) ls = (if c then [name] else []) @ placed_frames c ns ls"
  "placed_frames c (None # ns) (e # ls) =
     (case format_lua_frame e of Some label \<Rightarrow> [label] | None \<Rightarrow> []) @ placed_frames c ns ls"
  "placed_frames c (None # ns) [] = (if c then [''[unknown]''] else []) @ placed_frames c ns []"
  unfolding placed_frames_def length_Cons upt_conv_Cons [OF zero_less_Suc] map_Suc_upt [symmetric]
  by (simp_all add: comp_def frames_at_Suc) (simp_all add: frames_at_def split: option.split)

lemma merge_placed: "merge_frames c ns es = placed_frames c ns es"
proof (induction c ns es rule: merge_frames.induct)
  case (2 c e es)
  then show ?case by (simp add: placed_frames_def merge_no_native split: option.split)
qed (simp_all add: placed_frames_Cons split: option.split, simp add: placed_frames_def)

section \<open>Properties\<close>

text \<open>
  A folded stack does not depend on the order in which its Lua events arrive.
\<close>

theorem fold_ignores_arrival_order:
  assumes "mset lua = mset lua'" and "distinct (map le_level lua)"
  shows "fold_symbolized_stack ns lua c = fold_symbolized_stack ns lua' c"
  using by_level_desc_perm [OF assms] by (simp add: fold_symbolized_stack_def)

definition ev_at :: "i32 \<Rightarrow> i32 \<Rightarrow> lua_stack_event" where
  "ev_at lvl line = default_lua\<lparr>le_type := FUNC_TYPE_F, le_level := lvl, le_line := line\<rparr>"

lemma fold_ignores_arrival_order_witness:
  "fold_symbolized_stack [None] [ev_at 0 3, ev_at 1 5] True =
   fold_symbolized_stack [None] [ev_at 1 5, ev_at 0 3] True"
  by (rule fold_ignores_arrival_order) (simp_all add: ev_at_def)

text \<open>
  C31. The folded stack, frame by frame. The Lua frames are put root first, in the one order that has
  higher levels first and keeps the order of arrival within a level. Then each native frame with a
  function symbol stands at its place (when native stacks are included), the \<open>k\<close>-th native frame
  without one is replaced by the \<open>k\<close>-th Lua frame, or by \<open>[unknown]\<close> when there is none left, and the
  Lua frames that found no place follow at the end. A Lua frame is never shown twice; one without a
  label takes its place and shows nothing. The line is these frames joined, and a stack without any
  frame gives none.
\<close>

theorem fold_places_frames:
  "\<exists>!ls. root_first lua ls \<and>
     fold_symbolized_stack ns lua include_c =
       (let frames = placed_frames include_c ns ls
        in if frames = [] then None else Some (join '';'' frames))"
proof (rule ex1I [of _ "by_level_desc lua"])
  show "root_first lua (by_level_desc lua) \<and> fold_symbolized_stack ns lua include_c =
       (let frames = placed_frames include_c ns (by_level_desc lua)
        in if frames = [] then None else Some (join '';'' frames))"
    by (simp add: root_first_iff merge_placed fold_symbolized_stack_def Let_def)
qed (simp add: root_first_iff)

text \<open>
  Without native stacks the output is the Lua stack alone: whatever addresses were sampled and
  however they symbolize, the line is the labels of the Lua frames, and a sample without any gives
  none.
\<close>

theorem lua_only_stack:
  "build_stack symb ips lua False =
     (let labels = lua_labels (by_level_desc lua)
      in if labels = [] then None else Some (join '';'' labels))"
  by (simp add: build_stack_def fold_symbolized_stack_def merge_without_c Let_def)

end
