(* ===== verification/NativeUnwind.thy ===== *)
theory NativeUnwind
  imports Snapshot
begin

text \<open>
  Unwinding one native sample in user space (src/unwind.rs): the sample taken from an event, reads of
  the stack snapshot, and the loop over the frames framehop yields. framehop itself is an argument:
  one call of its iterator's \<open>next\<close> is given the stack reader and its own state and returns the next
  frame's lookup address (or nothing, at the end and on errors alike), the new state, and the
  addresses it asked the reader for.
\<close>

section \<open>Source types and functions\<close>

record native_sample =
  fallback_ips :: "u64 list"
  ns_ip :: u64
  ns_sp :: u64
  ns_fp :: u64
  ns_lr :: u64
  ns_stack :: "u8 list"

definition from_event :: "native_event \<Rightarrow> native_sample" where
  "from_event ev =
     (let ip_count = unat (min (ne_ip_cnt ev) (of_nat rs_PERF_MAX_STACK_DEPTH));
          stack_len = unat (min (ne_stack_len ev) (of_nat rs_USER_STACK_SNAPSHOT_SIZE))
      in \<lparr>fallback_ips = take ip_count (ne_ips ev), ns_ip = ne_ip ev, ns_sp = ne_sp ev,
          ns_fp = ne_fp ev, ns_lr = ne_lr ev, ns_stack = take stack_len (ne_stack ev)\<rparr>)"

text \<open>\<open>usize\<close> is 64 bits; every step is checked, so no address wraps into the snapshot.\<close>

definition read_stack_word :: "u64 \<Rightarrow> u8 list \<Rightarrow> u64 \<Rightarrow> u64 option" where
  "read_stack_word stack_base stack address =
     (case checked_sub address stack_base of
        None \<Rightarrow> None
      | Some off \<Rightarrow>
          (case checked_add off 8 of
             None \<Rightarrow> None
           | Some fin \<Rightarrow>
               if unat fin \<le> length stack
               then Some (le_word (take 8 (drop (unat off) stack)))
               else None))"

record unwind_attempt =
  ua_ips :: "u64 list option"
  snapshot_truncated :: bool
  depth_limited :: bool

definition default_attempt :: unwind_attempt where
  "default_attempt = \<lparr>ua_ips = None, snapshot_truncated = False, depth_limited = False\<rparr>"

type_synonym stack_reader = "u64 \<Rightarrow> u64 option"

text \<open>The registers framehop starts from, for each architecture.\<close>

datatype unwind_regs =
    RegsX86_64 (x86_ip: u64) (x86_sp: u64) (x86_bp: u64)
  | RegsAarch64 (ptr_auth_mask: u64) (aarch64_lr: u64) (aarch64_sp: u64) (aarch64_fp: u64)

text \<open>
  framehop: the iterator's start (from its cache) and its \<open>next\<close>, the cache an iterator leaves
  behind, the highest code address of the loaded modules and \<open>PtrAuthMask\<close>.
\<close>

record ('c, 's) framehop =
  fh_iter_frames :: "u64 \<Rightarrow> unwind_regs \<Rightarrow> 'c \<Rightarrow> 's"
  fh_next :: "stack_reader \<Rightarrow> 's \<Rightarrow> u64 option \<times> 's \<times> u64 list"
  fh_cache :: "'s \<Rightarrow> 'c"
  fh_max_known :: u64
  fh_ptr_mask :: "u64 \<Rightarrow> u64"

definition native_regs :: "arch \<Rightarrow> ('c, 's) framehop \<Rightarrow> native_sample \<Rightarrow> u64 \<Rightarrow> unwind_regs" where
  "native_regs arch fh sample max_known_address =
     (case arch of
        X86_64 \<Rightarrow> RegsX86_64 (ns_ip sample) (ns_sp sample) (ns_fp sample)
      | Aarch64 \<Rightarrow>
          RegsAarch64 (fh_ptr_mask fh max_known_address) (ns_lr sample) (ns_sp sample) (ns_fp sample))"

text \<open>
  The loop with room for \<open>n\<close> more frames: the frames, whether the limit was reached, the addresses
  read and the iterator at the end.
\<close>

fun unwind_loop ::
    "nat \<Rightarrow> ('c, 's) framehop \<Rightarrow> stack_reader \<Rightarrow> 's \<Rightarrow> u64 list \<times> bool \<times> u64 list \<times> 's" where
  "unwind_loop 0 fh rd s = ([], True, [], s)"
| "unwind_loop (Suc n) fh rd s =
     (case fh_next fh rd s of
        (None, s', asked) \<Rightarrow> ([], False, asked, s')
      | (Some a, s', asked) \<Rightarrow>
          (case unwind_loop n fh rd s' of
             (frames, limited, asked', t) \<Rightarrow> (a # frames, limited, asked @ asked', t)))"

text \<open>The loop of one sample, with the unwinder's cache.\<close>

definition run_iterator ::
    "arch \<Rightarrow> ('c, 's) framehop \<Rightarrow> 'c \<Rightarrow> native_sample \<Rightarrow> u64 list \<times> bool \<times> u64 list \<times> 's" where
  "run_iterator arch fh cache sample =
     unwind_loop rs_PERF_MAX_STACK_DEPTH fh (read_stack_word (ns_sp sample) (ns_stack sample))
       (fh_iter_frames fh (ns_ip sample) (native_regs arch fh sample (fh_max_known fh)) cache)"

definition unwind ::
    "arch \<Rightarrow> ('c, 's) framehop \<Rightarrow> 'c \<Rightarrow> native_sample \<Rightarrow> unwind_attempt \<times> 'c" where
  "unwind arch fh cache sample =
     (if ns_ip sample = 0 \<or> ns_sp sample = 0 then (default_attempt, cache)
      else if length (ns_stack sample) < 8
      then (default_attempt\<lparr>snapshot_truncated := True\<rparr>, cache)
      else
        let (frames, limited, asked, s) = run_iterator arch fh cache sample
        in (\<lparr>ua_ips = (if 2 \<le> length frames then Some frames else None),
             snapshot_truncated =
               list_ex (\<lambda>a. read_stack_word (ns_sp sample) (ns_stack sample) a = None) asked,
             depth_limited = limited\<rparr>, fh_cache fh s))"

section \<open>Stack reads\<close>

lemma read_stack_word_Some_iff:
  "read_stack_word base st a = Some w \<longleftrightarrow>
     base \<le> a \<and> unat (a - base) + 8 \<le> length st \<and> unat (a - base) + 8 < 2 ^ 64 \<and>
     w = le_word (take 8 (drop (unat (a - base)) st))"
proof -
  have off: "unat off = unat (a - base)" if "base \<le> a" "checked_sub a base = Some off" for off
    using that by (simp add: checked_sub_def)
  show ?thesis
  proof (cases "base \<le> a")
    case False
    then show ?thesis by (simp add: read_stack_word_def checked_sub_def)
  next
    case True
    let ?o = "a - base"
    have ov: "uint ?o + uint (8 :: u64) < 2 ^ LENGTH(64) \<longleftrightarrow> unat ?o + 8 < 2 ^ 64"
      using of_nat_less_iff [of "unat ?o + 8" "2 ^ 64", where 'a = int] by simp
    have "unat (?o + 8) = unat ?o + 8" if "unat ?o + 8 < 2 ^ 64"
      using that unat_plus_simple [of ?o 8] by (simp add: unat_word_ariths)
    with True ov show ?thesis
      by (auto simp: read_stack_word_def checked_sub_def checked_add_def)
  qed
qed

text \<open>A slice of known memory is known memory.\<close>

lemma mem_range_take: "mem_range M a n = Some bs \<Longrightarrow> k \<le> n \<Longrightarrow> mem_range M a k = Some (take k bs)"
proof (induction M a n arbitrary: bs k rule: mem_range.induct)
  case (2 M a n)
  then show ?case by (cases k) (auto split: option.splits)
qed simp

lemma mem_range_drop:
  "mem_range M a n = Some bs \<Longrightarrow> i \<le> n \<Longrightarrow> mem_range M (a + of_nat i) (n - i) = Some (drop i bs)"
proof (induction M a n arbitrary: bs i rule: mem_range.induct)
  case (2 M a n)
  then show ?case by (cases i) (auto simp: add.assoc split: option.splits)
qed simp

lemma mem_range_slice:
  assumes "mem_range M a n = Some bs" and "i + k \<le> n"
  shows "mem_range M (a + of_nat i) k = Some (take k (drop i bs))"
  using mem_range_take [OF mem_range_drop [OF assms(1)], of i k] assms(2) by simp

section \<open>The loop\<close>

lemma unwind_loop_bound: "unwind_loop n fh rd s = (frames, limited, asked, t) \<Longrightarrow> length frames \<le> n"
  by (induction n arbitrary: s frames limited asked) (auto split: prod.splits option.splits)

lemma unwind_loop_limited:
  "unwind_loop n fh rd s = (frames, limited, asked, t) \<Longrightarrow> limited \<longleftrightarrow> length frames = n"
  by (induction n arbitrary: s frames limited asked)
     (auto split: prod.splits option.splits dest: unwind_loop_bound)

section \<open>Properties\<close>

text \<open>
  C25. Stack reads are sound: a word the unwinder gets from a snapshot of the target's memory is the
  word the target has at that address, and only addresses whose eight bytes lie in the snapshot
  can be read.
\<close>

theorem read_stack_word_sound:
  assumes "mem_range M base (length st) = Some st" and "read_stack_word base st a = Some w"
  shows "base \<le> a \<and> unat (a - base) + 8 \<le> length st \<and>
         (\<exists>bs. mem_range M a 8 = Some bs \<and> w = le_word bs)"
proof -
  have r: "base \<le> a" "unat (a - base) + 8 \<le> length st"
    "w = le_word (take 8 (drop (unat (a - base)) st))"
    using assms(2) by (simp_all add: read_stack_word_Some_iff)
  have "mem_range M (base + of_nat (unat (a - base))) 8 = Some (take 8 (drop (unat (a - base)) st))"
    by (rule mem_range_slice [OF assms(1) r(2)])
  with r show ?thesis by simp
qed

lemma read_stack_word_sound_witness:
  "\<exists>bs. mem_range (\<lambda>a. Some 7) 0x1003 8 = Some bs \<and> le_word (replicate 8 7) = (le_word bs :: u64)"
proof -
  have "mem_range (\<lambda>a. Some 7) a n = Some (replicate n 7)" for a n
    by (induction n arbitrary: a) simp_all
  then have "mem_range (\<lambda>a. Some 7) 0x1000 (length (replicate 16 7 :: u8 list)) = Some (replicate 16 7)"
    by (simp only: length_replicate)
  moreover have "read_stack_word 0x1000 (replicate 16 7) 0x1003 = Some (le_word (replicate 8 7))"
    by (simp add: read_stack_word_Some_iff)
  ultimately show ?thesis
    using read_stack_word_sound [of "\<lambda>a. Some 7" "0x1000" "replicate 16 7"] by blast
qed

text \<open>The addresses framehop asked the reader for while a sample was unwound.\<close>

definition addresses_asked :: "arch \<Rightarrow> ('c, 's) framehop \<Rightarrow> 'c \<Rightarrow> native_sample \<Rightarrow> u64 list" where
  "addresses_asked arch fh cache sample =
     (case run_iterator arch fh cache sample of (frames, limited, asked, s) \<Rightarrow> asked)"

text \<open>
  C26. The outcome of unwinding: never more than \<open>PERF_MAX_STACK_DEPTH\<close> addresses and never fewer than
  two, the limit flag exactly when the loop stopped with all of them, and the truncation flag
  exactly when a sample with registers has a snapshot without a single word or one that could not
  answer a read of the unwinder.
\<close>

theorem unwind_outcome:
  "let attempt = fst (unwind arch fh cache sm) in
   (case ua_ips attempt of
      None \<Rightarrow> \<not> depth_limited attempt
    | Some ips \<Rightarrow> 2 \<le> length ips \<and> length ips \<le> PERF_MAX_STACK_DEPTH \<and>
        (depth_limited attempt \<longleftrightarrow> length ips = PERF_MAX_STACK_DEPTH)) \<and>
   (snapshot_truncated attempt \<longleftrightarrow>
      ns_ip sm \<noteq> 0 \<and> ns_sp sm \<noteq> 0 \<and>
      (if length (ns_stack sm) < 8 then True
       else list_ex (\<lambda>a. read_stack_word (ns_sp sm) (ns_stack sm) a = None)
              (addresses_asked arch fh cache sm)))"
proof -
  obtain frames limited asked s where l: "run_iterator arch fh cache sm = (frames, limited, asked, s)"
    by (metis prod_cases4)
  from unwind_loop_bound [OF l [unfolded run_iterator_def]]
    unwind_loop_limited [OF l [unfolded run_iterator_def]] show ?thesis
    unfolding unwind_def addresses_asked_def l Let_def
    by (auto simp: default_attempt_def rs_consts common_consts)
qed

text \<open>The sample taken from an event never reaches outside the event's arrays.\<close>

lemma from_event_bounds:
  "length (fallback_ips (from_event ev)) \<le> PERF_MAX_STACK_DEPTH"
  "length (ns_stack (from_event ev)) \<le> USER_STACK_SNAPSHOT_SIZE"
  by (simp_all add: from_event_def rs_consts common_consts min_def word_le_nat_alt Let_def)

lemma from_event_exact:
  assumes "unat (ne_ip_cnt ev) \<le> PERF_MAX_STACK_DEPTH" and "unat (ne_stack_len ev) \<le> USER_STACK_SNAPSHOT_SIZE"
  shows "fallback_ips (from_event ev) = take (unat (ne_ip_cnt ev)) (ne_ips ev)"
    and "ns_stack (from_event ev) = take (unat (ne_stack_len ev)) (ne_stack ev)"
  using assms by (simp_all add: from_event_def rs_consts common_consts min_def word_le_nat_alt Let_def)

end
