(* ===== verification/Pending.thy ===== *)
theory Pending
  imports StackFold NativeUnwind Wire "HOL-Library.List_Lexorder"
begin

text \<open>
  The samples in flight (\<open>Pending\<close> of src/main.rs): the two perf-buffer callbacks that collect native
  and Lua events by key, the final pass that folds every sample into a line and counts the lines,
  and the file they are written to. A hash map is a HOL map; where the code iterates over one, the
  order of iteration is an argument.
\<close>

section \<open>Source types\<close>

record unwind_stats =
  succeeded :: u64
  fallback :: u64
  st_snapshot_truncated :: u64
  st_depth_limited :: u64

record pending =
  pd_native :: "sample_key \<Rightarrow> u64 list option"
  pd_lua :: "sample_key \<Rightarrow> lua_stack_event list option"
  pd_folded :: "string \<Rightarrow> u64 option"
  pd_stats :: unwind_stats

definition default_pending :: pending where
  "default_pending =
     \<lparr>pd_native = Map.empty, pd_lua = Map.empty, pd_folded = Map.empty,
      pd_stats = \<lparr>succeeded = 0, fallback = 0, st_snapshot_truncated = 0, st_depth_limited = 0\<rparr>\<rparr>"

text \<open>An unwinder has a state of its own (framehop's cache) that every sample may change.\<close>

type_synonym 'u unwinder = "'u \<Rightarrow> native_sample \<Rightarrow> unwind_attempt \<times> 'u"

section \<open>Callbacks\<close>

definition u64_of_bool :: "bool \<Rightarrow> u64" where "u64_of_bool b = (if b then 1 else 0)"

definition handle_native ::
    "'u unwinder option \<Rightarrow> bool \<Rightarrow> native_event \<Rightarrow> pending \<times> 'u \<Rightarrow> pending \<times> 'u" where
  "handle_native unwinder collect_native ne pu =
     (let (g, u) = pu; sample = from_event ne in
      case unwinder of
        Some run \<Rightarrow>
          (let (attempt, u) = run u sample;
               ok = (ua_ips attempt \<noteq> None);
               ips = (case ua_ips attempt of Some ips \<Rightarrow> ips | None \<Rightarrow> fallback_ips sample);
               st = pd_stats g
           in (g\<lparr>pd_native := (pd_native g)(ne_key ne \<mapsto> ips),
                 pd_stats := \<lparr>succeeded = succeeded st + u64_of_bool ok,
                              fallback = fallback st + u64_of_bool (\<not> ok),
                              st_snapshot_truncated = st_snapshot_truncated st +
                                u64_of_bool (snapshot_truncated attempt),
                              st_depth_limited = st_depth_limited st +
                                u64_of_bool (depth_limited attempt)\<rparr>\<rparr>, u))
      | None \<Rightarrow>
          (let st = pd_stats g in
           (g\<lparr>pd_native := (pd_native g)(ne_key ne \<mapsto> fallback_ips sample),
              pd_stats := (if collect_native then st\<lparr>fallback := fallback st + 1\<rparr> else st)\<rparr>, u)))"

definition handle_lua :: "lua_stack_event \<Rightarrow> pending \<Rightarrow> pending" where
  "handle_lua e g =
     g\<lparr>pd_lua := (pd_lua g)(le_key e \<mapsto> (case pd_lua g (le_key e) of Some es \<Rightarrow> es | None \<Rightarrow> []) @ [e])\<rparr>"

text \<open>What the two perf buffers deliver: the bytes of a native or of a Lua sample.\<close>

datatype delivery = NativeData "u8 list" | LuaData "u8 list"

fun deliver :: "'u unwinder option \<Rightarrow> bool \<Rightarrow> delivery \<Rightarrow> pending \<times> 'u \<Rightarrow> pending \<times> 'u" where
  "deliver unw collect (NativeData data) (g, u) =
     (case native_event_from_bytes data of
        Some ne \<Rightarrow> handle_native unw collect ne (g, u)
      | None \<Rightarrow> (g, u))"
| "deliver unw collect (LuaData data) (g, u) =
     (case from_bytes_aligned data of
        Some e \<Rightarrow> (handle_lua e g, u)
      | None \<Rightarrow> (g, u))"

section \<open>The final pass\<close>

definition fold_sample ::
    "symbolizer \<Rightarrow> bool \<Rightarrow> sample_key \<times> u64 list \<Rightarrow> pending \<Rightarrow> pending" where
  "fold_sample symb include_c kv g =
     (let (k, ips) = kv;
          lua = (case pd_lua g k of Some es \<Rightarrow> es | None \<Rightarrow> []);
          g = g\<lparr>pd_lua := (pd_lua g)(k := None)\<rparr>
      in case build_stack symb ips lua include_c of
           Some stack \<Rightarrow>
             g\<lparr>pd_folded := (pd_folded g)(stack \<mapsto>
                 (case pd_folded g stack of Some n \<Rightarrow> n | None \<Rightarrow> 0) + 1)\<rparr>
         | None \<Rightarrow> g)"

text \<open>\<open>order\<close> lists the entries of the native map in the order the map is iterated in.\<close>

definition finalize ::
    "symbolizer \<Rightarrow> bool \<Rightarrow> (sample_key \<times> u64 list) list \<Rightarrow> pending \<Rightarrow> string \<Rightarrow> u64 option" where
  "finalize symb include_c order g =
     pd_folded (fold (fold_sample symb include_c) order (g\<lparr>pd_native := Map.empty\<rparr>))"

definition folded_line :: "string \<Rightarrow> u64 \<Rightarrow> string" where
  "folded_line k n = k @ '' '' @ dec_str (unat n)"

definition write_folded :: "(string \<Rightarrow> u64 option) \<Rightarrow> string list \<Rightarrow> string" where
  "write_folded folded keys = unlines (map (\<lambda>k. folded_line k (the (folded k))) (sort keys))"

section \<open>Counting\<close>

definition lua_events_of :: "pending \<Rightarrow> sample_key \<Rightarrow> lua_stack_event list" where
  "lua_events_of g k = (case pd_lua g k of Some es \<Rightarrow> es | None \<Rightarrow> [])"

definition sample_stack :: "symbolizer \<Rightarrow> bool \<Rightarrow> pending \<Rightarrow> sample_key \<times> u64 list \<Rightarrow> string option" where
  "sample_stack symb include_c g kv = build_stack symb (snd kv) (lua_events_of g (fst kv)) include_c"

definition add_count :: "u64 option \<Rightarrow> nat \<Rightarrow> u64 option" where
  "add_count c n = (if n = 0 then c else Some ((case c of Some m \<Rightarrow> m | None \<Rightarrow> 0) + of_nat n))"

lemma add_count_Suc: "add_count (Some ((case c of Some m \<Rightarrow> m | None \<Rightarrow> 0) + 1)) n = add_count c (Suc n)"
  by (simp add: add_count_def)

lemma fold_sample_fields:
  "pd_folded (fold_sample symb c kv g) s =
     (if sample_stack symb c g kv = Some s then add_count (pd_folded g s) 1 else pd_folded g s)"
  "lua_events_of (fold_sample symb c kv g) k = (if k = fst kv then [] else lua_events_of g k)"
  by (auto simp: fold_sample_def sample_stack_def lua_events_of_def add_count_def Let_def
      split: prod.splits option.splits)

lemma fold_samples_count:
  "distinct (map fst order) \<Longrightarrow>
   pd_folded (fold (fold_sample symb c) order g) s =
     add_count (pd_folded g s) (length (filter (\<lambda>kv. sample_stack symb c g kv = Some s) order))"
proof (induction order arbitrary: g)
  case Nil
  then show ?case by (simp add: add_count_def)
next
  case (Cons kv order)
  let ?g = "fold_sample symb c kv g"
  have "sample_stack symb c ?g kv' = sample_stack symb c g kv'" if "kv' \<in> set order" for kv'
    using that Cons.prems by (auto simp: sample_stack_def fold_sample_fields(2) image_iff)
  then have "filter (\<lambda>kv'. sample_stack symb c ?g kv' = Some s) order =
             filter (\<lambda>kv'. sample_stack symb c g kv' = Some s) order"
    by (intro filter_cong) simp_all
  with Cons show ?case
    by (simp add: fold_sample_fields(1)) (simp add: add_count_def)
qed

section \<open>Collecting\<close>

definition native_data :: "delivery list \<Rightarrow> native_event list" where
  "native_data ds = List.map_filter (\<lambda>d. case d of NativeData b \<Rightarrow> native_event_from_bytes b | LuaData b \<Rightarrow> None) ds"

definition lua_data :: "delivery list \<Rightarrow> lua_stack_event list" where
  "lua_data ds = List.map_filter (\<lambda>d. case d of LuaData b \<Rightarrow> from_bytes_aligned b | NativeData b \<Rightarrow> None) ds"

lemma data_simps [simp]:
  "native_data [] = []" "lua_data [] = []"
  "native_data (NativeData b # ds) =
     (case native_event_from_bytes b of Some ne \<Rightarrow> ne # native_data ds | None \<Rightarrow> native_data ds)"
  "native_data (LuaData b # ds) = native_data ds"
  "lua_data (LuaData b # ds) =
     (case from_bytes_aligned b of Some e \<Rightarrow> e # lua_data ds | None \<Rightarrow> lua_data ds)"
  "lua_data (NativeData b # ds) = lua_data ds"
  by (simp_all add: native_data_def lua_data_def map_filter_simps split: option.split)

text \<open>
  An unwinder answers by \<open>att\<close> when the addresses it finds for a sample do not depend on its cache,
  which only saves framehop the lookup of a rule. \<open>kept_ips\<close> is what user space keeps then.
\<close>

definition answers :: "'u unwinder option \<Rightarrow> (native_sample \<Rightarrow> u64 list option) option \<Rightarrow> bool" where
  "answers unw att \<longleftrightarrow>
     (case unw of
        None \<Rightarrow> att = None
      | Some run \<Rightarrow>
          (case att of None \<Rightarrow> False | Some f \<Rightarrow> (\<forall>u sample. ua_ips (fst (run u sample)) = f sample)))"

definition kept_ips :: "(native_sample \<Rightarrow> u64 list option) option \<Rightarrow> native_sample \<Rightarrow> u64 list" where
  "kept_ips att sample =
     (case att of
        None \<Rightarrow> fallback_ips sample
      | Some f \<Rightarrow> (case f sample of Some ips \<Rightarrow> ips | None \<Rightarrow> fallback_ips sample))"

text \<open>\<open>UserUnwinder::unwind\<close> answers so when the frames of framehop's iterator do not depend on the cache.\<close>

lemma unwind_answers:
  assumes "\<And>cache cache' sample.
      fst (run_iterator arch fh cache sample) = fst (run_iterator arch fh cache' sample)"
  shows "answers (Some (unwind arch fh)) (Some (\<lambda>sample. ua_ips (fst (unwind arch fh cache0 sample))))"
proof -
  have "ua_ips (fst (unwind arch fh cache sample)) =
      (if ns_ip sample = 0 \<or> ns_sp sample = 0 \<or> length (ns_stack sample) < 8 then None
       else let frames = fst (run_iterator arch fh cache sample)
            in if 2 \<le> length frames then Some frames else None)" for cache sample
    by (auto simp: unwind_def default_attempt_def Let_def split: prod.split)
  then show ?thesis unfolding answers_def option.case using assms by metis
qed

lemma handle_native_fields:
  "pd_lua (fst (handle_native unw c ne (g, u))) = pd_lua g"
  "pd_folded (fst (handle_native unw c ne (g, u))) = pd_folded g"
  "dom (pd_native (fst (handle_native unw c ne (g, u)))) = insert (ne_key ne) (dom (pd_native g))"
  by (auto simp: handle_native_def Let_def split: option.splits prod.splits)

lemma handle_native_keeps:
  assumes "answers unw att"
  shows "pd_native (fst (handle_native unw c ne (g, u))) =
     (pd_native g)(ne_key ne \<mapsto> kept_ips att (from_event ne))"
  using assms
  by (auto simp: handle_native_def kept_ips_def answers_def Let_def split: option.splits prod.splits)
     (metis fst_conv option.distinct(1) option.inject)+

lemma handle_lua_fields:
  "lua_events_of (handle_lua e g) k =
     (if le_key e = k then lua_events_of g k @ [e] else lua_events_of g k)"
  "pd_native (handle_lua e g) = pd_native g" "pd_folded (handle_lua e g) = pd_folded g"
  "pd_stats (handle_lua e g) = pd_stats g"
  by (auto simp: handle_lua_def lua_events_of_def)

lemma deliver_fields:
  "lua_events_of (fst (deliver unw c d (g, u))) k =
     lua_events_of g k @ filter (\<lambda>e. le_key e = k) (lua_data [d])"
  "pd_folded (fst (deliver unw c d (g, u))) = pd_folded g"
  "dom (pd_native (fst (deliver unw c d (g, u)))) = dom (pd_native g) \<union> ne_key ` set (native_data [d])"
proof (atomize (full), cases d)
  case (NativeData b)
  have "lua_events_of (fst (handle_native unw c ne (g, u))) k = lua_events_of g k" for ne
    by (simp add: lua_events_of_def handle_native_fields)
  with NativeData show "lua_events_of (fst (deliver unw c d (g, u))) k =
     lua_events_of g k @ filter (\<lambda>e. le_key e = k) (lua_data [d]) \<and>
     pd_folded (fst (deliver unw c d (g, u))) = pd_folded g \<and>
     dom (pd_native (fst (deliver unw c d (g, u)))) = dom (pd_native g) \<union> ne_key ` set (native_data [d])"
    by (cases "native_event_from_bytes b") (simp_all add: handle_native_fields)
next
  case (LuaData b)
  then show "lua_events_of (fst (deliver unw c d (g, u))) k =
     lua_events_of g k @ filter (\<lambda>e. le_key e = k) (lua_data [d]) \<and>
     pd_folded (fst (deliver unw c d (g, u))) = pd_folded g \<and>
     dom (pd_native (fst (deliver unw c d (g, u)))) = dom (pd_native g) \<union> ne_key ` set (native_data [d])"
    by (cases "from_bytes_aligned b") (simp_all add: handle_lua_fields)
qed

lemma data_Cons: "native_data (d # ds) = native_data [d] @ native_data ds"
  "lua_data (d # ds) = lua_data [d] @ lua_data ds"
  by (cases d; simp split: option.splits)+

lemma deliveries_collect:
  "lua_events_of (fst (fold (deliver unw c) ds (g, u))) k =
     lua_events_of g k @ filter (\<lambda>e. le_key e = k) (lua_data ds) \<and>
   pd_folded (fst (fold (deliver unw c) ds (g, u))) = pd_folded g \<and>
   dom (pd_native (fst (fold (deliver unw c) ds (g, u)))) =
     dom (pd_native g) \<union> ne_key ` set (native_data ds)"
proof (induction ds arbitrary: g u)
  case (Cons d ds)
  obtain g' u' where d: "deliver unw c d (g, u) = (g', u')" by force
  show ?case
    using Cons [of g' u'] deliver_fields [of unw c d g u] unfolding d
    by (simp add: d data_Cons [of d ds] Un_assoc image_Un)
qed simp

text \<open>A sample keeps the addresses of its last native event.\<close>

lemma deliveries_native:
  assumes "answers unw att"
  shows "pd_native (fst (fold (deliver unw c) ds (g, u))) =
     pd_native g ++ map_of (rev (map (\<lambda>ne. (ne_key ne, kept_ips att (from_event ne))) (native_data ds)))"
proof (induction ds arbitrary: g u)
  case (Cons d ds)
  obtain g' u' where d: "deliver unw c d (g, u) = (g', u')" by force
  have "pd_native g' = pd_native g ++
      map_of (rev (map (\<lambda>ne. (ne_key ne, kept_ips att (from_event ne))) (native_data [d])))"
  proof (cases d)
    case (NativeData b)
    then show ?thesis
      using d handle_native_keeps [OF assms, of c _ g u]
      by (cases "native_event_from_bytes b") (auto, metis fst_conv)
  next
    case (LuaData b)
    then show ?thesis
      using d by (cases "from_bytes_aligned b") (auto simp: handle_lua_fields)
  qed
  with Cons [of g' u'] show ?case
    by (simp add: d data_Cons [of d ds])
qed simp

text \<open>What the final pass counts, for a map without a line yet.\<close>

lemma finalize_count:
  assumes "map_of order = pd_native g" and "distinct (map fst order)" and "pd_folded g = Map.empty"
  shows "finalize symb c order g s =
    (let n = card {k \<in> dom (pd_native g). sample_stack symb c g (k, the (pd_native g k)) = Some s}
     in if n = 0 then None else Some (of_nat n))"
proof -
  let ?P = "\<lambda>kv. sample_stack symb c g kv = Some s"
  have stack: "sample_stack symb c (g\<lparr>pd_native := Map.empty\<rparr>) kv = sample_stack symb c g kv" for kv
    by (simp add: sample_stack_def lua_events_of_def)
  have "fst ` set (filter ?P order) =
        {k \<in> dom (pd_native g). sample_stack symb c g (k, the (pd_native g k)) = Some s}"
    using assms(2) by (force simp: assms(1)[symmetric] image_iff dest: map_of_SomeD)
  moreover have "card (fst ` set (filter ?P order)) = length (filter ?P order)"
  proof -
    have "distinct (map fst (filter ?P order))" using assms(2) by (simp add: distinct_map_filter)
    from distinct_card [OF this] show ?thesis by simp
  qed
  ultimately show ?thesis
    using fold_samples_count [OF assms(2), of symb c "g\<lparr>pd_native := Map.empty\<rparr>" s] assms(3)
    by (simp add: finalize_def stack add_count_def Let_def)
qed

section \<open>Properties\<close>

text \<open>
  C16. Samples are assembled from the two streams by key alone: whatever the interleaving of native and
  Lua deliveries, undecodable ones included, the Lua events of a sample are those delivered with its
  key, in their order, and exactly the keys of native events become samples.
\<close>

theorem deliveries_assemble_samples:
  "lua_events_of (fst (fold (deliver unw c) ds (default_pending, u))) k =
     filter (\<lambda>e. le_key e = k) (lua_data ds) \<and>
   dom (pd_native (fst (fold (deliver unw c) ds (default_pending, u)))) =
     ne_key ` set (native_data ds)"
  using deliveries_collect [of unw c ds default_pending u k]
  by (simp add: lua_events_of_def default_pending_def)

text \<open>
  C8. Every sample is counted exactly once and nothing else is: after the final pass the count of a
  line is the number of samples whose stack folds to it, in whatever order the map is iterated.
\<close>

theorem finalize_counts_samples:
  assumes "map_of order = pd_native g" and "distinct (map fst order)" and "pd_folded g = Map.empty"
  shows "finalize symb c order g s =
    (let n = card {k \<in> dom (pd_native g). sample_stack symb c g (k, the (pd_native g k)) = Some s}
     in if n = 0 then None else Some (of_nat n))"
  using assms by (rule finalize_count)

definition example_order :: "(sample_key \<times> u64 list) list" where
  "example_order = [(\<lparr>sk_pid = 1, sk_tid = 1, sk_seq = 1\<rparr>, [0x10]),
                    (\<lparr>sk_pid = 1, sk_tid = 1, sk_seq = 2\<rparr>, [0x10])]"

definition example_pending :: pending where
  "example_pending = default_pending\<lparr>pd_native := map_of example_order\<rparr>"

lemma finalize_counts_samples_witness:
  "finalize (\<lambda>ip. Some (''f'', 0)) True example_order example_pending ''f+0x0'' = Some 2"
proof -
  let ?f = "\<lambda>ip. Some (''f'', 0)"
  have stack: "sample_stack ?f True example_pending (k, [0x10]) = Some ''f+0x0''" for k
    by (simp add: sample_stack_def lua_events_of_def example_pending_def default_pending_def
        build_stack_def native_frame_def is_native_function_symbol_def strip_prefix_def
        fold_symbolized_stack_def by_level_desc_def alt_hex_def hex_str_def radix_str.simps
        digit_char_def text_simps)
  have "{k \<in> dom (pd_native example_pending). sample_stack ?f True example_pending
          (k, the (pd_native example_pending k)) = Some ''f+0x0''} = fst ` set example_order"
    using stack by (auto simp: example_pending_def example_order_def split: if_splits)
  moreover have "card (fst ` set example_order) = 2"
    by (simp add: example_order_def card_insert_if)
  ultimately show ?thesis
    using finalize_counts_samples [of example_order example_pending ?f True "''f+0x0''"]
    by (simp add: example_pending_def default_pending_def example_order_def)
qed

text \<open>
  The unwind statistics account for every sample: with native stacks collected, each native event
  is counted once, as unwound or as fallen back (modulo 2^64).
\<close>

theorem unwind_stats_account:
  "let st = pd_stats (fst (fold (deliver unw True) ds (default_pending, u)))
   in succeeded st + fallback st = of_nat (length (native_data ds))"
proof -
  let ?n = "\<lambda>g. succeeded (pd_stats g) + fallback (pd_stats g)"
  have step: "?n (fst (deliver unw True d (g, u))) = ?n g + of_nat (length (native_data [d]))" for d g u
  proof (cases d)
    case (NativeData b)
    then show ?thesis
      by (cases "native_event_from_bytes b")
         (auto simp: handle_native_def Let_def u64_of_bool_def split: option.split prod.split)
  next
    case (LuaData b)
    then show ?thesis by (cases "from_bytes_aligned b") (simp_all add: handle_lua_fields)
  qed
  have "?n (fst (fold (deliver unw True) ds (g, u))) = ?n g + of_nat (length (native_data ds))" for g
  proof (induction ds arbitrary: g u)
    case (Cons d ds)
    obtain g' u' where d: "deliver unw True d (g, u) = (g', u')" by force
    from Cons [of g' u'] step [of d g u] show ?case
      by (simp add: d data_Cons [of d ds] algebra_simps)
  qed simp
  then show ?thesis by (simp add: default_pending_def)
qed

section \<open>The folded file\<close>

text \<open>What a reader of the format does with a line: the count stands after the last space.\<close>

definition parse_folded_line :: "string \<Rightarrow> (string \<times> u64) option" where
  "parse_folded_line l =
     (case split_once (CHR '' '') (rev l) of
        None \<Rightarrow> None
      | Some (n, k) \<Rightarrow>
          (case from_str_radix 10 (rev n) of Some c \<Rightarrow> Some (rev k, c) | None \<Rightarrow> None))"

lemma dec_str_no_space: "CHR '' '' \<notin> set (dec_str n)" "nl \<notin> set (dec_str n)" "cr \<notin> set (dec_str n)"
  using dec_str_digit [of _ n] by (auto simp: nl_def cr_def dest!: dec_str_digit)

lemma parse_folded_line_back: "parse_folded_line (folded_line k n) = Some (k, n)"
proof -
  have "from_str_radix 10 (dec_str (unat n)) = Some (of_nat (unat n) :: u64)"
    unfolding dec_str_def using unsigned_less [of n, where 'a = nat]
    by (intro from_str_radix_print) simp_all
  moreover have "split_once (CHR '' '') (rev (folded_line k n)) = Some (rev (dec_str (unat n)), rev k)"
    using dec_str_no_space(1) by (simp add: folded_line_def split_once_Some_iff)
  ultimately show ?thesis by (simp add: parse_folded_line_def)
qed

lemma folded_line_is_line: "nl \<notin> set k \<Longrightarrow> is_line (folded_line k n)"
proof -
  assume k: "nl \<notin> set k"
  have "last (folded_line k n) \<in> set (dec_str (unat n))"
    by (simp add: folded_line_def dec_str_def)
  moreover have "nl \<noteq> CHR '' ''" by (simp add: nl_def)
  ultimately show ?thesis
    using k dec_str_no_space [of "unat n"] by (auto simp: is_line_def folded_line_def)
qed

text \<open>Reading back what was written.\<close>

lemma folded_file_read_back:
  assumes "distinct keys" and "set keys = dom folded" and "\<forall>k \<in> set keys. nl \<notin> set k"
  shows "let parsed = map parse_folded_line (lines_of (write_folded folded keys)) in
         list_all (\<lambda>p. p \<noteq> None) parsed \<and> map_of (map the parsed) = folded \<and>
         sorted_wrt (<) (map (fst \<circ> the) parsed)"
proof -
  let ?ls = "map (\<lambda>k. folded_line k (the (folded k))) (sort keys)"
  have "list_all is_line ?ls"
    using assms(3) by (auto simp: list_all_iff intro: folded_line_is_line)
  then have "map parse_folded_line (lines_of (write_folded folded keys)) =
             map (\<lambda>k. Some (k, the (folded k))) (sort keys)"
    by (simp add: write_folded_def lines_of_unlines parse_folded_line_back)
  moreover have "map_of (map (\<lambda>k. (k, the (folded k))) (sort keys)) = folded"
    using assms(2) by (auto simp: fun_eq_iff map_of_map_keys domIff split: option.split)
  moreover have "sorted_wrt (<) (sort keys)"
    using assms(1) by (simp add: strict_sorted_iff)
  ultimately show ?thesis by (simp add: list_all_iff Let_def comp_def)
qed

text \<open>
  C23. The folded file says what was counted: its lines are sorted, and read back they give every line
  with its count, provided no stack contains a line feed.
\<close>

theorem folded_file_roundtrip:
  assumes "distinct keys" and "set keys = dom folded" and "\<forall>k \<in> set keys. nl \<notin> set k"
  shows "let parsed = map parse_folded_line (lines_of (write_folded folded keys)) in
         list_all (\<lambda>p. p \<noteq> None) parsed \<and> map_of (map the parsed) = folded \<and>
         sorted_wrt (<) (map (fst \<circ> the) parsed)"
  using assms by (rule folded_file_read_back)

lemma folded_file_roundtrip_witness:
  "map_of (map the (map parse_folded_line
     (lines_of (write_folded [''b;c d'' \<mapsto> 2, ''a'' \<mapsto> 7] [''b;c d'', ''a''])))) =
   [''b;c d'' \<mapsto> 2, ''a'' \<mapsto> 7]"
proof -
  have "distinct [''b;c d'', ''a'']" "set [''b;c d'', ''a''] = dom [''b;c d'' \<mapsto> 2, ''a'' \<mapsto> 7 :: u64]"
    "\<forall>k \<in> set [''b;c d'', ''a'']. nl \<notin> set k"
    by (auto simp: nl_def)
  from folded_file_roundtrip [OF this] show ?thesis by (simp only: Let_def)
qed

end
