(* ===== verification/ProcMaps.thy ===== *)
theory ProcMaps
  imports RustStr
begin

text \<open>
  Reading \<open>/proc/<pid>/maps\<close>: the parser of src/unwind.rs, which decodes the kernel's octal escapes in
  file names, and the search of src/syms.rs for the LuaJIT mapping.
\<close>

section \<open>Source types and functions\<close>

record map_entry =
  me_start :: u64
  me_end :: u64
  me_offset :: u64
  me_executable :: bool
  me_device :: string
  me_inode :: u64
  me_path :: "string option"

definition is_octal :: "u8 \<Rightarrow> bool" where "is_octal b \<longleftrightarrow> 0x30 \<le> b \<and> b \<le> 0x37"

text \<open>
  The decoding loop: a backslash with three octal digits after it stands for a byte. The byte is
  computed in \<open>u8\<close>, from left to right and with the last digit's \<open>'0'\<close> taken off at the end, so that an
  intermediate value does not fit from \<open>\320\<close> on. A release build, as modelled here, wraps and decodes
  everything below \<open>\400\<close>; a debug build panics on those, which only a literal backslash in a file
  name brings about, as the kernel escapes nothing but line feeds.
\<close>

fun unescape :: "u8 list \<Rightarrow> u8 list" where
  "unescape (b # x # y # z # rest) =
     (if b = 0x5C \<and> is_octal x \<and> is_octal y \<and> is_octal z
      then ((x - 0x30) * 64 + (y - 0x30) * 8 + z - 0x30) # unescape rest
      else b # unescape (x # y # z # rest))"
| "unescape bs = bs"

definition unescape_maps_path :: "string \<Rightarrow> string" where
  "unescape_maps_path path = from_utf8_lossy (unescape (bytes_of path))"

definition parse_map_line :: "string \<Rightarrow> map_entry option" where
  "parse_map_line line =
     (case split_ascii_whitespace line of
        rng # permissions # offset_s # device # inode_s # path_fields \<Rightarrow>
          (case from_str_radix 16 offset_s of
             None \<Rightarrow> None
           | Some off \<Rightarrow>
          (case from_str_radix 10 inode_s of
             None \<Rightarrow> None
           | Some inode \<Rightarrow>
             let raw_path = join '' '' path_fields;
                 path = (if strip_prefix ''/'' raw_path \<noteq> None
                         then Some (unescape_maps_path
                                (case strip_suffix '' (deleted)'' raw_path of
                                   Some p \<Rightarrow> p | None \<Rightarrow> raw_path))
                         else None)
             in (case split_once (CHR ''-'') rng of
                   None \<Rightarrow> None
                 | Some (start, end) \<Rightarrow>
                     (case (from_str_radix 16 start, from_str_radix 16 end) of
                        (Some s, Some e) \<Rightarrow>
                          Some \<lparr>me_start = s, me_end = e, me_offset = off,
                                me_executable = (2 < length permissions \<and> permissions ! 2 = CHR ''x''),
                                me_device = device, me_inode = inode, me_path = path\<rparr>
                      | _ \<Rightarrow> None))))
      | _ \<Rightarrow> None)"

definition parse_maps :: "string \<Rightarrow> map_entry list" where
  "parse_maps contents = List.map_filter parse_map_line (lines_of contents)"

section \<open>\<open>find_luajit\<close>\<close>

text \<open>
  \<open>str::split_whitespace\<close> separates at the characters of Unicode's White_Space: \<open>white_space\<close> is the
  number of bytes of such a character at the start of a string, 0 when there is none.
\<close>

definition white_space :: "string \<Rightarrow> nat" where
  "white_space s =
     (let b = (\<lambda>i. nth0 (bytes_of s) i) in
      if 0x09 \<le> b 0 \<and> b 0 \<le> 0x0D \<or> b 0 = 0x20 then 1
      else if b 0 = 0xC2 \<and> (b 1 = 0x85 \<or> b 1 = 0xA0) then 2
      else if b 0 = 0xE1 \<and> b 1 = 0x9A \<and> b 2 = 0x80 \<or>
              b 0 = 0xE2 \<and> b 1 = 0x80 \<and>
                (0x80 \<le> b 2 \<and> b 2 \<le> 0x8A \<or> b 2 = 0xA8 \<or> b 2 = 0xA9 \<or> b 2 = 0xAF) \<or>
              b 0 = 0xE2 \<and> b 1 = 0x81 \<and> b 2 = 0x9F \<or>
              b 0 = 0xE3 \<and> b 1 = 0x80 \<and> b 2 = 0x80 then 3
      else 0)"

text \<open>The words after the unfinished word \<open>cur\<close>.\<close>

fun whitespace_words :: "string \<Rightarrow> string \<Rightarrow> string list" where
  "whitespace_words cur [] = (if cur = [] then [] else [cur])"
| "whitespace_words cur (c # s) =
     (case white_space (c # s) of
        0 \<Rightarrow> whitespace_words (cur @ [c]) s
      | Suc k \<Rightarrow>
          (if cur = [] then whitespace_words [] (drop k s)
           else cur # whitespace_words [] (drop k s)))"

definition split_whitespace :: "string \<Rightarrow> string list" where
  "split_whitespace s = whitespace_words [] s"

text \<open>
  \<open>to_lowercase().contains("luajit")\<close>: only the ASCII letters matter, since no other character has a
  lower-case form with a letter of the word in it but U+0130, whose form puts a combining dot
  between its \<open>i\<close> and what follows.
\<close>

definition ascii_lower :: "char \<Rightarrow> char" where
  "ascii_lower c =
     (let n = of_char c :: nat in if 65 \<le> n \<and> n \<le> 90 then char_of (n + 32) else c)"

fun contains :: "string \<Rightarrow> string \<Rightarrow> bool" where
  "contains p [] = (p = [])"
| "contains p (c # s) = (strip_prefix p (c # s) \<noteq> None \<or> contains p s)"

definition names_luajit :: "string \<Rightarrow> bool" where
  "names_luajit path = contains ''luajit'' (map ascii_lower path)"

datatype find_error = NoMapping | BadAddress

definition nth_word :: "string list \<Rightarrow> nat \<Rightarrow> string" where
  "nth_word ws i = (if i < length ws then ws ! i else [])"

fun find_in_lines :: "string list \<Rightarrow> find_error + (string \<times> u64)" where
  "find_in_lines [] = Inl NoMapping"
| "find_in_lines (line # ls) =
     (let ws = split_whitespace line;
          rng = nth_word ws 0;
          path = nth_word ws 5
      in if names_luajit path then
           (case from_str_radix 16 (takeWhile (\<lambda>c. c \<noteq> CHR ''-'') rng) of
              Some base \<Rightarrow> Inr (path, base)
            | None \<Rightarrow> Inl BadAddress)
         else find_in_lines ls)"

definition find_luajit :: "string \<Rightarrow> find_error + (string \<times> u64)" where
  "find_luajit maps = find_in_lines (lines_of maps)"

section \<open>Escapes\<close>

lemma unescape_plain: "b \<noteq> 0x5C \<Longrightarrow> unescape (b # bs) = b # unescape bs"
  by (cases "(b # bs)" rule: unescape.cases) auto

text \<open>The kernel's escape of the bytes of a set.\<close>

definition escape_byte :: "u8 set \<Rightarrow> u8 \<Rightarrow> u8 list" where
  "escape_byte esc b =
     (if b \<in> esc then [0x5C, 0x30 + b div 64, 0x30 + b div 8 mod 8, 0x30 + b mod 8] else [b])"

lemma octal_digit: "d < 8 \<Longrightarrow> is_octal (0x30 + d)" for d :: u8
proof -
  assume "d < 8"
  then have "unat d < 8" by (simp add: word_less_nat_alt)
  then have "unat (0x30 + d) = 0x30 + unat d" by (simp add: unat_word_ariths)
  with \<open>unat d < 8\<close> show ?thesis by (simp add: is_octal_def word_le_nat_alt)
qed

lemma octal_digits:
  fixes b :: u8
  shows "is_octal (0x30 + b div 64)" "is_octal (0x30 + b div 8 mod 8)" "is_octal (0x30 + b mod 8)"
    and "(b div 64) * 64 + ((b div 8 mod 8) * 8 + b mod 8) = b"
proof -
  have n: "unat b < 256" using unsigned_less [of b, where 'a = nat] by simp
  have parts: "unat (b div 64) = unat b div 64" "unat (b div 8 mod 8) = unat b div 8 mod 8"
    "unat (b mod 8) = unat b mod 8"
    by (simp_all add: unat_div unat_mod)
  have "unat b div 64 < 8" using n by (intro less_mult_imp_div_less) simp
  then have d: "b div 64 < 8" "b div 8 mod 8 < 8" "b mod 8 < 8"
    by (simp_all only: word_less_nat_alt parts) simp_all
  show "is_octal (0x30 + b div 64)" "is_octal (0x30 + b div 8 mod 8)" "is_octal (0x30 + b mod 8)"
    using d by (simp_all add: octal_digit)
  have m: "n div 64 * 64 + (n div 8 mod 8 * 8 + n mod 8) = n" for n :: nat
  proof -
    have "n div 64 * 8 + n div 8 mod 8 = n div 8"
      using div_mult_mod_eq [of "n div 8" 8] by (simp flip: div_mult2_eq)
    with div_mult_mod_eq [of n 8] show ?thesis by linarith
  qed
  have "unat ((b div 64) * 64 + ((b div 8 mod 8) * 8 + b mod 8)) =
        (unat b div 64 * 64 + (unat b div 8 mod 8 * 8 + unat b mod 8)) mod 256"
    by (simp add: unat_word_ariths parts mod_simps mod_mod_cancel)
  then show "(b div 64) * 64 + ((b div 8 mod 8) * 8 + b mod 8) = b"
    using m [of "unat b"] n by (simp add: word_unat_eq_iff)
qed

lemma unescape_escape:
  "\<forall>b \<in> set bs. b \<noteq> 0x5C \<or> b \<in> esc \<Longrightarrow>
   unescape (concat (map (escape_byte esc) bs) @ rest) = bs @ unescape rest"
proof (induction bs)
  case (Cons b bs)
  then have IH: "unescape (concat (map (escape_byte esc) bs) @ rest) = bs @ unescape rest" by simp
  show ?case
  proof (cases "b \<in> esc")
    case True
    then have "escape_byte esc b = [0x5C, 0x30 + b div 64, 0x30 + b div 8 mod 8, 0x30 + b mod 8]"
      by (simp add: escape_byte_def)
    then show ?thesis using IH octal_digits [of b] by simp
  next
    case False
    with Cons.prems have "b \<noteq> 0x5C" by auto
    moreover have "escape_byte esc b = [b]" using False by (simp add: escape_byte_def)
    ultimately show ?thesis using IH unescape_plain [of b] by simp
  qed
qed simp

section \<open>The kernel's lines\<close>

text \<open>
  A line of the file as the kernel prints it: addresses and offset in hex with eight digits at least,
  permissions, device, inode, padding, and the path, with line feeds escaped and a marker when the
  file is deleted.
\<close>

definition escape_path :: "string \<Rightarrow> string" where
  "escape_path p = str_of (concat (map (escape_byte {0x0A}) (bytes_of p)))"

definition shown_path :: "string \<Rightarrow> bool \<Rightarrow> string" where
  "shown_path p deleted = escape_path p @ (if deleted then '' (deleted)'' else [])"

definition address_range :: "map_entry \<Rightarrow> string" where
  "address_range e = pad0 8 (hex_str (unat (me_start e))) @ ''-'' @ pad0 8 (hex_str (unat (me_end e)))"

definition show_map_line :: "map_entry \<Rightarrow> string \<Rightarrow> nat \<Rightarrow> string \<Rightarrow> string" where
  "show_map_line e perms gap path =
     address_range e @ '' '' @ perms @ '' '' @ pad0 8 (hex_str (unat (me_offset e))) @ '' '' @
     me_device e @ '' '' @ dec_str (unat (me_inode e)) @ '' '' @ replicate gap (CHR '' '') @ path"

definition is_word :: "string \<Rightarrow> bool" where
  "is_word w \<longleftrightarrow> w \<noteq> [] \<and> list_all (\<lambda>c. \<not> is_ascii_whitespace c) w"

definition single_spaced :: "string \<Rightarrow> bool" where
  "single_spaced s \<longleftrightarrow> join '' '' (split_ascii_whitespace s) = s"

lemma space_is_whitespace [simp]: "is_ascii_whitespace (CHR '' '')"
  by (simp add: is_ascii_whitespace_def)

lemma digits_not_whitespace:
  assumes "2 \<le> r" and "r \<le> 36" and "c \<in> set (pad0 k (radix_str r n))"
  shows "\<not> is_ascii_whitespace c" and "c \<noteq> CHR ''-''"
proof -
  have "c = CHR ''0'' \<or> c \<in> set (radix_str r n)" using assms(3) by (auto simp: pad0_def)
  then have "48 \<le> (of_char c :: nat)" using radix_str_avoids [OF assms(1,2), of c n] by auto
  then show "\<not> is_ascii_whitespace c" and "c \<noteq> CHR ''-''"
    by (auto simp: is_ascii_whitespace_def)
qed

lemma pad0_not_Nil [simp]: "pad0 k (radix_str r n) \<noteq> []"
  by (simp add: pad0_def)

lemma pad0_none [simp]: "pad0 0 s = s"
  by (simp add: pad0_def)

lemma number_words:
  "is_word (address_range e)" "is_word (pad0 8 (hex_str n))" "is_word (dec_str n)"
  using digits_not_whitespace [of 16 _ 8] digits_not_whitespace [of 10 _ 0]
  by (auto simp: is_word_def address_range_def hex_str_def dec_str_def list_all_iff
      is_ascii_whitespace_def [of "CHR ''-''"])

lemma split_map_line:
  assumes "is_word perms" and "is_word (me_device e)"
  shows "split_ascii_whitespace (show_map_line e perms gap path) =
         [address_range e, perms, pad0 8 (hex_str (unat (me_offset e))), me_device e,
          dec_str (unat (me_inode e))] @ split_ascii_whitespace path"
proof -
  have word: "tokens is_ascii_whitespace (w @ CHR '' '' # s) = w # tokens is_ascii_whitespace s"
    if "is_word w" for w s
    using that by (intro tokens_word) (simp_all add: is_word_def)
  have "list_all is_ascii_whitespace (replicate gap (CHR '' ''))" by (simp add: list_all_iff)
  from tokens_skip [OF this] show ?thesis
    using assms number_words by (simp add: split_ascii_whitespace_def show_map_line_def word)
qed

lemma address_range_split:
  "split_once (CHR ''-'') (address_range e) =
     Some (pad0 8 (hex_str (unat (me_start e))), pad0 8 (hex_str (unat (me_end e))))"
  using digits_not_whitespace(2) [of 16 _ 8]
  by (auto simp: split_once_Some_iff address_range_def hex_str_def)

lemma address_range_start:
  "takeWhile (\<lambda>c. c \<noteq> CHR ''-'') (address_range e) = pad0 8 (hex_str (unat (me_start e)))"
proof -
  have "list_all (\<lambda>c. c \<noteq> CHR ''-'') (pad0 8 (hex_str (unat (me_start e))))"
    using digits_not_whitespace(2) [of 16 _ 8] by (auto simp: list_all_iff hex_str_def)
  then show ?thesis
    using dropWhile_prefix [of "\<lambda>c. c \<noteq> CHR ''-''"] by (simp add: address_range_def)
qed

lemma hex_back: "from_str_radix 16 (pad0 8 (hex_str (unat (w :: u64)))) = Some w"
  using unsigned_less [of w, where 'a = nat] from_str_radix_pad [of 16 "unat w" 8, where 'a = 64]
  by (simp add: hex_str_def)

lemma dec_back: "from_str_radix 10 (dec_str (unat (w :: u64))) = Some w"
  using unsigned_less [of w, where 'a = nat] from_str_radix_print [of 10 "unat w", where 'a = 64]
  by (simp add: dec_str_def)

lemma parse_map_line_shown:
  assumes "is_word perms" and "is_word (me_device e)"
  shows "parse_map_line (show_map_line e perms gap path) =
    (let raw = join '' '' (split_ascii_whitespace path) in
     Some (e\<lparr>me_executable := (2 < length perms \<and> perms ! 2 = CHR ''x''),
             me_path := (if strip_prefix ''/'' raw \<noteq> None
                         then Some (unescape_maps_path
                                (case strip_suffix '' (deleted)'' raw of Some p \<Rightarrow> p | None \<Rightarrow> raw))
                         else None)\<rparr>))"
  using split_map_line [OF assms]
  by (simp add: parse_map_line_def hex_back dec_back address_range_split Let_def)

lemma unescape_escape_path:
  assumes "CHR 0x5C \<notin> set p" and "valid_utf8 (bytes_of p)"
  shows "unescape_maps_path (escape_path p) = p"
proof -
  have "byte_of c \<noteq> 0x5C" if "c \<in> set p" for c
  proof
    assume "byte_of c = 0x5C"
    then have "c = char_of_byte 0x5C" by (metis char_of_byte_of)
    with that assms(1) show False by (simp add: char_of_byte_def text_simps)
  qed
  then have "\<forall>b \<in> set (bytes_of p). b \<noteq> 0x5C \<or> b \<in> {0x0A}" by (auto simp: bytes_of_def)
  from unescape_escape [OF this, of "[]"] have "unescape (bytes_of (escape_path p)) = bytes_of p"
    by (simp add: escape_path_def)
  with assms(2) show ?thesis
    by (simp add: unescape_maps_path_def from_utf8_lossy_def utf8_lossy_valid)
qed

lemma escape_path_slash: "escape_path (CHR ''/'' # q) = CHR ''/'' # escape_path q"
  by (simp add: escape_path_def escape_byte_def byte_of_def char_of_byte_def text_simps)

section \<open>Properties\<close>

text \<open>
  C28. The maps parser inverts the kernel's printer: for every mapping of a file, whatever its padding,
  permissions, deletion marker and escaped line feeds, the parsed entry is the mapping, as long as
  the printed path has no run of white space and the path no backslash.
\<close>

theorem maps_line_roundtrip:
  assumes "me_path e = Some p" and "take 1 p = ''/''" and "valid_utf8 (bytes_of p)"
    and "CHR 0x5C \<notin> set p" and "single_spaced (shown_path p deleted)"
    and "strip_suffix '' (deleted)'' (escape_path p) = None"
    and "is_word perms" and "2 < length perms" and "me_executable e \<longleftrightarrow> perms ! 2 = CHR ''x''"
    and "is_word (me_device e)"
  shows "parse_map_line (show_map_line e perms gap (shown_path p deleted)) = Some e"
proof -
  have raw: "join '' '' (split_ascii_whitespace (shown_path p deleted)) = shown_path p deleted"
    using assms(5) by (simp add: single_spaced_def)
  obtain q where "p = CHR ''/'' # q" using assms(2) by (cases p) auto
  then have "strip_prefix ''/'' (shown_path p deleted) \<noteq> None"
    by (simp add: shown_path_def escape_path_slash strip_prefix_def)
  moreover have "(case strip_suffix '' (deleted)'' (shown_path p deleted) of
      Some r \<Rightarrow> r | None \<Rightarrow> shown_path p deleted) = escape_path p"
    using assms(6) by (cases deleted) (simp_all add: shown_path_def, simp add: strip_suffix_def)
  ultimately show ?thesis
    using parse_map_line_shown [OF assms(7,10), of gap "shown_path p deleted"] assms(1,8,9) raw
      unescape_escape_path [OF assms(4,3)]
    by (simp add: Let_def)
qed

definition example_entry :: map_entry where
  "example_entry = \<lparr>me_start = 0x400000, me_end = 0x452000, me_offset = 0x1000, me_executable = True,
     me_device = ''08:02'', me_inode = 123, me_path = Some ''/usr/lib/a b.so''\<rparr>"

lemma maps_line_roundtrip_witness:
  "parse_map_line (show_map_line example_entry ''r-xp'' 7 (shown_path ''/usr/lib/a b.so'' True)) =
     Some example_entry"
proof (rule maps_line_roundtrip)
  have plain: "escape_path ''/usr/lib/a b.so'' = ''/usr/lib/a b.so''"
    by (simp add: escape_path_def escape_byte_def byte_of_def char_of_byte_def) code_simp
  show "valid_utf8 (bytes_of ''/usr/lib/a b.so'')" by (rule valid_ascii) (simp add: byte_of_def)
  show "single_spaced (shown_path ''/usr/lib/a b.so'' True)"
    unfolding single_spaced_def shown_path_def plain by code_simp
  show "strip_suffix '' (deleted)'' (escape_path ''/usr/lib/a b.so'') = None"
    unfolding plain by code_simp
qed (simp_all add: example_entry_def is_word_def is_ascii_whitespace_def)

section \<open>The two parsers\<close>

text \<open>
  A mapping as both parsers expect it: printable words, and a path, if any, without white space and
  backslash.
\<close>

definition printable :: "string \<Rightarrow> bool" where
  "printable w \<longleftrightarrow> list_all (\<lambda>c. 33 \<le> (of_char c :: nat) \<and> (of_char c :: nat) \<le> 126) w"

definition path_text :: "map_entry \<Rightarrow> string" where
  "path_text e = (case me_path e of Some p \<Rightarrow> p | None \<Rightarrow> [])"

definition plain_mapping :: "map_entry \<times> string \<times> nat \<Rightarrow> bool" where
  "plain_mapping m \<longleftrightarrow>
     (case m of (e, perms, gap) \<Rightarrow>
        2 < length perms \<and> printable perms \<and> (me_executable e \<longleftrightarrow> perms ! 2 = CHR ''x'') \<and>
        me_device e \<noteq> [] \<and> printable (me_device e) \<and>
        printable (path_text e) \<and> CHR 0x5C \<notin> set (path_text e) \<and>
        (case me_path e of Some p \<Rightarrow> take 1 p = ''/'' | None \<Rightarrow> True))"

definition mapping_line :: "map_entry \<times> string \<times> nat \<Rightarrow> string" where
  "mapping_line m = (case m of (e, perms, gap) \<Rightarrow> show_map_line e perms gap (path_text e))"

lemma printable_word: "printable w \<Longrightarrow> w \<noteq> [] \<Longrightarrow> is_word w"
  by (auto simp: printable_def is_word_def list_all_iff is_ascii_whitespace_def)

definition ascii_text :: "string \<Rightarrow> bool" where
  "ascii_text s \<longleftrightarrow> list_all (\<lambda>c. 32 \<le> (of_char c :: nat) \<and> (of_char c :: nat) \<le> 126) s"

lemma ascii_text_simps [simp]:
  "ascii_text []"
  "ascii_text (c # s) \<longleftrightarrow> 32 \<le> (of_char c :: nat) \<and> (of_char c :: nat) \<le> 126 \<and> ascii_text s"
  "ascii_text (s @ t) \<longleftrightarrow> ascii_text s \<and> ascii_text t"
  "ascii_text (replicate n (CHR '' ''))"
  by (auto simp: ascii_text_def list_all_iff)

lemma printable_ascii: "printable w \<Longrightarrow> ascii_text w"
  by (auto simp: printable_def ascii_text_def list_all_iff)

text \<open>On printable ASCII text the two ways of splitting agree.\<close>

lemma white_space_ascii:
  assumes "32 \<le> (of_char c :: nat)" and "(of_char c :: nat) \<le> 126"
  shows "white_space (c # s) = (if c = CHR '' '' then 1 else 0)"
proof -
  let ?b = "nth0 (bytes_of (c # s)) 0"
  have b: "unat ?b = of_char c" using assms(2) by (simp add: nth0_def byte_of_def unat_of_nat_small)
  have "c = CHR '' '' \<longleftrightarrow> (of_char c :: nat) = 32"
    using of_char_eq_iff [of c "CHR '' ''", where 'a = nat] by simp
  then show ?thesis
    using assms b by (simp add: white_space_def word_le_nat_alt word_unat_eq_iff)
qed

lemma whitespace_words_ascii:
  assumes "ascii_text s"
    and "list_all (\<lambda>c. \<not> is_ascii_whitespace c) cur"
  shows "whitespace_words cur s = tokens is_ascii_whitespace (cur @ s)"
  using assms
proof (induction s arbitrary: cur)
  case Nil
  then show ?case by (cases "cur = []") (simp_all add: tokens_single)
next
  case (Cons c s)
  show ?case
  proof (cases "c = CHR '' ''")
    case True
    then show ?thesis
      using Cons white_space_ascii [of c s]
      by (cases "cur = []") (simp_all add: tokens_word)
  next
    case False
    then have "(of_char c :: nat) \<noteq> 32" using of_char_eq_iff [of c "CHR '' ''", where 'a = nat] by simp
    with Cons.prems have "\<not> is_ascii_whitespace c" by (auto simp: is_ascii_whitespace_def)
    then show ?thesis
      using Cons False white_space_ascii [of c s] by simp
  qed
qed

lemma digits_printable: "2 \<le> r \<Longrightarrow> r \<le> 36 \<Longrightarrow> printable (pad0 k (radix_str r n))"
proof (unfold printable_def list_all_iff, intro ballI)
  fix c assume r: "2 \<le> r" "r \<le> 36" and "c \<in> set (pad0 k (radix_str r n))"
  then have "c = CHR ''0'' \<or> c \<in> set (radix_str r n)" by (auto simp: pad0_def)
  then show "33 \<le> (of_char c :: nat) \<and> (of_char c :: nat) \<le> 126"
    using radix_str_avoids [OF r, of c n] by auto
qed

lemma number_printable:
  "printable (address_range e)" "printable (pad0 8 (hex_str n))" "printable (dec_str n)"
  using digits_printable [of 16 8] digits_printable [of 10 0]
  by (simp_all add: hex_str_def dec_str_def address_range_def printable_def)

lemma mapping_line_ascii:
  assumes "plain_mapping m"
  shows "ascii_text (mapping_line m)"
  using assms number_printable
  by (cases m) (simp add: mapping_line_def show_map_line_def plain_mapping_def printable_ascii)

lemma ascii_is_line:
  assumes "ascii_text l"
  shows "is_line l"
proof -
  have "c \<noteq> nl \<and> c \<noteq> cr" if "c \<in> set l" for c
    using assms that by (auto simp: ascii_text_def list_all_iff nl_def cr_def)
  then show ?thesis by (auto simp: is_line_def)
qed

lemma printable_no_deleted: "printable p \<Longrightarrow> strip_suffix '' (deleted)'' p = None"
proof (rule ccontr)
  assume p: "printable p" and "strip_suffix '' (deleted)'' p \<noteq> None"
  then have "drop (length p - length '' (deleted)'') p = '' (deleted)''"
    by (auto simp: strip_suffix_def split: if_splits)
  then have "CHR '' '' \<in> set p" using in_set_dropD [of "CHR '' ''" _ p] by (metis list.set_intros(1))
  with p show False by (auto simp: printable_def list_all_iff)
qed

lemma unescape_printable:
  assumes "printable p" and "CHR 0x5C \<notin> set p"
  shows "unescape_maps_path p = p"
proof -
  have "escape_byte {0x0A} (byte_of c) = [byte_of c]" if "c \<in> set p" for c
  proof -
    have "byte_of c \<noteq> 0x0A"
    proof
      assume "byte_of c = 0x0A"
      then have "c = char_of_byte 0x0A" by (metis char_of_byte_of)
      with that assms(1) show False by (auto simp: printable_def list_all_iff char_of_byte_def)
    qed
    then show ?thesis by (simp add: escape_byte_def)
  qed
  then have "concat (map (escape_byte {0x0A}) (bytes_of p)) = bytes_of p"
    by (induction p) simp_all
  then have "escape_path p = p" by (simp add: escape_path_def)
  moreover have "valid_utf8 (bytes_of p)"
  proof (rule valid_ascii, simp add: bytes_of_def list_all_iff, intro ballI)
    fix c assume "c \<in> set p"
    with assms(1) have "(of_char c :: nat) \<le> 126" by (auto simp: printable_def list_all_iff)
    then show "byte_of c < 0x80" by (simp add: byte_of_def word_less_nat_alt unat_of_nat_small)
  qed
  ultimately show ?thesis using unescape_escape_path [OF assms(2)] by metis
qed

lemma plain_mapping_words:
  assumes "plain_mapping (e, perms, gap)"
  shows "is_word perms" "is_word (me_device e)"
    and "split_ascii_whitespace (path_text e) = (if path_text e = [] then [] else [path_text e])"
proof -
  show "is_word perms" "is_word (me_device e)"
    using assms by (auto simp: plain_mapping_def intro: printable_word)
  have "path_text e \<noteq> [] \<Longrightarrow> is_word (path_text e)"
    using assms by (auto simp: plain_mapping_def intro: printable_word)
  then show "split_ascii_whitespace (path_text e) = (if path_text e = [] then [] else [path_text e])"
    by (auto simp: split_ascii_whitespace_def is_word_def tokens_single)
qed

lemma parse_plain_mapping:
  assumes "plain_mapping (e, perms, gap)"
  shows "parse_map_line (mapping_line (e, perms, gap)) = Some e"
proof -
  have raw: "join '' '' (split_ascii_whitespace (path_text e)) = path_text e"
    using plain_mapping_words(3) [OF assms] by simp
  have x: "me_executable e \<longleftrightarrow> 2 < length perms \<and> perms ! 2 = CHR ''x''"
    using assms by (simp add: plain_mapping_def)
  have path: "(if strip_prefix ''/'' (path_text e) \<noteq> None
      then Some (unescape_maps_path (case strip_suffix '' (deleted)'' (path_text e) of
             Some p \<Rightarrow> p | None \<Rightarrow> path_text e)) else None) = me_path e"
  proof (cases "me_path e")
    case None
    then show ?thesis by (simp add: path_text_def strip_prefix_def)
  next
    case (Some p)
    with assms have "take 1 p = ''/''" "printable p" "CHR 0x5C \<notin> set p" and t: "path_text e = p"
      by (simp_all add: plain_mapping_def path_text_def)
    then have "strip_prefix ''/'' p \<noteq> None" "strip_suffix '' (deleted)'' p = None"
      "unescape_maps_path p = p"
      using unescape_printable [of p] printable_no_deleted [of p] by (simp_all add: strip_prefix_def)
    with Some t show ?thesis by simp
  qed
  show ?thesis
    unfolding mapping_line_def prod.case parse_map_line_shown [OF plain_mapping_words(1,2) [OF assms]]
      raw Let_def path x [symmetric]
    by simp
qed

lemma find_plain_mapping:
  assumes "plain_mapping (e, perms, gap)"
  shows "find_in_lines (mapping_line (e, perms, gap) # ls) =
    (if names_luajit (path_text e) then Inr (path_text e, me_start e) else find_in_lines ls)"
proof -
  let ?line = "mapping_line (e, perms, gap)"
  let ?range = "address_range e"
  have "split_whitespace ?line = split_ascii_whitespace ?line"
    using whitespace_words_ascii [OF mapping_line_ascii [OF assms], of "[]"]
    by (simp add: split_whitespace_def split_ascii_whitespace_def)
  then have ws: "split_whitespace ?line =
      [?range, perms, pad0 8 (hex_str (unat (me_offset e))), me_device e, dec_str (unat (me_inode e))] @
      (if path_text e = [] then [] else [path_text e])"
    using split_map_line [OF plain_mapping_words(1,2) [OF assms], of gap "path_text e"]
      plain_mapping_words(3) [OF assms]
    by (simp add: mapping_line_def)
  show ?thesis
    by (simp add: ws nth_word_def address_range_start hex_back Let_def)
qed

text \<open>
  C29. The two parsers of the maps file agree: the library \<open>find_luajit\<close> attaches the probes to is the
  file of the first mapping the unwinder's parser yields whose path names LuaJIT, with its start
  address; without one it reports that there is none. This holds for every file of mappings with
  printable paths.
\<close>

theorem find_luajit_agrees_with_parse_maps:
  assumes "list_all plain_mapping ms"
  shows "find_luajit (unlines (map mapping_line ms)) =
    (case List.find (\<lambda>e. names_luajit (path_text e)) (parse_maps (unlines (map mapping_line ms))) of
       Some e \<Rightarrow> Inr (path_text e, me_start e)
     | None \<Rightarrow> Inl NoMapping)"
proof -
  have "list_all is_line (map mapping_line ms)"
    using assms by (auto simp: list_all_iff intro: ascii_is_line mapping_line_ascii)
  note lines = lines_of_unlines [OF this]
  have parsed: "parse_maps (unlines (map mapping_line ms)) = map fst ms"
    unfolding parse_maps_def lines using assms
    by (induction ms) (auto simp: map_filter_simps parse_plain_mapping)
  have "find_in_lines (map mapping_line ms) =
    (case List.find (\<lambda>e. names_luajit (path_text e)) (map fst ms) of
       Some e \<Rightarrow> Inr (path_text e, me_start e) | None \<Rightarrow> Inl NoMapping)"
    using assms
  proof (induction ms)
    case (Cons m ms)
    obtain e perms gap where "m = (e, perms, gap)" by (cases m)
    with Cons show ?case using find_plain_mapping [of e perms gap "map mapping_line ms"]
      by (simp del: find_in_lines.simps(2))
  qed simp
  then show ?thesis by (simp add: find_luajit_def lines parsed)
qed

definition luajit_entry :: map_entry where
  "luajit_entry = example_entry\<lparr>me_start := 0x7f00, me_path := Some ''/opt/LuaJIT.so''\<rparr>"

lemma find_luajit_agrees_with_parse_maps_witness:
  "find_luajit (unlines (map mapping_line
     [(example_entry\<lparr>me_path := None\<rparr>, ''r-xp'', 0), (luajit_entry, ''r-xp'', 3)])) =
   Inr (''/opt/LuaJIT.so'', 0x7f00)"
proof -
  let ?ms = "[(example_entry\<lparr>me_path := None\<rparr>, ''r-xp'', 0), (luajit_entry, ''r-xp'', 3)]"
  have plain: "list_all plain_mapping ?ms"
    by (simp add: plain_mapping_def luajit_entry_def example_entry_def path_text_def printable_def)
  then have "parse_maps (unlines (map mapping_line ?ms)) = map fst ?ms"
    using lines_of_unlines [of "map mapping_line ?ms"] ascii_is_line mapping_line_ascii
    by (simp add: parse_maps_def map_filter_simps parse_plain_mapping)
  moreover have "names_luajit ''/opt/LuaJIT.so''" "\<not> names_luajit []" by code_simp+
  ultimately show ?thesis
    using find_luajit_agrees_with_parse_maps [OF plain]
    by (simp add: luajit_entry_def path_text_def)
qed

text \<open>
  A path with white space divides the two: \<open>find_luajit\<close> takes only its first word, so the probes are
  attached to a file that does not exist (or the mapping is missed).
\<close>

lemma find_luajit_cuts_at_space:
  "find_luajit (unlines [show_map_line example_entry ''r-xp'' 0 ''/opt/luajit 2/lib.so'']) =
     Inr (''/opt/luajit'', 0x400000)"
proof -
  let ?path = "''/opt/luajit 2/lib.so''"
  let ?line = "show_map_line example_entry ''r-xp'' 0 ?path"
  have "ascii_text ?line"
    using number_printable
    by (simp add: show_map_line_def printable_ascii) (simp add: example_entry_def)
  from whitespace_words_ascii [OF this, of "[]"] ascii_is_line [OF this]
  have ws: "split_whitespace ?line = split_ascii_whitespace ?line"
    and line: "lines_of (unlines [?line]) = [?line]"
    by (simp_all add: split_whitespace_def split_ascii_whitespace_def lines_of_unlines)
  have path: "split_ascii_whitespace ?path = [''/opt/luajit'', ''2/lib.so'']" by code_simp
  have "split_ascii_whitespace ?line =
      [address_range example_entry, ''r-xp'', pad0 8 (hex_str (unat (me_offset example_entry))),
       me_device example_entry, dec_str (unat (me_inode example_entry)),
       ''/opt/luajit'', ''2/lib.so'']"
    using split_map_line [of "''r-xp''" example_entry 0 ?path] path
    by (simp add: is_word_def is_ascii_whitespace_def example_entry_def)
  moreover have "names_luajit ''/opt/luajit''" by code_simp
  moreover have "takeWhile (\<lambda>c. c \<noteq> CHR ''-'') (address_range example_entry) =
      pad0 8 (hex_str (unat (me_start example_entry)))"
    using address_range_start by simp
  ultimately show ?thesis
    using hex_back [of "me_start example_entry"]
    by (simp add: find_luajit_def line ws nth_word_def Let_def) (simp add: example_entry_def)
qed

end
