(* ===== verification/ElfFile.thy ===== *)
theory ElfFile
  imports ProcMaps BpfEnv
begin

text \<open>
  The ELF file of a mapping: what the \<open>object\<close> crate returns for it (a record of its accessors'
  results, an argument of every definition), and the address arithmetic of src/unwind.rs and
  src/syms.rs over it, in \<open>u64\<close> with Rust's checked operations.
\<close>

section \<open>The object crate\<close>

text \<open>\<open>segments()\<close> yields the \<open>PT_LOAD\<close> segments only; the flags are there for ELF files.\<close>

record elf_segment =
  seg_address :: u64
  seg_size :: u64
  seg_file_range :: "u64 \<times> u64"
  seg_flags :: "u32 option"

record elf_section =
  sec_address :: u64
  sec_size :: u64
  sec_data :: "u8 list option"
  sec_uncompressed :: "u8 list option"

record elf_symbol =
  sym_is_text :: bool
  sym_name :: "u8 list option"
  sym_address :: u64

text \<open>The architecture is \<open>None\<close> for all the profiler does not run on.\<close>

record elf_file =
  elf_arch :: "arch option"
  elf_segments :: "elf_segment list"
  elf_sections :: "string \<Rightarrow> elf_section option"
  elf_symbols :: "elf_symbol list"
  elf_dynamic_symbols :: "elf_symbol list"

section \<open>Source functions\<close>

definition align_down :: "u64 \<Rightarrow> u64 \<Rightarrow> u64" where
  "align_down val alignment = val div alignment * alignment"

definition align_up :: "u64 \<Rightarrow> u64 \<Rightarrow> u64 option" where
  "align_up val alignment =
     (case checked_sub alignment 1 of
        None \<Rightarrow> None
      | Some a \<Rightarrow> map_option (\<lambda>v. align_down v alignment) (checked_add val a))"

definition page_size :: "64 word \<Rightarrow> u64" where
  "page_size sysconf_result = (if 0 <s sysconf_result then sysconf_result else 4096)"

definition load_bias_for_segment :: "map_entry \<Rightarrow> u64 \<Rightarrow> u64 \<Rightarrow> u64 \<Rightarrow> u64 option" where
  "load_bias_for_segment mapping p_offset p_vaddr page =
     (if align_down p_offset page \<noteq> me_offset mapping then None
      else checked_sub (me_start mapping) (align_down p_vaddr page))"

fun find_map_list :: "('a \<Rightarrow> 'b option) \<Rightarrow> 'a list \<Rightarrow> 'b option" where
  "find_map_list f [] = None"
| "find_map_list f (x # xs) = (case f x of Some y \<Rightarrow> Some y | None \<Rightarrow> find_map_list f xs)"

definition load_bias_for_mapping :: "map_entry \<Rightarrow> elf_file \<Rightarrow> u64 \<Rightarrow> u64 option" where
  "load_bias_for_mapping mapping elf page =
     find_map_list (\<lambda>seg. load_bias_for_segment mapping (fst (seg_file_range seg)) (seg_address seg) page)
       (elf_segments elf)"

text \<open>The loop over the segments, from the bounds found so far; \<open>None\<close> is the early return.\<close>

fun segment_bounds :: "u64 \<Rightarrow> elf_segment list \<Rightarrow> u64 \<times> u64 \<Rightarrow> (u64 \<times> u64) option" where
  "segment_bounds page [] (start, fin) = Some (start, fin)"
| "segment_bounds page (seg # segs) (start, fin) =
     (case checked_add (seg_address seg) (seg_size seg) of
        None \<Rightarrow> None
      | Some e \<Rightarrow>
          (case align_up e page of
             None \<Rightarrow> None
           | Some segment_end \<Rightarrow>
               segment_bounds page segs
                 (min start (align_down (seg_address seg) page), max fin segment_end)))"

definition module_avma_range :: "u64 \<Rightarrow> elf_file \<Rightarrow> u64 \<Rightarrow> (u64 \<times> u64) option" where
  "module_avma_range load_bias elf page =
     (case segment_bounds page (elf_segments elf) (- 1, 0) of
        None \<Rightarrow> None
      | Some (start, fin) \<Rightarrow>
          if fin \<le> start then None
          else (case (checked_add load_bias start, checked_add load_bias fin) of
                  (Some s, Some e) \<Rightarrow> Some (s, e)
                | _ \<Rightarrow> None))"

definition PF_X :: u32 where "PF_X = 1"

fun offset_in_segments :: "u64 \<Rightarrow> elf_segment list \<Rightarrow> u64 option" where
  "offset_in_segments vaddr [] = None"
| "offset_in_segments vaddr (seg # segs) =
     (case seg_flags seg of
        None \<Rightarrow> offset_in_segments vaddr segs
      | Some p_flags \<Rightarrow>
          if p_flags AND PF_X \<noteq> 0 \<and> seg_address seg \<le> vaddr \<and>
             vaddr < saturating_add (seg_address seg) (seg_size seg)
          then Some (vaddr - seg_address seg + fst (seg_file_range seg))
          else offset_in_segments vaddr segs)"

definition vaddr_to_file_offset :: "elf_file \<Rightarrow> u64 \<Rightarrow> u64 option" where
  "vaddr_to_file_offset elf vaddr = offset_in_segments vaddr (elf_segments elf)"

section \<open>Alignment\<close>

lemma uint_align_down: "uint (align_down v a) = uint v div uint a * uint a"
proof -
  have "uint v div uint a * uint a \<le> uint v"
    using div_mult_mod_eq [of "uint v" "uint a"] uint_ge_0 [of "v mod a"]
    unfolding uint_mod by linarith
  then have "uint v div uint a * uint a < 2 ^ LENGTH(64)"
    using uint_lt2p [of v] by linarith
  moreover have "0 \<le> uint v div uint a * uint a" by (intro mult_nonneg_nonneg) (simp_all flip: uint_div)
  ultimately show ?thesis
    by (simp only: align_down_def uint_word_ariths uint_div mod_pos_pos_trivial)
qed

lemma align_down_bounds:
  assumes "0 < a"
  shows "uint (align_down v a) \<le> uint v" and "uint v < uint (align_down v a) + uint a"
    and "uint a dvd uint (align_down v a)"
proof -
  have "0 < uint a" using assms by (simp add: word_less_def)
  then show "uint (align_down v a) \<le> uint v" "uint v < uint (align_down v a) + uint a"
    "uint a dvd uint (align_down v a)"
    using div_mult_mod_eq [of "uint v" "uint a"] pos_mod_bound [of "uint a" "uint v"]
      pos_mod_sign [of "uint a" "uint v"]
    unfolding uint_align_down by (simp_all only:, linarith+, simp)
qed

text \<open>What is cut off is the remainder, so congruent values lose the same.\<close>

lemma minus_align_down: "v - align_down v a = v mod a"
  by (simp add: align_down_def minus_div_mult_eq_mod)

text \<open>Rounding up gives the least multiple, when it fits.\<close>

lemma align_up_SomeD:
  assumes "align_up v a = Some r"
  shows "uint v \<le> uint r" and "uint r < uint v + uint a" and "uint a dvd uint r"
proof -
  from assms obtain b where sub: "checked_sub a 1 = Some b"
    and "map_option (\<lambda>v. align_down v a) (checked_add v b) = Some r"
    by (auto simp: align_up_def split: option.splits)
  then obtain c where add: "checked_add v b = Some c" and r: "r = align_down c a" by auto
  have b: "1 \<le> a" "uint b = uint a - 1" and c: "uint c = uint v + uint b"
    using sub add by (simp_all add: checked_sub_Some_iff checked_add_Some_iff)
  have "0 < a" using b uint_ge_0 [of b] by (simp only: word_less_def) simp
  from align_down_bounds [OF this, of c] r b c
  show "uint v \<le> uint r" "uint r < uint v + uint a" "uint a dvd uint r" by simp_all
qed

section \<open>Where a segment is loaded\<close>

text \<open>
  The kernel maps a segment by whole pages: the mapping starts at the load bias plus the page of the
  segment's address and shows the file from the page of its offset on. An ELF file keeps the two
  congruent.
\<close>

definition placed :: "u64 \<Rightarrow> u64 \<Rightarrow> elf_segment \<Rightarrow> map_entry \<Rightarrow> bool" where
  "placed page bias seg m \<longleftrightarrow>
     uint (me_start m) = uint bias + uint (align_down (seg_address seg) page) \<and>
     me_offset m = align_down (fst (seg_file_range seg)) page"

definition congruent :: "u64 \<Rightarrow> elf_segment \<Rightarrow> bool" where
  "congruent page seg \<longleftrightarrow> seg_address seg mod page = fst (seg_file_range seg) mod page"

text \<open>Segments that share a page of the file are one page of addresses.\<close>

definition pages_determine_segments :: "u64 \<Rightarrow> elf_file \<Rightarrow> bool" where
  "pages_determine_segments page elf \<longleftrightarrow>
     list_all (\<lambda>s. list_all (\<lambda>t.
       align_down (fst (seg_file_range s)) page = align_down (fst (seg_file_range t)) page \<longrightarrow>
       align_down (seg_address s) page = align_down (seg_address t) page) (elf_segments elf))
     (elf_segments elf)"

lemma find_map_list_unique:
  "x \<in> set xs \<Longrightarrow> f x = Some y \<Longrightarrow> (\<And>x'. x' \<in> set xs \<Longrightarrow> f x' \<in> {None, Some y}) \<Longrightarrow>
   find_map_list f xs = Some y"
proof (induction xs)
  case (Cons a xs)
  show ?case
  proof (cases "f a")
    case None
    with Cons.prems have "x \<in> set xs" by auto
    with Cons None show ?thesis by simp
  next
    case (Some z)
    with Cons.prems(3) [of a] show ?thesis by simp
  qed
qed simp

lemma load_bias_for_placed:
  assumes "placed page bias seg m" and "align_down (seg_address s) page = align_down (seg_address seg) page"
    and "align_down (fst (seg_file_range s)) page = align_down (fst (seg_file_range seg)) page"
  shows "load_bias_for_segment m (fst (seg_file_range s)) (seg_address s) page = Some bias"
proof -
  have "align_down (seg_address seg) page \<le> me_start m"
    using assms(1) uint_ge_0 [of bias] unfolding placed_def by (intro Word.word_le_def [THEN iffD2]) linarith
  with assms show ?thesis
    by (simp add: load_bias_for_segment_def placed_def checked_sub_Some_iff)
qed

lemma load_bias_recovered:
  assumes "seg \<in> set (elf_segments elf)" and "placed page bias seg m"
    and "pages_determine_segments page elf"
  shows "load_bias_for_mapping m elf page = Some bias"
  unfolding load_bias_for_mapping_def
proof (rule find_map_list_unique [OF assms(1)])
  show "load_bias_for_segment m (fst (seg_file_range seg)) (seg_address seg) page = Some bias"
    by (rule load_bias_for_placed [OF assms(2)]) simp_all
next
  fix s assume "s \<in> set (elf_segments elf)"
  show "load_bias_for_segment m (fst (seg_file_range s)) (seg_address s) page \<in> {None, Some bias}"
  proof (cases "align_down (fst (seg_file_range s)) page = me_offset m")
    case True
    then have "align_down (fst (seg_file_range s)) page = align_down (fst (seg_file_range seg)) page"
      using assms(2) by (simp add: placed_def)
    moreover from this have "align_down (seg_address s) page = align_down (seg_address seg) page"
      using assms(1,3) \<open>s \<in> set (elf_segments elf)\<close>
      unfolding pages_determine_segments_def list_all_iff by blast
    ultimately show ?thesis using load_bias_for_placed [OF assms(2), of s] by auto
  qed (simp add: load_bias_for_segment_def)
qed

text \<open>Every byte of a placed segment: its file offset, seen through the mapping, is its address.\<close>

lemma placed_address:
  assumes "placed page bias seg m" and "congruent page seg"
  shows "me_start m + (v - seg_address seg + fst (seg_file_range seg) - me_offset m) = bias + v"
proof -
  have "seg_address seg - align_down (seg_address seg) page =
        fst (seg_file_range seg) - align_down (fst (seg_file_range seg)) page"
    using assms(2) by (simp add: minus_align_down congruent_def)
  moreover have "me_start m = bias + align_down (seg_address seg) page"
    using assms(1) by (metis placed_def word_of_int_uint wi_hom_add)
  ultimately show ?thesis using assms(1) by (simp add: placed_def algebra_simps)
qed

lemma offset_in_segments_SomeD:
  "offset_in_segments v segs = Some off \<Longrightarrow>
   \<exists>seg \<in> set segs. seg_address seg \<le> v \<and> uint v < uint (seg_address seg) + uint (seg_size seg) \<and>
     (\<exists>fl. seg_flags seg = Some fl \<and> fl AND PF_X \<noteq> 0) \<and>
     off = v - seg_address seg + fst (seg_file_range seg)"
proof (induction v segs rule: offset_in_segments.induct)
  case (2 v seg segs)
  let ?hit = "\<exists>fl. seg_flags seg = Some fl \<and> fl AND PF_X \<noteq> 0 \<and> seg_address seg \<le> v \<and>
    v < saturating_add (seg_address seg) (seg_size seg)"
  show ?case
  proof (cases ?hit)
    case True
    then have "uint v < uint (seg_address seg) + uint (seg_size seg)"
      unfolding word_less_def uint_saturating_add by linarith
    with True 2(3) show ?thesis by (intro bexI [of _ seg]) auto
  next
    case False
    with 2(3) have "offset_in_segments v segs = Some off"
      by (cases "seg_flags seg") (auto split: if_splits)
    with 2(1,2) False show ?thesis by (cases "seg_flags seg") auto
  qed
qed simp

section \<open>Bounds of a module\<close>

lemma min_max_uint: "uint (min a b) = min (uint a) (uint b)" "uint (max a b) = max (uint a) (uint b)"
  by (auto simp: min_def max_def Word.word_le_def)

text \<open>The pages of one segment, rounded outwards.\<close>

lemma segment_pages:
  assumes "checked_add (seg_address seg) (seg_size seg) = Some e" and "align_up e page = Some r"
  shows "uint (align_down (seg_address seg) page) \<le> uint (seg_address seg)"
    and "uint (seg_address seg) < uint (align_down (seg_address seg) page) + uint page"
    and "uint (seg_address seg) + uint (seg_size seg) \<le> uint r"
    and "uint r < uint (seg_address seg) + uint (seg_size seg) + uint page"
proof -
  have "page \<noteq> 0" using assms(2) by (auto simp: align_up_def checked_sub_def)
  then have "0 < page" by (simp add: word_neq_0_conv)
  then show "uint (align_down (seg_address seg) page) \<le> uint (seg_address seg)"
    "uint (seg_address seg) < uint (align_down (seg_address seg) page) + uint page"
    by (rule align_down_bounds)+
  show "uint (seg_address seg) + uint (seg_size seg) \<le> uint r"
    "uint r < uint (seg_address seg) + uint (seg_size seg) + uint page"
    using align_up_SomeD [OF assms(2)] assms(1) by (simp_all add: checked_add_Some_iff)
qed

lemma segment_bounds_hull:
  assumes "segment_bounds page segs (s0, f0) = Some (s, f)"
  shows "uint s \<le> uint s0 \<and> uint f0 \<le> uint f \<and>
    (\<forall>seg \<in> set segs. uint s \<le> uint (seg_address seg) \<and>
       uint (seg_address seg) + uint (seg_size seg) \<le> uint f) \<and>
    (s = s0 \<or> (\<exists>seg \<in> set segs. uint (seg_address seg) < uint s + uint page)) \<and>
    (f = f0 \<or> (\<exists>seg \<in> set segs. uint f < uint (seg_address seg) + uint (seg_size seg) + uint page))"
  using assms
proof (induction segs arbitrary: s0 f0)
  case (Cons seg segs)
  from Cons.prems obtain e r where e: "checked_add (seg_address seg) (seg_size seg) = Some e"
    and r: "align_up e page = Some r"
    and rest: "segment_bounds page segs (min s0 (align_down (seg_address seg) page), max f0 r) = Some (s, f)"
    by (auto split: option.splits)
  note pages = segment_pages [OF e r]
  note IH = Cons.IH [OF rest]
  have "s = s0 \<or> (\<exists>t \<in> set (seg # segs). uint (seg_address t) < uint s + uint page)"
    using IH pages(2) by (auto simp: min_def)
  moreover have "f = f0 \<or> (\<exists>t \<in> set (seg # segs). uint f < uint (seg_address t) + uint (seg_size t) + uint page)"
    using IH pages(4) by (auto simp: max_def)
  ultimately show ?case
    using IH pages(1,3) by (simp add: min_max_uint)
qed simp

lemma module_rangeD:
  assumes "module_avma_range bias elf page = Some (s, e)"
  obtains s0 f0 where "segment_bounds page (elf_segments elf) (- 1, 0) = Some (s0, f0)"
    and "s0 \<noteq> - 1" and "f0 \<noteq> 0" and "uint s = uint bias + uint s0" and "uint e = uint bias + uint f0"
proof -
  from assms obtain s0 f0 where b: "segment_bounds page (elf_segments elf) (- 1, 0) = Some (s0, f0)"
    and lt: "\<not> f0 \<le> s0" and "checked_add bias s0 = Some s" "checked_add bias f0 = Some e"
    by (auto simp: module_avma_range_def split: option.splits if_splits)
  then have "uint s = uint bias + uint s0" "uint e = uint bias + uint f0"
    by (simp_all add: checked_add_Some_iff)
  moreover have "s0 \<noteq> - 1" "f0 \<noteq> 0" using lt by auto
  ultimately show ?thesis using b that by blast
qed

lemma module_range_covers:
  assumes "module_avma_range bias elf page = Some (s, e)" and "seg \<in> set (elf_segments elf)"
  shows "uint s \<le> uint bias + uint (seg_address seg)"
    and "uint bias + uint (seg_address seg) + uint (seg_size seg) \<le> uint e"
proof -
  obtain s0 f0 where "segment_bounds page (elf_segments elf) (- 1, 0) = Some (s0, f0)"
    and "uint s = uint bias + uint s0" "uint e = uint bias + uint f0"
    by (rule module_rangeD [OF assms(1)])
  with segment_bounds_hull [OF this(1)] assms(2)
  show "uint s \<le> uint bias + uint (seg_address seg)"
    "uint bias + uint (seg_address seg) + uint (seg_size seg) \<le> uint e"
    by auto
qed

text \<open>A file offset and its run-time address, in every mapping of the segment it is in.\<close>

lemma file_offset_hits:
  assumes "vaddr_to_file_offset elf v = Some off"
    and "list_all (congruent page) (elf_segments elf)" and "pages_determine_segments page elf"
  shows "\<exists>seg \<in> set (elf_segments elf).
    (\<exists>fl. seg_flags seg = Some fl \<and> fl AND PF_X \<noteq> 0) \<and>
    seg_address seg \<le> v \<and> uint v < uint (seg_address seg) + uint (seg_size seg) \<and>
    (\<forall>m bias. placed page bias seg m \<longrightarrow>
       load_bias_for_mapping m elf page = Some bias \<and> me_start m + (off - me_offset m) = bias + v)"
proof -
  obtain seg where seg: "seg \<in> set (elf_segments elf)" "seg_address seg \<le> v"
    "uint v < uint (seg_address seg) + uint (seg_size seg)"
    "\<exists>fl. seg_flags seg = Some fl \<and> fl AND PF_X \<noteq> 0"
    and off: "off = v - seg_address seg + fst (seg_file_range seg)"
    using offset_in_segments_SomeD assms(1) unfolding vaddr_to_file_offset_def by blast
  have "congruent page seg" using assms(2) seg(1) by (simp add: list_all_iff)
  then have "load_bias_for_mapping m elf page = Some bias \<and> me_start m + (off - me_offset m) = bias + v"
    if "placed page bias seg m" for m bias
    using that load_bias_recovered [OF seg(1) that assms(3)] placed_address [OF that, of v] off by simp
  with seg show ?thesis by blast
qed

section \<open>Properties\<close>

text \<open>
  C20. The offset computed for a symbol is where the probe belongs: the symbol lies in an executable
  segment, and in every mapping in which the kernel placed that segment, the byte at the offset is at
  the symbol's run-time address, the load bias the unwinder finds for the mapping plus the symbol's
  address. This needs what ELF requires (offsets congruent to addresses) and that segments sharing a
  page of the file share a page of addresses.
\<close>

theorem probe_offset_hits_symbol:
  assumes "vaddr_to_file_offset elf v = Some off"
    and "list_all (congruent page) (elf_segments elf)" and "pages_determine_segments page elf"
  shows "\<exists>seg \<in> set (elf_segments elf).
    (\<exists>fl. seg_flags seg = Some fl \<and> fl AND PF_X \<noteq> 0) \<and>
    seg_address seg \<le> v \<and> uint v < uint (seg_address seg) + uint (seg_size seg) \<and>
    (\<forall>m bias. placed page bias seg m \<longrightarrow>
       load_bias_for_mapping m elf page = Some bias \<and> me_start m + (off - me_offset m) = bias + v)"
  using assms by (rule file_offset_hits)

definition text_segment :: elf_segment where
  "text_segment = \<lparr>seg_address = 0x11000, seg_size = 0x800, seg_file_range = (0x1000, 0x800),
                   seg_flags = Some 5\<rparr>"

definition example_elf :: elf_file where
  "example_elf = \<lparr>elf_arch = Some X86_64, elf_segments = [text_segment], elf_sections = \<lambda>_. None,
                  elf_symbols = [], elf_dynamic_symbols = []\<rparr>"

definition text_mapping :: map_entry where
  "text_mapping = example_entry\<lparr>me_start := 0x7f0011000, me_offset := 0x1000\<rparr>"

lemma probe_offset_hits_symbol_witness:
  "vaddr_to_file_offset example_elf 0x11234 = Some 0x1234 \<and>
   load_bias_for_mapping text_mapping example_elf 4096 = Some 0x7f0000000 \<and>
   me_start text_mapping + (0x1234 - me_offset text_mapping) = 0x7f0000000 + 0x11234"
proof -
  have off: "vaddr_to_file_offset example_elf 0x11234 = Some 0x1234"
    by (simp add: vaddr_to_file_offset_def example_elf_def text_segment_def PF_X_def saturating_add_def)
  have "list_all (congruent 4096) (elf_segments example_elf)"
    "pages_determine_segments 4096 example_elf"
    by (simp_all add: example_elf_def text_segment_def congruent_def pages_determine_segments_def)
  from probe_offset_hits_symbol [OF off this]
  have "\<And>m bias. placed 4096 bias text_segment m \<Longrightarrow>
    load_bias_for_mapping m example_elf 4096 = Some bias \<and>
    me_start m + (0x1234 - me_offset m) = bias + 0x11234"
    by (simp add: example_elf_def)
  moreover have "placed 4096 0x7f0000000 text_segment text_mapping"
    by (simp add: placed_def text_segment_def text_mapping_def example_entry_def align_down_def)
  ultimately show ?thesis using off by blast
qed

text \<open>
  C37. The address range of a module is the pages of its segments at the load bias: it covers every
  segment without wrapping around, and reaches less than a page beyond the first and the last byte.
\<close>

theorem module_range_is_hull:
  assumes "module_avma_range bias elf page = Some (s, e)"
  shows "(\<forall>seg \<in> set (elf_segments elf). uint s \<le> uint bias + uint (seg_address seg) \<and>
            uint bias + uint (seg_address seg) + uint (seg_size seg) \<le> uint e) \<and>
    (\<exists>seg \<in> set (elf_segments elf). uint bias + uint (seg_address seg) < uint s + uint page) \<and>
    (\<exists>seg \<in> set (elf_segments elf).
       uint e < uint bias + uint (seg_address seg) + uint (seg_size seg) + uint page)"
proof -
  obtain s0 f0 where b: "segment_bounds page (elf_segments elf) (- 1, 0) = Some (s0, f0)"
    and ne: "s0 \<noteq> - 1" "f0 \<noteq> 0" and add: "uint s = uint bias + uint s0" "uint e = uint bias + uint f0"
    by (rule module_rangeD [OF assms])
  obtain t u where
    t: "t \<in> set (elf_segments elf)" "uint (seg_address t) < uint s0 + uint page" and
    u: "u \<in> set (elf_segments elf)" "uint f0 < uint (seg_address u) + uint (seg_size u) + uint page"
    using segment_bounds_hull [OF b] ne by blast
  have "uint bias + uint (seg_address t) < uint s + uint page"
    "uint e < uint bias + uint (seg_address u) + uint (seg_size u) + uint page"
    using t(2) u(2) add by linarith+
  with t(1) u(1) show ?thesis using module_range_covers [OF assms] by blast
qed

lemma module_range_is_hull_witness:
  "module_avma_range 0x7f0000000 example_elf 4096 = Some (0x7f0011000, 0x7f0012000) \<and>
   uint (0x7f0011000 :: u64) \<le> uint (0x7f0000000 :: u64) + uint (seg_address text_segment)"
proof -
  have r: "module_avma_range 0x7f0000000 example_elf 4096 = Some (0x7f0011000, 0x7f0012000)"
    by (simp add: module_avma_range_def example_elf_def text_segment_def checked_add_def
        checked_sub_def align_up_def align_down_def)
  with module_range_is_hull [OF r] show ?thesis by (simp add: example_elf_def)
qed

text \<open>
  Segments that share a page of the file but not of the address space, as in the default layout of
  LLVM's linker, defeat the search: the text below is placed with the bias \<open>0x400000\<close>, and the bias
  of the read-only segment before it is found.
\<close>

definition lld_segments :: "elf_segment list" where
  "lld_segments =
     [\<lparr>seg_address = 0, seg_size = 0x5D0, seg_file_range = (0, 0x5D0), seg_flags = Some 4\<rparr>,
      \<lparr>seg_address = 0x15D0, seg_size = 0x180, seg_file_range = (0x5D0, 0x180), seg_flags = Some 5\<rparr>]"

lemma load_bias_takes_first_segment:
  "placed 4096 0x400000 (lld_segments ! 1) (example_entry\<lparr>me_start := 0x401000, me_offset := 0\<rparr>) \<and>
   list_all (congruent 4096) lld_segments \<and>
   load_bias_for_mapping (example_entry\<lparr>me_start := 0x401000, me_offset := 0\<rparr>)
     (example_elf\<lparr>elf_segments := lld_segments\<rparr>) 4096 = Some 0x401000"
proof (intro conjI)
  show "placed 4096 0x400000 (lld_segments ! 1) (example_entry\<lparr>me_start := 0x401000, me_offset := 0\<rparr>)"
    by (simp add: placed_def lld_segments_def align_down_def)
  show "list_all (congruent 4096) lld_segments"
    by (simp add: lld_segments_def congruent_def)
  show "load_bias_for_mapping (example_entry\<lparr>me_start := 0x401000, me_offset := 0\<rparr>)
     (example_elf\<lparr>elf_segments := lld_segments\<rparr>) 4096 = Some 0x401000"
    by (simp add: lld_segments_def load_bias_for_mapping_def load_bias_for_segment_def
        align_down_def checked_sub_def)
qed

end
