(* ===== verification/LuaOffsets.thy ===== *)
theory LuaOffsets
  imports ElfFile
begin

text \<open>
  The file offsets the uprobes are attached at (\<open>resolve_lua_offsets\<close> of src/syms.rs): the text
  symbols of the three LuaJIT entry points, from the static and then the dynamic symbol table.
\<close>

section \<open>Source functions\<close>

record lua_offsets =
  off_resume :: u64
  off_pcall :: u64
  off_yield :: u64

datatype resolve_error = ReadFailed | NotElf | NotExecutable u64 | SymbolNotFound string

definition want :: "string list" where
  "want = [''lua_resume'', ''lua_pcall'', ''lua_yield'']"

text \<open>The inner loop, over the wanted names from the \<open>i\<close>-th on.\<close>

fun match_names ::
    "elf_file \<Rightarrow> u8 list \<Rightarrow> u64 \<Rightarrow> nat \<Rightarrow> string list \<Rightarrow> u64 option list \<Rightarrow>
     resolve_error + u64 option list" where
  "match_names elf name vaddr i [] found = Inr found"
| "match_names elf name vaddr i (w # ws) found =
     (if name = bytes_of w then
        (case vaddr_to_file_offset elf vaddr of
           None \<Rightarrow> Inl (NotExecutable vaddr)
         | Some off \<Rightarrow> match_names elf name vaddr (Suc i) ws (found[i := Some off]))
      else match_names elf name vaddr (Suc i) ws found)"

fun find_symbols ::
    "elf_file \<Rightarrow> elf_symbol list \<Rightarrow> u64 option list \<Rightarrow> resolve_error + u64 option list" where
  "find_symbols elf [] found = Inr found"
| "find_symbols elf (s # ss) found =
     (if \<not> sym_is_text s then find_symbols elf ss found
      else case sym_name s of
             None \<Rightarrow> find_symbols elf ss found
           | Some name \<Rightarrow>
               (case match_names elf name (sym_address s) 0 want found of
                  Inl e \<Rightarrow> Inl e
                | Inr found \<Rightarrow> find_symbols elf ss found))"

definition mk :: "u64 option list \<Rightarrow> nat \<Rightarrow> resolve_error + u64" where
  "mk found i = (case found ! i of Some off \<Rightarrow> Inr off | None \<Rightarrow> Inl (SymbolNotFound (want ! i)))"

definition resolve_lua_offsets ::
    "(string \<Rightarrow> u8 list option) \<Rightarrow> (u8 list \<Rightarrow> elf_file option) \<Rightarrow> string \<Rightarrow>
     resolve_error + lua_offsets" where
  "resolve_lua_offsets fs_read parse lib_path =
     (case fs_read lib_path of
        None \<Rightarrow> Inl ReadFailed
      | Some bytes \<Rightarrow>
     (case parse bytes of
        None \<Rightarrow> Inl NotElf
      | Some elf \<Rightarrow>
     (case find_symbols elf (elf_symbols elf @ elf_dynamic_symbols elf) [None, None, None] of
        Inl e \<Rightarrow> Inl e
      | Inr found \<Rightarrow>
     (case mk found 0 of
        Inl e \<Rightarrow> Inl e
      | Inr resume \<Rightarrow>
     (case mk found 1 of
        Inl e \<Rightarrow> Inl e
      | Inr pcall \<Rightarrow>
     (case mk found 2 of
        Inl e \<Rightarrow> Inl e
      | Inr yield \<Rightarrow> Inr \<lparr>off_resume = resume, off_pcall = pcall, off_yield = yield\<rparr>))))))"

section \<open>What is found\<close>

text \<open>The text symbols of a name, and the offset of the last one.\<close>

definition named :: "string \<Rightarrow> elf_symbol list \<Rightarrow> elf_symbol list" where
  "named w ss = filter (\<lambda>s. sym_is_text s \<and> sym_name s = Some (bytes_of w)) ss"

definition last_offset :: "elf_file \<Rightarrow> elf_symbol list \<Rightarrow> string \<Rightarrow> u64 option" where
  "last_offset elf ss w =
     (if named w ss = [] then None else vaddr_to_file_offset elf (sym_address (last (named w ss))))"

text \<open>A symbol the search asks an offset for, and whether it has one.\<close>

definition wanted :: "elf_symbol \<Rightarrow> bool" where
  "wanted s \<longleftrightarrow> sym_is_text s \<and> sym_name s \<in> Some ` bytes_of ` set want"

definition unplaced :: "elf_file \<Rightarrow> elf_symbol \<Rightarrow> bool" where
  "unplaced elf s \<longleftrightarrow> wanted s \<and> vaddr_to_file_offset elf (sym_address s) = None"

lemma bytes_of_inj [simp]: "bytes_of v = bytes_of w \<longleftrightarrow> v = w"
  by (metis str_of_bytes_of)

lemma named_Cons:
  "named w (s # ss) = (if sym_is_text s \<and> sym_name s = Some (bytes_of w) then s # named w ss else named w ss)"
  by (simp add: named_def)

definition over :: "'a option \<Rightarrow> 'a option \<Rightarrow> 'a option" where
  "over new old = (case new of None \<Rightarrow> old | Some x \<Rightarrow> Some x)"

lemma three_found:
  assumes "length found = 3"
  obtains a b c where "found = [a, b, c]"
  using assms by (auto simp: numeral_3_eq_3 length_Suc_conv)

lemma match_want:
  assumes "length found = 3"
  shows "match_names elf name a 0 want found =
    (if name \<notin> bytes_of ` set want then Inr found
     else case vaddr_to_file_offset elf a of
            None \<Rightarrow> Inl (NotExecutable a)
          | Some off \<Rightarrow> Inr (map2 (\<lambda>w f. if name = bytes_of w then Some off else f) want found))"
proof -
  obtain x y z where "found = [x, y, z]" by (rule three_found [OF assms])
  then show ?thesis by (auto simp: want_def split: option.split)
qed

lemma find_symbols_step:
  assumes "length found = 3"
  shows "find_symbols elf (s # ss) found =
    (if \<not> wanted s then find_symbols elf ss found
     else case vaddr_to_file_offset elf (sym_address s) of
            None \<Rightarrow> Inl (NotExecutable (sym_address s))
          | Some off \<Rightarrow> find_symbols elf ss
              (map2 (\<lambda>w f. if sym_name s = Some (bytes_of w) then Some off else f) want found))"
  using match_want [OF assms, of elf _ "sym_address s"]
  by (cases "sym_name s") (auto simp: wanted_def split: option.split)

lemma last_offset_Cons:
  assumes "List.find (unplaced elf) ss = None" and "w \<in> set want"
  shows "last_offset elf (s # ss) w =
    over (last_offset elf ss w)
      (if sym_is_text s \<and> sym_name s = Some (bytes_of w)
       then vaddr_to_file_offset elf (sym_address s) else None)"
proof -
  have "vaddr_to_file_offset elf (sym_address (last (named w ss))) \<noteq> None" if "named w ss \<noteq> []"
  proof -
    from last_in_set [OF that] have "last (named w ss) \<in> set ss" "wanted (last (named w ss))"
      using assms(2) by (auto simp: named_def wanted_def)
    with assms(1) show ?thesis by (auto simp: find_None_iff unplaced_def)
  qed
  then show ?thesis by (auto simp: last_offset_def named_Cons over_def)
qed

lemma map2_over:
  "map2 over (map (\<lambda>w. over (g w) (if P w then Some x else None)) ws) fs =
   map2 over (map g ws) (map2 (\<lambda>w f. if P w then Some x else f) ws fs)"
proof (induction ws arbitrary: fs)
  case (Cons w ws)
  then show ?case by (cases fs) (auto simp: over_def split: option.split)
qed simp

text \<open>The search as a whole: it stops at the first symbol without an offset, or keeps the last of each.\<close>

lemma last_offset_step:
  assumes "List.find (unplaced elf) ss = None" and "\<not> unplaced elf s" and "length found = 3"
  shows "map2 over (map (last_offset elf (s # ss)) want) found =
    map2 over (map (last_offset elf ss) want)
      (if wanted s then map2 (\<lambda>w f. if sym_name s = Some (bytes_of w)
         then vaddr_to_file_offset elf (sym_address s) else f) want found else found)"
proof -
  let ?off = "vaddr_to_file_offset elf (sym_address s)"
  have lasts: "map (last_offset elf (s # ss)) want = map (\<lambda>w. over (last_offset elf ss w)
      (if sym_is_text s \<and> sym_name s = Some (bytes_of w) then ?off else None)) want"
    using last_offset_Cons [OF assms(1)] by simp
  show ?thesis
  proof (cases "wanted s")
    case True
    with assms(2) obtain off where off: "?off = Some off" by (auto simp: unplaced_def)
    have "sym_is_text s" using True by (simp add: wanted_def)
    with True off show ?thesis using map2_over [of "last_offset elf ss"] unfolding lasts off by simp
  next
    case False
    obtain a b c where "found = [a, b, c]" by (rule three_found [OF assms(3)])
    with False show ?thesis unfolding lasts by (auto simp: want_def wanted_def over_def split: option.split)
  qed
qed

lemma find_symbols_eq:
  "length found = 3 \<Longrightarrow>
   find_symbols elf ss found =
     (case List.find (unplaced elf) ss of
        Some s \<Rightarrow> Inl (NotExecutable (sym_address s))
      | None \<Rightarrow> Inr (map2 over (map (last_offset elf ss) want) found))"
proof (induction ss arbitrary: found)
  case Nil
  obtain a b c where "found = [a, b, c]" by (rule three_found [OF Nil])
  then show ?case by (simp add: last_offset_def named_def over_def want_def)
next
  case (Cons s ss)
  let ?found = "if wanted s then map2 (\<lambda>w f. if sym_name s = Some (bytes_of w)
    then vaddr_to_file_offset elf (sym_address s) else f) want found else found"
  have len: "length ?found = 3" using Cons.prems by (simp add: want_def)
  show ?case
  proof (cases "unplaced elf s")
    case True
    with Cons.prems show ?thesis
      by (simp add: find_symbols_step unplaced_def [of elf s] del: find_symbols.simps)
  next
    case False
    then have "find_symbols elf (s # ss) found = find_symbols elf ss ?found"
      using Cons.prems by (auto simp: find_symbols_step unplaced_def [of elf s] simp del: find_symbols.simps)
    with False Cons.IH [OF len] last_offset_step [OF _ False Cons.prems, of ss] show ?thesis
      by (simp split: option.split)
  qed
qed

text \<open>A resolved offset is that of a text symbol with the name.\<close>

lemma last_offset_SomeD:
  assumes "last_offset elf ss w = Some off"
  shows "\<exists>sym \<in> set (named w ss). vaddr_to_file_offset elf (sym_address sym) = Some off"
  using assms last_in_set [of "named w ss"] by (auto simp: last_offset_def split: if_splits)

lemma resolved_library:
  assumes "resolve_lua_offsets fs_read parse path = Inr offs"
  obtains bytes elf where "fs_read path = Some bytes" and "parse bytes = Some elf"
    and "\<And>w off. (w, off) \<in> {(''lua_resume'', off_resume offs), (''lua_pcall'', off_pcall offs),
                            (''lua_yield'', off_yield offs)} \<Longrightarrow>
           last_offset elf (elf_symbols elf @ elf_dynamic_symbols elf) w = Some off"
proof -
  from assms obtain bytes elf where "fs_read path = Some bytes" "parse bytes = Some elf"
    and "last_offset elf (elf_symbols elf @ elf_dynamic_symbols elf) ''lua_resume'' = Some (off_resume offs)"
    and "last_offset elf (elf_symbols elf @ elf_dynamic_symbols elf) ''lua_pcall'' = Some (off_pcall offs)"
    and "last_offset elf (elf_symbols elf @ elf_dynamic_symbols elf) ''lua_yield'' = Some (off_yield offs)"
    by (auto simp: resolve_lua_offsets_def find_symbols_eq mk_def over_def want_def Let_def
        split: option.splits)
  then show ?thesis by (intro that) auto
qed

section \<open>Properties\<close>

text \<open>
  C30. Symbols are resolved exactly: the function succeeds if and only if the library can be read and
  parsed, every text symbol with one of the three names lies in an executable segment, and each name
  has one; each offset is that of the name's last symbol in the static and then the dynamic table.
\<close>

theorem resolve_lua_offsets_iff:
  "resolve_lua_offsets fs_read parse path = Inr offs \<longleftrightarrow>
   (\<exists>bytes elf. fs_read path = Some bytes \<and> parse bytes = Some elf \<and>
      (let ss = elf_symbols elf @ elf_dynamic_symbols elf in
       filter (unplaced elf) ss = [] \<and>
       last_offset elf ss ''lua_resume'' = Some (off_resume offs) \<and>
       last_offset elf ss ''lua_pcall'' = Some (off_pcall offs) \<and>
       last_offset elf ss ''lua_yield'' = Some (off_yield offs)))"
proof -
  have none: "filter P xs = [] \<longleftrightarrow> List.find P xs = None" for P and xs :: "elf_symbol list"
    by (auto simp: find_None_iff filter_empty_conv)
  show ?thesis
    by (cases offs)
       (auto simp: resolve_lua_offsets_def find_symbols_eq none mk_def over_def want_def Let_def
        split: option.splits)
qed

text \<open>The errors, in the order the function meets them.\<close>

lemma resolve_reports_unplaced_symbol:
  assumes "fs_read path = Some bytes" and "parse bytes = Some elf"
    and "List.find (unplaced elf) (elf_symbols elf @ elf_dynamic_symbols elf) = Some s"
  shows "resolve_lua_offsets fs_read parse path = Inl (NotExecutable (sym_address s))"
  using assms by (simp add: resolve_lua_offsets_def find_symbols_eq)

end
