(* ===== verification/NativeModules.thy ===== *)
theory NativeModules
  imports LuaOffsets "HOL-Library.List_Lexorder"
begin

text \<open>
  Loading the unwinder's modules (\<open>UserUnwinder::new\<close> of src/unwind.rs): the executable mappings
  grouped by file, the files read and parsed, and one module for each load bias. Reading files, the
  ELF parser and the iteration order of the two hash tables are arguments.
\<close>

section \<open>Source types and functions\<close>

datatype file_id = FileId (fi_device: string) (fi_inode: u64) (fi_path: string)

definition from_mapping :: "map_entry \<Rightarrow> file_id" where
  "from_mapping m =
     FileId (me_device m) (me_inode m) (case me_path m of Some p \<Rightarrow> p | None \<Rightarrow> [])"

text \<open>
  \<open>Path::strip_prefix("/")\<close>: empty and \<open>.\<close> components after the root go with it, and those at the
  end, which read the same backwards.
\<close>

fun trim_components :: "string \<Rightarrow> string" where
  "trim_components (c # s) =
     (if c = CHR ''/'' then trim_components s
      else if c = CHR ''.'' \<and> (s = [] \<or> hd s = CHR ''/'') then trim_components s
      else c # s)"
| "trim_components [] = []"

definition strip_root :: "string \<Rightarrow> string option" where
  "strip_root path = map_option (\<lambda>p. rev (trim_components (rev (trim_components p)))) (strip_prefix ''/'' path)"

definition root_path :: "i32 \<Rightarrow> string \<Rightarrow> string" where
  "root_path pid relative = ''/proc/'' @ int_str (sint pid) @ ''/root/'' @ relative"

definition map_files_path :: "i32 \<Rightarrow> map_entry \<Rightarrow> string" where
  "map_files_path pid m =
     ''/proc/'' @ int_str (sint pid) @ ''/map_files/'' @ hex_str (unat (me_start m)) @ ''-'' @
     hex_str (unat (me_end m))"

definition read_mapped_file ::
    "(string \<Rightarrow> u8 list option) \<Rightarrow> i32 \<Rightarrow> map_entry \<Rightarrow> map_entry list \<Rightarrow> u8 list option" where
  "read_mapped_file fs_read pid first mappings =
     (case me_path first of
        None \<Rightarrow> None
      | Some path \<Rightarrow>
     (case (case strip_root path of
              Some relative \<Rightarrow> fs_read (root_path pid relative) | None \<Rightarrow> None) of
        Some bytes \<Rightarrow> Some bytes
      | None \<Rightarrow>
     (case fs_read path of
        Some bytes \<Rightarrow> Some bytes
      | None \<Rightarrow> find_map_list (\<lambda>m. fs_read (map_files_path pid m)) mappings)))"

definition is_native_architecture :: "arch \<Rightarrow> arch option \<Rightarrow> bool" where
  "is_native_architecture target architecture \<longleftrightarrow> architecture = Some target"

definition section_range :: "elf_file \<Rightarrow> string \<Rightarrow> (u64 \<times> u64) option" where
  "section_range elf name =
     (case elf_sections elf name of
        None \<Rightarrow> None
      | Some sec \<Rightarrow> map_option (\<lambda>fin. (sec_address sec, fin)) (checked_add (sec_address sec) (sec_size sec)))"

definition section_data :: "elf_file \<Rightarrow> string \<Rightarrow> bool \<Rightarrow> u8 list option" where
  "section_data elf name decompress =
     (case elf_sections elf name of
        None \<Rightarrow> None
      | Some sec \<Rightarrow> if decompress then sec_uncompressed sec else sec_data sec)"

record module_section_info =
  base_svma :: u64
  text_svma :: "(u64 \<times> u64) option"
  got_svma :: "(u64 \<times> u64) option"
  eh_frame :: "u8 list option"
  eh_frame_svma :: "(u64 \<times> u64) option"
  eh_frame_hdr :: "u8 list option"
  eh_frame_hdr_svma :: "(u64 \<times> u64) option"
  debug_frame :: "u8 list option"

definition module_sections :: "elf_file \<Rightarrow> module_section_info" where
  "module_sections elf =
     \<lparr>base_svma = 0, text_svma = section_range elf ''.text'', got_svma = section_range elf ''.got'',
      eh_frame = section_data elf ''.eh_frame'' False,
      eh_frame_svma = section_range elf ''.eh_frame'',
      eh_frame_hdr = section_data elf ''.eh_frame_hdr'' False,
      eh_frame_hdr_svma = section_range elf ''.eh_frame_hdr'',
      debug_frame = section_data elf ''.debug_frame'' True\<rparr>"

record unwind_module =
  mod_name :: string
  avma_range :: "u64 \<times> u64"
  base_avma :: u64
  mod_sections :: module_section_info

text \<open>What the loader needs from outside.\<close>

record loader_env =
  le_read :: "string \<Rightarrow> u8 list option"
  le_parse :: "u8 list \<Rightarrow> elf_file option"
  le_sysconf :: "64 word"
  le_target :: arch
  le_file_order :: "file_id set \<Rightarrow> file_id list"
  le_bias_order :: "u64 set \<Rightarrow> u64 list"

text \<open>The grouping loop.\<close>

fun group_mappings :: "map_entry list \<Rightarrow> (file_id \<rightharpoonup> map_entry list) \<Rightarrow> (file_id \<rightharpoonup> map_entry list)" where
  "group_mappings [] groups = groups"
| "group_mappings (m # ms) groups =
     (if me_executable m \<and> me_path m \<noteq> None
      then group_mappings ms (groups(from_mapping m \<mapsto>
             (case groups (from_mapping m) of Some g \<Rightarrow> g | None \<Rightarrow> []) @ [m]))
      else group_mappings ms groups)"

text \<open>The modules of one file.\<close>

definition module_at :: "u64 \<Rightarrow> map_entry \<Rightarrow> elf_file \<Rightarrow> u64 \<Rightarrow> unwind_module option" where
  "module_at page first elf load_bias =
     (case module_avma_range load_bias elf page of
        None \<Rightarrow> None
      | Some rng \<Rightarrow>
          Some \<lparr>mod_name = (case me_path first of Some p \<Rightarrow> p | None \<Rightarrow> ''[unknown]''),
                avma_range = rng, base_avma = load_bias, mod_sections = module_sections elf\<rparr>)"

definition file_modules :: "loader_env \<Rightarrow> i32 \<Rightarrow> map_entry list \<Rightarrow> unwind_module list" where
  "file_modules env pid mappings =
     (case mappings of
        [] \<Rightarrow> []
      | first # _ \<Rightarrow>
     (case read_mapped_file (le_read env) pid first mappings of
        None \<Rightarrow> []
      | Some bytes \<Rightarrow>
     (case le_parse env bytes of
        None \<Rightarrow> []
      | Some elf \<Rightarrow>
          if \<not> is_native_architecture (le_target env) (elf_arch elf) then []
          else
            let page = page_size (le_sysconf env);
                load_biases = set (List.map_filter (\<lambda>m. load_bias_for_mapping m elf page) mappings);
                sections = module_sections elf
            in if load_biases = {} then []
               else if eh_frame sections = None \<and> debug_frame sections = None then []
               else List.map_filter (module_at page first elf) (le_bias_order env load_biases))))"

definition maps_path :: "i32 \<Rightarrow> string" where
  "maps_path pid = ''/proc/'' @ int_str (sint pid) @ ''/maps''"

definition load_modules :: "loader_env \<Rightarrow> i32 \<Rightarrow> map_entry list \<Rightarrow> unwind_module list" where
  "load_modules env pid mappings =
     (let groups = group_mappings mappings Map.empty
      in concat (map (\<lambda>fid. file_modules env pid (the (groups fid))) (le_file_order env (dom groups))))"

text \<open>The modules and their count, or the error of a maps file that cannot be read as text.\<close>

definition new_unwinder :: "loader_env \<Rightarrow> i32 \<Rightarrow> (unwind_module list \<times> nat) option" where
  "new_unwinder env pid =
     (case le_read env (maps_path pid) of
        None \<Rightarrow> None
      | Some bytes \<Rightarrow>
          if valid_utf8 bytes
          then let mods = load_modules env pid (parse_maps (str_of bytes)) in Some (mods, length mods)
          else None)"

section \<open>Groups\<close>

definition same_file :: "file_id \<Rightarrow> map_entry list \<Rightarrow> map_entry list" where
  "same_file fid ms =
     filter (\<lambda>m. me_executable m \<and> me_path m \<noteq> None \<and> from_mapping m = fid) ms"

lemma same_file_Cons:
  "same_file fid (m # ms) =
     (if me_executable m \<and> me_path m \<noteq> None \<and> from_mapping m = fid
      then m # same_file fid ms else same_file fid ms)"
  by (simp add: same_file_def)

lemma group_mappings_eq:
  "group_mappings ms groups fid =
     (if same_file fid ms = [] then groups fid
      else Some ((case groups fid of Some g \<Rightarrow> g | None \<Rightarrow> []) @ same_file fid ms))"
proof (induction ms arbitrary: groups)
  case (Cons m ms)
  show ?case
  proof (cases "me_executable m \<and> me_path m \<noteq> None")
    case True
    then show ?thesis by (simp add: Cons.IH same_file_Cons)
  next
    case False
    then show ?thesis by (auto simp: Cons.IH same_file_Cons)
  qed
qed (simp add: same_file_def)

lemma groups_of_mappings:
  "group_mappings ms Map.empty fid = (if same_file fid ms = [] then None else Some (same_file fid ms))"
  by (simp add: group_mappings_eq)

lemma dom_groups: "dom (group_mappings ms Map.empty) = {fid. same_file fid ms \<noteq> []}"
  by (auto simp: groups_of_mappings split: if_splits)

lemma finite_groups: "finite (dom (group_mappings ms Map.empty))"
proof -
  have "dom (group_mappings ms Map.empty) \<subseteq> from_mapping ` set ms"
    by (auto simp: dom_groups same_file_def filter_empty_conv)
  then show ?thesis by (rule finite_subset) simp
qed

section \<open>Properties\<close>

text \<open>
  The hash tables iterate over each of their elements once. An order on file identities gives one
  such iteration, in ascending order.
\<close>

instantiation file_id :: linorder
begin

definition less_eq_file_id :: "file_id \<Rightarrow> file_id \<Rightarrow> bool" where
  "x \<le> y \<longleftrightarrow> fi_device x < fi_device y \<or>
     fi_device x = fi_device y \<and>
       (fi_inode x < fi_inode y \<or> fi_inode x = fi_inode y \<and> fi_path x \<le> fi_path y)"

definition less_file_id :: "file_id \<Rightarrow> file_id \<Rightarrow> bool" where
  "x < y \<longleftrightarrow> x \<le> y \<and> \<not> y \<le> (x :: file_id)"

instance
proof
  fix x y z :: file_id
  show "x < y \<longleftrightarrow> x \<le> y \<and> \<not> y \<le> x" by (rule less_file_id_def)
  show "x \<le> x" by (simp add: less_eq_file_id_def)
  show "x \<le> y \<Longrightarrow> y \<le> z \<Longrightarrow> x \<le> z" by (auto simp: less_eq_file_id_def)
  show "x \<le> y \<Longrightarrow> y \<le> x \<Longrightarrow> x = y" by (auto simp: less_eq_file_id_def intro: file_id.expand)
  show "x \<le> y \<or> y \<le> x" by (auto simp: less_eq_file_id_def)
qed

end

definition iterates :: "('a set \<Rightarrow> 'a list) \<Rightarrow> bool" where
  "iterates f \<longleftrightarrow> (\<forall>S. finite S \<longrightarrow> distinct (f S) \<and> set (f S) = S)"

text \<open>The file of an executable mapping, when it is usable for unwinding.\<close>

definition unwindable_file :: "loader_env \<Rightarrow> i32 \<Rightarrow> map_entry list \<Rightarrow> elf_file option" where
  "unwindable_file env pid grp =
     (case read_mapped_file (le_read env) pid (hd grp) grp of
        None \<Rightarrow> None
      | Some bytes \<Rightarrow>
     (case le_parse env bytes of
        None \<Rightarrow> None
      | Some elf \<Rightarrow>
          if elf_arch elf = Some (le_target env) \<and>
             (section_data elf ''.eh_frame'' False \<noteq> None \<or> section_data elf ''.debug_frame'' True \<noteq> None)
          then Some elf else None))"

lemma set_map_filter_eq: "set (List.map_filter f xs) = {y. \<exists>x \<in> set xs. f x = Some y}"
  by (induction xs) (auto simp: map_filter_simps split: option.splits)

lemma file_modules_eq:
  assumes "grp \<noteq> []" and "iterates (le_bias_order env)"
  shows "set (file_modules env pid grp) =
    (case unwindable_file env pid grp of
       None \<Rightarrow> {}
     | Some elf \<Rightarrow>
         {m. \<exists>e \<in> set grp. \<exists>b. load_bias_for_mapping e elf (page_size (le_sysconf env)) = Some b \<and>
            module_at (page_size (le_sysconf env)) (hd grp) elf b = Some m})"
proof -
  obtain first rest where g: "grp = first # rest" using assms(1) by (cases grp) auto
  let ?page = "page_size (le_sysconf env)"
  show ?thesis
  proof (cases "unwindable_file env pid grp")
    case None
    then show ?thesis
      by (auto simp: file_modules_def unwindable_file_def g is_native_architecture_def
          module_sections_def Let_def split: option.splits if_splits)
  next
    case (Some elf)
    define biases where "biases = set (List.map_filter (\<lambda>m. load_bias_for_mapping m elf ?page) grp)"
    have order: "set (le_bias_order env biases) = biases"
      using assms(2) by (simp add: iterates_def biases_def)
    from Some have "file_modules env pid grp =
        (if biases = {} then [] else List.map_filter (module_at ?page first elf) (le_bias_order env biases))"
      unfolding biases_def
      by (auto simp: file_modules_def unwindable_file_def g is_native_architecture_def
          module_sections_def Let_def split: option.splits if_splits)
    then have "set (file_modules env pid grp) = {m. \<exists>b \<in> biases. module_at ?page (hd grp) elf b = Some m}"
      using order by (auto simp: set_map_filter_eq g)
    moreover have "biases = {b. \<exists>e \<in> set grp. load_bias_for_mapping e elf ?page = Some b}"
      unfolding biases_def by (rule set_map_filter_eq)
    ultimately show ?thesis using Some by auto
  qed
qed

lemma iterates_sorted: "iterates (sorted_list_of_set :: 'a::linorder set \<Rightarrow> 'a list)"
  by (simp add: iterates_def)

lemma load_modules_iff:
  assumes "iterates (le_file_order env)" and "iterates (le_bias_order env)"
  shows "m \<in> set (load_modules env pid ms) \<longleftrightarrow>
    (\<exists>e elf b. e \<in> set ms \<and> me_executable e \<and> me_path e \<noteq> None \<and>
       unwindable_file env pid (same_file (from_mapping e) ms) = Some elf \<and>
       load_bias_for_mapping e elf (page_size (le_sysconf env)) = Some b \<and>
       module_at (page_size (le_sysconf env)) (hd (same_file (from_mapping e) ms)) elf b = Some m)"
proof -
  let ?page = "page_size (le_sysconf env)"
  let ?groups = "group_mappings ms Map.empty"
  have files: "set (le_file_order env (dom ?groups)) = {fid. same_file fid ms \<noteq> []}"
    using assms(1) finite_groups by (simp add: iterates_def flip: dom_groups)
  have in_group: "e \<in> set (same_file fid ms) \<longleftrightarrow>
      e \<in> set ms \<and> me_executable e \<and> me_path e \<noteq> None \<and> fid = from_mapping e" for e fid
    by (auto simp: same_file_def)
  have members: "m \<in> set (file_modules env pid grp) \<longleftrightarrow>
      (\<exists>e elf b. e \<in> set grp \<and> unwindable_file env pid grp = Some elf \<and>
         load_bias_for_mapping e elf ?page = Some b \<and> module_at ?page (hd grp) elf b = Some m)"
    if "grp \<noteq> []" for grp
    unfolding file_modules_eq [OF that assms(2)] by (cases "unwindable_file env pid grp") auto
  have nonempty: "same_file fid ms \<noteq> [] \<and> m \<in> set (file_modules env pid (same_file fid ms)) \<longleftrightarrow>
      (\<exists>e elf b. e \<in> set (same_file fid ms) \<and>
         unwindable_file env pid (same_file fid ms) = Some elf \<and>
         load_bias_for_mapping e elf ?page = Some b \<and>
         module_at ?page (hd (same_file fid ms)) elf b = Some m)" for fid
  proof (cases "same_file fid ms = []")
    case False
    with members [OF this] show ?thesis by (simp only:) simp
  qed simp
  have "m \<in> set (load_modules env pid ms) \<longleftrightarrow>
      (\<exists>fid. same_file fid ms \<noteq> [] \<and> m \<in> set (file_modules env pid (same_file fid ms)))"
    by (auto simp: load_modules_def files groups_of_mappings)
  also have "\<dots> \<longleftrightarrow> (\<exists>fid e elf b. e \<in> set (same_file fid ms) \<and>
      unwindable_file env pid (same_file fid ms) = Some elf \<and>
      load_bias_for_mapping e elf ?page = Some b \<and> module_at ?page (hd (same_file fid ms)) elf b = Some m)"
    by (simp only: nonempty)
  also have "\<dots> \<longleftrightarrow> (\<exists>e elf b. e \<in> set ms \<and> me_executable e \<and> me_path e \<noteq> None \<and>
       unwindable_file env pid (same_file (from_mapping e) ms) = Some elf \<and>
       load_bias_for_mapping e elf ?page = Some b \<and>
       module_at ?page (hd (same_file (from_mapping e) ms)) elf b = Some m)"
    unfolding in_group by blast
  finally show ?thesis .
qed

text \<open>
  C27. The unwinder covers the code it can unwind: for every executable mapping of a file that can be
  read, parsed and has unwind tables, in which the kernel placed one of the file's segments, there is
  a module at the mapping's load bias whose address range contains the whole segment. This needs
  that pages of the file determine segments, and that the module's range fits in 64 bits.
\<close>

theorem unwinder_covers_mapping:
  assumes "iterates (le_file_order env)" and "iterates (le_bias_order env)"
    and "new_unwinder env pid = Some (mods, n)"
    and "le_read env (maps_path pid) = Some bytes" and "ms = parse_maps (str_of bytes)"
    and "e \<in> set ms" and "me_executable e" and "me_path e \<noteq> None"
    and "unwindable_file env pid (same_file (from_mapping e) ms) = Some elf"
    and "seg \<in> set (elf_segments elf)" and "placed (page_size (le_sysconf env)) bias seg e"
    and "pages_determine_segments (page_size (le_sysconf env)) elf"
    and "module_avma_range bias elf (page_size (le_sysconf env)) \<noteq> None"
  shows "\<exists>m \<in> set mods. base_avma m = bias \<and>
    uint (fst (avma_range m)) \<le> uint bias + uint (seg_address seg) \<and>
    uint bias + uint (seg_address seg) + uint (seg_size seg) \<le> uint (snd (avma_range m))"
proof -
  let ?page = "page_size (le_sysconf env)"
  have mods: "mods = load_modules env pid ms"
    using assms(3-5) by (auto simp: new_unwinder_def Let_def split: if_splits)
  obtain s t where rng: "module_avma_range bias elf ?page = Some (s, t)" using assms(13) by auto
  then obtain m where m: "module_at ?page (hd (same_file (from_mapping e) ms)) elf bias = Some m"
    and b: "base_avma m = bias" "avma_range m = (s, t)"
    by (simp add: module_at_def)
  have "m \<in> set mods"
    unfolding mods load_modules_iff [OF assms(1,2)]
    using assms(6-9) load_bias_recovered [OF assms(10-12)] m by blast
  then show ?thesis
    using b module_range_covers [OF rng assms(10)] by (intro bexI [of _ m]) simp_all
qed

definition app_entry :: map_entry where
  "app_entry = text_mapping\<lparr>me_path := Some ''/opt/app''\<rparr>"

definition app_elf :: elf_file where
  "app_elf = example_elf\<lparr>elf_sections := \<lambda>n.
     if n = ''.eh_frame''
     then Some \<lparr>sec_address = 0x11100, sec_size = 8, sec_data = Some [0, 0, 0, 0, 0, 0, 0, 0],
                sec_uncompressed = None\<rparr>
     else None\<rparr>"

definition app_env :: loader_env where
  "app_env =
     \<lparr>le_read = \<lambda>p. if p = maps_path 1 then Some (bytes_of (unlines [mapping_line (app_entry, ''r-xp'', 4)]))
                  else Some [0x7F],
      le_parse = \<lambda>bytes. Some app_elf, le_sysconf = 4096, le_target = X86_64,
      le_file_order = sorted_list_of_set, le_bias_order = sorted_list_of_set\<rparr>"

lemma app_maps:
  "plain_mapping (app_entry, ''r-xp'', 4)"
  "parse_maps (unlines [mapping_line (app_entry, ''r-xp'', 4)]) = [app_entry]"
  "valid_utf8 (bytes_of (unlines [mapping_line (app_entry, ''r-xp'', 4)]))"
proof -
  show plain: "plain_mapping (app_entry, ''r-xp'', 4)"
    by (simp add: plain_mapping_def app_entry_def text_mapping_def example_entry_def path_text_def printable_def)
  note ascii = mapping_line_ascii [OF this]
  from ascii_is_line [OF ascii] parse_plain_mapping [OF plain]
  show "parse_maps (unlines [mapping_line (app_entry, ''r-xp'', 4)]) = [app_entry]"
    by (simp add: parse_maps_def lines_of_unlines map_filter_simps)
  have "byte_of c < 0x80" if "c \<in> set (unlines [mapping_line (app_entry, ''r-xp'', 4)])" for c
  proof -
    from that ascii have "(of_char c :: nat) \<le> 126"
      by (auto simp: unlines_def ascii_text_def list_all_iff nl_def)
    then show ?thesis by (simp add: byte_of_def word_less_nat_alt unat_of_nat_small)
  qed
  then show "valid_utf8 (bytes_of (unlines [mapping_line (app_entry, ''r-xp'', 4)]))"
    by (intro valid_ascii) (simp add: list_all_iff bytes_of_def)
qed

lemma unwinder_covers_mapping_witness:
  "\<exists>mods n. new_unwinder app_env 1 = Some (mods, n) \<and> (\<exists>m \<in> set mods. base_avma m = 0x7f0000000)"
proof -
  let ?bytes = "bytes_of (unlines [mapping_line (app_entry, ''r-xp'', 4)])"
  have env: "le_parse app_env b = Some app_elf" "le_sysconf app_env = 4096" "le_target app_env = X86_64"
    "iterates (le_file_order app_env)" "iterates (le_bias_order app_env)"
    "le_read app_env (maps_path 1) = Some ?bytes" "page_size 4096 = 4096" for b
    by (simp_all add: app_env_def iterates_sorted page_size_def)
  have read: "\<exists>b. read_mapped_file (le_read app_env) 1 app_entry [app_entry] = Some b"
    by (simp add: read_mapped_file_def app_entry_def strip_root_def strip_prefix_def app_env_def)
  have entry: "me_executable app_entry" "me_path app_entry \<noteq> None"
    by (simp_all add: app_entry_def text_mapping_def example_entry_def)
  then have grp: "same_file (from_mapping app_entry) [app_entry] = [app_entry]"
    by (simp add: same_file_def)
  have "section_data app_elf ''.eh_frame'' False \<noteq> None" "elf_arch app_elf = Some X86_64"
    by (simp_all add: section_data_def app_elf_def example_elf_def)
  with read env have usable: "unwindable_file app_env 1 (same_file (from_mapping app_entry) [app_entry]) = Some app_elf"
    by (auto simp: unwindable_file_def grp)
  obtain mods n where new: "new_unwinder app_env 1 = Some (mods, n)"
    using env(6) app_maps by (simp add: new_unwinder_def Let_def)
  have seg: "text_segment \<in> set (elf_segments app_elf)"
    "placed (page_size (le_sysconf app_env)) 0x7f0000000 text_segment app_entry"
    "pages_determine_segments (page_size (le_sysconf app_env)) app_elf"
    by (simp_all add: app_elf_def example_elf_def placed_def text_segment_def app_entry_def
        text_mapping_def align_down_def env pages_determine_segments_def)
  have rng: "module_avma_range 0x7f0000000 app_elf (page_size (le_sysconf app_env)) \<noteq> None"
    by (simp add: module_avma_range_def app_elf_def example_elf_def text_segment_def checked_add_def
        checked_sub_def align_up_def align_down_def env)
  have "\<exists>m \<in> set mods. base_avma m = 0x7f0000000 \<and>
      uint (fst (avma_range m)) \<le> uint (0x7f0000000 :: u64) + uint (seg_address text_segment) \<and>
      uint (0x7f0000000 :: u64) + uint (seg_address text_segment) + uint (seg_size text_segment)
        \<le> uint (snd (avma_range m))"
    by (rule unwinder_covers_mapping [OF env(4,5) new env(6) _ _ entry usable seg rng])
       (simp_all add: app_maps)
  with new show ?thesis by blast
qed

end
