(* ===== verification/Session.thy ===== *)
theory Session
  imports NativeModules PerfAttr Pending
begin

text \<open>
  One profiling session (\<open>main\<close> of src/main.rs): what it derives from its arguments, the probes and
  samplers it attaches, the loop that polls the two perf buffers until it is interrupted or its time is
  up, and the result. libbpf, the file system and the clock are arguments.
\<close>

section \<open>Set-up\<close>

record args =
  arg_pid :: i32
  arg_frequency :: u64
  arg_duration :: u64
  arg_user_stacks_only :: bool
  arg_include_c_stacks :: bool
  arg_disable_lua :: bool
  arg_output :: string

definition default_args :: "i32 \<Rightarrow> args" where
  "default_args pid =
     \<lparr>arg_pid = pid, arg_frequency = 99, arg_duration = 0, arg_user_stacks_only = False,
      arg_include_c_stacks = False, arg_disable_lua = False,
      arg_output = ''folded.txt''\<rparr>"

definition include_native_stacks :: "args \<Rightarrow> bool" where
  "include_native_stacks a \<longleftrightarrow> arg_include_c_stacks a \<or> arg_disable_lua a"

text \<open>The read-only data of the program, over the defaults of its source.\<close>

definition rodata :: "args \<Rightarrow> config" where
  "rodata a =
     default_config\<lparr>targ_pid := arg_pid a, targ_tid := - 1, user_stacks_only := arg_user_stacks_only a,
       disable_lua_user_trace := arg_disable_lua a, collect_native_stacks := include_native_stacks a\<rparr>"

definition exclude_kernel :: "args \<Rightarrow> bool" where
  "exclude_kernel a \<longleftrightarrow> arg_user_stacks_only a \<or> include_native_stacks a"

datatype lua_prog = Prog_entry_lua | Prog_return_lua

record uprobe =
  up_prog :: lua_prog
  up_retprobe :: bool
  up_path :: string
  up_offset :: u64

definition uprobes :: "string \<Rightarrow> lua_offsets \<Rightarrow> uprobe list" where
  "uprobes lib offs =
     [\<lparr>up_prog = Prog_entry_lua, up_retprobe = False, up_path = lib, up_offset = off_resume offs\<rparr>,
      \<lparr>up_prog = Prog_entry_lua, up_retprobe = False, up_path = lib, up_offset = off_pcall offs\<rparr>,
      \<lparr>up_prog = Prog_return_lua, up_retprobe = True, up_path = lib, up_offset = off_resume offs\<rparr>,
      \<lparr>up_prog = Prog_return_lua, up_retprobe = True, up_path = lib, up_offset = off_pcall offs\<rparr>,
      \<lparr>up_prog = Prog_return_lua, up_retprobe = True, up_path = lib, up_offset = off_yield offs\<rparr>]"

text \<open>What the set-up calls: the loader's environment, libbpf and the kernel.\<close>

record rlimit =
  rlim_cur :: u64
  rlim_max :: u64

definition RLIM_INFINITY :: u64 where "RLIM_INFINITY = - 1"

text \<open>
  \<open>setrlimit\<close> is given by its result; whether the object loads may depend on the memory it may lock and
  does depend on the read-only data it is configured with.
\<close>

record session_env =
  se_loader :: loader_env
  se_memlock :: rlimit
  se_setrlimit :: "rlimit \<Rightarrow> int"
  se_open :: bool
  se_load :: "rlimit \<Rightarrow> config \<Rightarrow> bool"
  se_attach :: "uprobe \<Rightarrow> bool"
  se_cpus :: "nat option"
  se_perf :: "perf_event_open"
  se_attach_perf :: "i32 \<Rightarrow> bool"

datatype setup_error =
    MapsUnreadable
  | FindFailed find_error
  | ResolveFailed resolve_error
  | MemlockFailed
  | OpenFailed
  | LoadFailed
  | AttachFailed uprobe
  | CpusUnknown
  | PerfFailed perf_error
  | PerfAttachFailed i32

record session =
  s_config :: config
  s_unwinder :: "(unwind_module list \<times> nat) option"
  s_probes :: "uprobe list"
  s_samplers :: "i32 list"

definition read_text :: "loader_env \<Rightarrow> string \<Rightarrow> string option" where
  "read_text env path =
     (case le_read env path of
        None \<Rightarrow> None
      | Some bytes \<Rightarrow> if valid_utf8 bytes then Some (str_of bytes) else None)"

text \<open>The limit it leaves, what it reports, and whether it printed a warning.\<close>

definition bump_memlock_rlimit :: "session_env \<Rightarrow> rlimit \<times> (setup_error + unit) \<times> bool" where
  "bump_memlock_rlimit env =
     (let rlim = \<lparr>rlim_cur = RLIM_INFINITY, rlim_max = RLIM_INFINITY\<rparr> in
      if se_setrlimit env rlim < 0 then (se_memlock env, Inr (), True)
      else (rlim, Inr (), False))"

definition memlock_after :: "session_env \<Rightarrow> rlimit" where
  "memlock_after env = fst (bump_memlock_rlimit env)"

fun attach_uprobes :: "session_env \<Rightarrow> uprobe list \<Rightarrow> setup_error + uprobe list" where
  "attach_uprobes env [] = Inr []"
| "attach_uprobes env (p # ps) =
     (if \<not> se_attach env p then Inl (AttachFailed p)
      else case attach_uprobes env ps of Inl e \<Rightarrow> Inl e | Inr links \<Rightarrow> Inr (p # links))"

fun open_samplers :: "session_env \<Rightarrow> args \<Rightarrow> nat list \<Rightarrow> setup_error + i32 list" where
  "open_samplers env a [] = Inr []"
| "open_samplers env a (cpu # cpus) =
     (case open_cpu_clock (se_perf env) (arg_frequency a) (of_nat cpu) (exclude_kernel a) of
        Inl e \<Rightarrow> Inl (PerfFailed e)
      | Inr fd \<Rightarrow>
          if \<not> se_attach_perf env fd then Inl (PerfAttachFailed fd)
          else case open_samplers env a cpus of Inl e \<Rightarrow> Inl e | Inr fds \<Rightarrow> Inr (fd # fds))"

definition start_session :: "session_env \<Rightarrow> args \<Rightarrow> setup_error + session" where
  "start_session env a =
     (case read_text (se_loader env) (maps_path (arg_pid a)) of
        None \<Rightarrow> Inl MapsUnreadable
      | Some maps \<Rightarrow>
     (case find_luajit maps of
        Inl e \<Rightarrow> Inl (FindFailed e)
      | Inr (lib_path, base) \<Rightarrow>
     (case resolve_lua_offsets (le_read (se_loader env)) (le_parse (se_loader env)) lib_path of
        Inl e \<Rightarrow> Inl (ResolveFailed e)
      | Inr offs \<Rightarrow>
          let unwinder = (if include_native_stacks a then new_unwinder (se_loader env) (arg_pid a) else None)
          in
     (case bump_memlock_rlimit env of
        (memlock, Inl e, warned) \<Rightarrow> Inl e
      | (memlock, Inr _, warned) \<Rightarrow>
          if \<not> se_open env then Inl OpenFailed
          else if \<not> se_load env memlock (rodata a) then Inl LoadFailed
          else
     (case attach_uprobes env (uprobes lib_path offs) of
        Inl e \<Rightarrow> Inl e
      | Inr links \<Rightarrow>
     (case se_cpus env of
        None \<Rightarrow> Inl CpusUnknown
      | Some nr_cpus \<Rightarrow>
     (case open_samplers env a [0..<nr_cpus] of
        Inl e \<Rightarrow> Inl e
      | Inr perf_links \<Rightarrow>
          Inr \<lparr>s_config = rodata a, s_unwinder = unwinder, s_probes = links, s_samplers = perf_links\<rparr>)))))))"

section \<open>The poll loop\<close>

text \<open>
  What one round of the loop meets: whether a signal has set \<open>EXITING\<close>, the samples the two polls hand
  to the callbacks, and the nanoseconds since the start after them.
\<close>

record poll_round =
  pr_exiting :: bool
  pr_native :: "u8 list list"
  pr_lua :: "u8 list list"
  pr_elapsed :: nat

definition round_data :: "poll_round \<Rightarrow> delivery list" where
  "round_data r = map NativeData (pr_native r) @ map LuaData (pr_lua r)"

definition time_up :: "u64 \<Rightarrow> poll_round \<Rightarrow> bool" where
  "time_up duration r \<longleftrightarrow> 0 < duration \<and> unat duration * 1000000000 \<le> pr_elapsed r"

partial_function (option) poll_loop ::
    "u64 \<Rightarrow> (nat \<Rightarrow> poll_round) \<Rightarrow> (delivery \<Rightarrow> 'a \<Rightarrow> 'a) \<Rightarrow> nat \<Rightarrow> 'a \<Rightarrow> 'a option" where
  "poll_loop duration rounds handle i st =
     (if pr_exiting (rounds i) then Some st
      else let st = fold handle (round_data (rounds i)) st
           in if time_up duration (rounds i) then Some st
              else poll_loop duration rounds handle (Suc i) st)"

text \<open>The whole of \<open>main\<close> after the set-up, up to the contents of the folded file.\<close>

definition profile ::
    "symbolizer \<Rightarrow> args \<Rightarrow> 'u unwinder option \<Rightarrow> ((sample_key \<rightharpoonup> u64 list) \<Rightarrow> (sample_key \<times> u64 list) list) \<Rightarrow>
     (nat \<Rightarrow> poll_round) \<Rightarrow> 'u \<Rightarrow> (string \<Rightarrow> u64 option) option" where
  "profile symb a unwinder iteration rounds u =
     (case poll_loop (arg_duration a) rounds (deliver unwinder (include_native_stacks a)) 0
             (default_pending, u) of
        None \<Rightarrow> None
      | Some (g, _) \<Rightarrow> Some (finalize symb (include_native_stacks a) (iteration (pd_native g)) g))"

section \<open>The loop's outcome\<close>

definition last_round :: "u64 \<Rightarrow> poll_round \<Rightarrow> bool" where
  "last_round duration r \<longleftrightarrow> pr_exiting r \<or> time_up duration r"

text \<open>The samples handled by the rounds from \<open>i\<close> up to the one that ends the loop.\<close>

definition handled :: "(nat \<Rightarrow> poll_round) \<Rightarrow> nat \<Rightarrow> nat \<Rightarrow> delivery list" where
  "handled rounds i n =
     concat (map (\<lambda>j. round_data (rounds j)) [i..<(if pr_exiting (rounds n) then n else Suc n)])"

lemma handled_Suc:
  "i < n \<Longrightarrow> handled rounds i n = round_data (rounds i) @ handled rounds (Suc i) n"
  by (simp add: handled_def upt_conv_Cons)

lemma poll_loop_returns:
  assumes "last_round d (rounds (i + k))" and "\<And>j. j < k \<Longrightarrow> \<not> last_round d (rounds (i + j))"
  shows "poll_loop d rounds f i st = Some (fold f (handled rounds i (i + k)) st)"
  using assms
proof (induction k arbitrary: i st)
  case 0
  then show ?case
    by (subst poll_loop.simps) (auto simp: last_round_def handled_def Let_def)
next
  case (Suc k)
  from Suc.prems(2) [of 0] have go: "\<not> pr_exiting (rounds i)" "\<not> time_up d (rounds i)"
    by (simp_all add: last_round_def)
  have "\<not> last_round d (rounds (Suc i + j))" if "j < k" for j
    using Suc.prems(2) [of "Suc j"] that by simp
  with Suc.IH [of "Suc i"] Suc.prems(1) go show ?case
    by (subst poll_loop.simps) (simp add: Let_def handled_Suc)
qed

lemma poll_loop_stops:
  assumes "poll_loop d rounds f i st = Some r"
  shows "\<exists>n \<ge> i. last_round d (rounds n)"
  using assms
proof (rule poll_loop.raw_induct [where P = "\<lambda>d rounds f i st r. \<exists>n \<ge> i. last_round d (rounds n)", rotated])
  fix loop and d :: u64 and rounds i and f :: "delivery \<Rightarrow> 'a \<Rightarrow> 'a" and st r
  assume IH: "\<And>d rounds f i st r. loop d rounds f i st = Some r \<Longrightarrow> \<exists>n \<ge> i. last_round d (rounds n)"
    and body: "(if pr_exiting (rounds i) then Some st
      else let st = fold f (round_data (rounds i)) st
           in if time_up d (rounds i) then Some st else loop d rounds f (Suc i) st) = Some r"
  show "\<exists>n \<ge> i. last_round d (rounds n)"
  proof (cases "last_round d (rounds i)")
    case False
    with body have "loop d rounds f (Suc i) (fold f (round_data (rounds i)) st) = Some r"
      by (simp add: last_round_def Let_def)
    from IH [OF this] show ?thesis using Suc_leD by blast
  qed blast
qed

section \<open>Properties\<close>

text \<open>
  The loop returns if and only if it is interrupted or its time is up: then it returns after the
  first such round, having handled exactly the samples of the rounds before the interrupt, or those
  up to the round in which time ran out, in their order. Without either it polls for ever, which is
  what a duration of 0 asks for.
\<close>

theorem poll_loop_liveness:
  "case poll_loop d rounds f 0 st of
     None \<Rightarrow> filter (\<lambda>n. last_round d (rounds n)) [0..<k] = []
   | Some r \<Rightarrow> \<exists>n. last_round d (rounds n) \<and>
       list_all (\<lambda>j. \<not> last_round d (rounds j)) [0..<n] \<and>
       r = fold f (handled rounds 0 n) st"
proof (cases "\<exists>n. last_round d (rounds n)")
  case True
  define n where "n = (LEAST n. last_round d (rounds n))"
  have n: "last_round d (rounds n)" unfolding n_def using True by (rule LeastI_ex)
  have before: "\<not> last_round d (rounds j)" if "j < n" for j
    using not_less_Least [of j "\<lambda>n. last_round d (rounds n)"] that by (simp add: n_def)
  have "poll_loop d rounds f 0 st = Some (fold f (handled rounds 0 n) st)"
    using poll_loop_returns [of d rounds 0 n f st] n before by simp
  with n before show ?thesis by (auto simp: list_all_iff)
next
  case False
  then have "poll_loop d rounds f 0 st = None"
    using poll_loop_stops [of d rounds f 0 st] by (cases "poll_loop d rounds f 0 st") auto
  with False show ?thesis by simp
qed

text \<open>The steps of the set-up that run over a list: all succeed, or the first failure is the result.\<close>

lemma attach_uprobes_iff:
  "attach_uprobes env ps = Inr links \<longleftrightarrow> links = ps \<and> list_all (se_attach env) ps"
proof (induction ps arbitrary: links)
  case (Cons p ps)
  then show ?case by (cases "attach_uprobes env ps") auto
qed auto

lemma open_samplers_iff:
  "open_samplers env a cpus = Inr fds \<longleftrightarrow>
     list_all2 (\<lambda>cpu fd. open_cpu_clock (se_perf env) (arg_frequency a) (of_nat cpu) (exclude_kernel a) =
                  Inr fd \<and> se_attach_perf env fd) cpus fds"
proof (induction cpus arbitrary: fds)
  case (Cons cpu cpus)
  show ?case
  proof (cases fds)
    case Nil
    then show ?thesis by (auto split: sum.splits)
  next
    case (Cons fd fds')
    then show ?thesis
      using Cons.IH [of fds'] by (auto split: sum.splits)
  qed
qed auto

text \<open>Raising the limit never fails the set-up: it leaves either no limit or the one there was.\<close>

lemma bump_memlock_rlimit_eq:
  "\<exists>warned. bump_memlock_rlimit env = (memlock_after env, Inr (), warned) \<and>
     (warned \<longleftrightarrow> se_setrlimit env \<lparr>rlim_cur = RLIM_INFINITY, rlim_max = RLIM_INFINITY\<rparr> < 0) \<and>
     memlock_after env =
       (if warned then se_memlock env else \<lparr>rlim_cur = RLIM_INFINITY, rlim_max = RLIM_INFINITY\<rparr>)"
  by (simp add: memlock_after_def bump_memlock_rlimit_def Let_def)

lemma start_sessionD:
  assumes "start_session env a = Inr s"
  obtains maps lib base offs n where
    "read_text (se_loader env) (maps_path (arg_pid a)) = Some maps" "find_luajit maps = Inr (lib, base)"
    "resolve_lua_offsets (le_read (se_loader env)) (le_parse (se_loader env)) lib = Inr offs"
    "se_open env" "se_load env (memlock_after env) (rodata a)" "s_config s = rodata a"
    "s_unwinder s =
       (if include_native_stacks a then new_unwinder (se_loader env) (arg_pid a) else None)"
    "s_probes s = uprobes lib offs" "list_all (se_attach env) (s_probes s)" "se_cpus env = Some n"
    "list_all2 (\<lambda>cpu fd. open_cpu_clock (se_perf env) (arg_frequency a) (of_nat cpu) (exclude_kernel a) =
                   Inr fd \<and> se_attach_perf env fd) [0..<n] (s_samplers s)"
proof -
  from assms obtain maps lib base offs n where steps:
    "read_text (se_loader env) (maps_path (arg_pid a)) = Some maps" "find_luajit maps = Inr (lib, base)"
    "resolve_lua_offsets (le_read (se_loader env)) (le_parse (se_loader env)) lib = Inr offs"
    "se_open env" "se_load env (memlock_after env) (rodata a)" "se_cpus env = Some n"
    and links: "attach_uprobes env (uprobes lib offs) = Inr (s_probes s)"
    and fds: "open_samplers env a [0..<n] = Inr (s_samplers s)"
    and s: "s_config s = rodata a" "s_unwinder s =
        (if include_native_stacks a then new_unwinder (se_loader env) (arg_pid a) else None)"
    using bump_memlock_rlimit_eq [of env]
    by (auto simp: start_session_def Let_def split: option.splits sum.splits if_splits)
  from links have "s_probes s = uprobes lib offs" "list_all (se_attach env) (s_probes s)"
    by (simp_all only: attach_uprobes_iff)
  with steps s fds [unfolded open_samplers_iff] show ?thesis by (intro that)
qed

text \<open>
  The set-up succeeds exactly when everything it needs does: the target's maps name a LuaJIT library
  with the three entry points, the program loads with the options of the command line, its two
  handlers attach to the library at the entries of \<open>lua_resume\<close> and \<open>lua_pcall\<close> and to the returns of
  all three functions, and every CPU has a sampler, which excludes the kernel whenever native stacks
  are unwound. A missing unwinder is no failure.
\<close>

theorem start_session_iff:
  "start_session env a = Inr s \<longleftrightarrow>
   (\<exists>maps lib base offs n.
      read_text (se_loader env) (maps_path (arg_pid a)) = Some maps \<and>
      find_luajit maps = Inr (lib, base) \<and>
      resolve_lua_offsets (le_read (se_loader env)) (le_parse (se_loader env)) lib = Inr offs \<and>
      se_open env \<and> se_load env (memlock_after env) (rodata a) \<and> s_config s = rodata a \<and>
      s_unwinder s =
        (if include_native_stacks a then new_unwinder (se_loader env) (arg_pid a) else None) \<and>
      s_probes s = uprobes lib offs \<and> list_all (se_attach env) (s_probes s) \<and>
      se_cpus env = Some n \<and>
      list_all2 (\<lambda>cpu fd. open_cpu_clock (se_perf env) (arg_frequency a) (of_nat cpu) (exclude_kernel a) =
                   Inr fd \<and> se_attach_perf env fd) [0..<n] (s_samplers s))"
  (is "?run = ?all")
proof
  assume ?run
  then show ?all by (rule start_sessionD) blast
next
  assume ?all
  then obtain maps lib base offs n where steps:
    "read_text (se_loader env) (maps_path (arg_pid a)) = Some maps" "find_luajit maps = Inr (lib, base)"
    "resolve_lua_offsets (le_read (se_loader env)) (le_parse (se_loader env)) lib = Inr offs"
    "se_open env" "se_load env (memlock_after env) (rodata a)" "se_cpus env = Some n"
    and "s_probes s = uprobes lib offs" "list_all (se_attach env) (s_probes s)"
    and "open_samplers env a [0..<n] = Inr (s_samplers s)"
    and s: "s_config s = rodata a" "s_unwinder s =
        (if include_native_stacks a then new_unwinder (se_loader env) (arg_pid a) else None)"
    unfolding open_samplers_iff by blast
  then have "attach_uprobes env (uprobes lib offs) = Inr (s_probes s)"
    by (simp only: attach_uprobes_iff)
  with steps s \<open>open_samplers env a [0..<n] = Inr (s_samplers s)\<close> show ?run
    using bump_memlock_rlimit_eq [of env] by (cases s) (auto simp: start_session_def)
qed

text \<open>
  \<open>hits page elf w p\<close>: the uprobe \<open>p\<close> is at a text symbol \<open>w\<close> of the library: wherever the kernel maps
  the symbol's executable segment, the probed byte of the file is at the symbol's run-time address.
\<close>

definition hits :: "u64 \<Rightarrow> elf_file \<Rightarrow> string \<Rightarrow> uprobe \<Rightarrow> bool" where
  "hits page elf w p \<longleftrightarrow>
     (\<exists>sym \<in> set (elf_symbols elf @ elf_dynamic_symbols elf).
        sym_is_text sym \<and> sym_name sym = Some (bytes_of w) \<and>
        (\<exists>seg \<in> set (elf_segments elf). (\<exists>fl. seg_flags seg = Some fl \<and> fl AND PF_X \<noteq> 0) \<and>
           (\<forall>m bias. placed page bias seg m \<longrightarrow>
              me_start m + (up_offset p - me_offset m) = bias + sym_address sym)))"

lemma last_offset_hits:
  assumes "last_offset elf (elf_symbols elf @ elf_dynamic_symbols elf) w = Some (up_offset p)"
    and "list_all (congruent page) (elf_segments elf)" and "pages_determine_segments page elf"
  shows "hits page elf w p"
proof -
  obtain sym where "sym \<in> set (named w (elf_symbols elf @ elf_dynamic_symbols elf))"
    and "vaddr_to_file_offset elf (sym_address sym) = Some (up_offset p)"
    using last_offset_SomeD [OF assms(1)] by blast
  with file_offset_hits [OF this(2) assms(2,3)] show ?thesis
    unfolding hits_def named_def set_filter by blast
qed

text \<open>The uprobe's offset is where the file holds the address of a text symbol of that name.\<close>

definition at_symbol :: "elf_file \<Rightarrow> string \<Rightarrow> uprobe \<Rightarrow> bool" where
  "at_symbol elf w p \<longleftrightarrow>
     list_ex (\<lambda>sym. sym_is_text sym \<and> sym_name sym = Some (bytes_of w) \<and>
         vaddr_to_file_offset elf (sym_address sym) = Some (up_offset p))
       (elf_symbols elf @ elf_dynamic_symbols elf)"

lemma last_offset_at_symbol:
  assumes "last_offset elf (elf_symbols elf @ elf_dynamic_symbols elf) w = Some (up_offset p)"
  shows "at_symbol elf w p"
  using last_offset_SomeD [OF assms] by (auto simp: at_symbol_def named_def list_ex_iff)

text \<open>
  C12. The handlers run where they are meant to: after a successful set-up the entry handler is attached
  to the entries of \<open>lua_resume\<close> and \<open>lua_pcall\<close> and the return handler to the returns of these and of
  \<open>lua_yield\<close>, each in the library found in the target's maps, at the file offset of the address of a
  text symbol of that name. If that library's own segments are as ELF requires (offsets congruent to
  addresses) and those that share a page of the file share a page of addresses, every mapping shows
  this byte at the symbol's run-time address.
\<close>

theorem session_probes_hit_functions:
  assumes "start_session env a = Inr s"
  shows "\<exists>maps lib base bytes elf.
    read_text (se_loader env) (maps_path (arg_pid a)) = Some maps \<and> find_luajit maps = Inr (lib, base) \<and>
    le_read (se_loader env) lib = Some bytes \<and> le_parse (se_loader env) bytes = Some elf \<and>
    list_all2 (\<lambda>(prog, ret, w) p.
        up_prog p = prog \<and> up_retprobe p = ret \<and> up_path p = lib \<and> at_symbol elf w p \<and>
        (\<forall>page. list_all (congruent page) (elf_segments elf) \<and> pages_determine_segments page elf \<longrightarrow>
           hits page elf w p))
      [(Prog_entry_lua, False, ''lua_resume''), (Prog_entry_lua, False, ''lua_pcall''),
       (Prog_return_lua, True, ''lua_resume''), (Prog_return_lua, True, ''lua_pcall''),
       (Prog_return_lua, True, ''lua_yield'')] (s_probes s)"
proof -
  from assms obtain maps lib base offs where
    maps: "read_text (se_loader env) (maps_path (arg_pid a)) = Some maps" "find_luajit maps = Inr (lib, base)"
    and offs: "resolve_lua_offsets (le_read (se_loader env)) (le_parse (se_loader env)) lib = Inr offs"
    and probes: "s_probes s = uprobes lib offs"
    by (rule start_sessionD)
  from offs obtain bytes elf where elf: "le_read (se_loader env) lib = Some bytes"
    "le_parse (se_loader env) bytes = Some elf"
    and last: "\<And>w off. (w, off) \<in> {(''lua_resume'', off_resume offs), (''lua_pcall'', off_pcall offs),
                            (''lua_yield'', off_yield offs)} \<Longrightarrow>
           last_offset elf (elf_symbols elf @ elf_dynamic_symbols elf) w = Some off"
    by (rule resolved_library) blast
  have probe: "at_symbol elf w p \<and>
      (\<forall>page. list_all (congruent page) (elf_segments elf) \<and> pages_determine_segments page elf \<longrightarrow>
         hits page elf w p)"
    if "(w, up_offset p) \<in> {(''lua_resume'', off_resume offs),
      (''lua_pcall'', off_pcall offs), (''lua_yield'', off_yield offs)}" for w p
    using last_offset_hits [OF last [OF that]] last_offset_at_symbol [OF last [OF that]] by blast
  have "list_all2 (\<lambda>(prog, ret, w) p.
        up_prog p = prog \<and> up_retprobe p = ret \<and> up_path p = lib \<and> at_symbol elf w p \<and>
        (\<forall>page. list_all (congruent page) (elf_segments elf) \<and> pages_determine_segments page elf \<longrightarrow>
           hits page elf w p))
      [(Prog_entry_lua, False, ''lua_resume''), (Prog_entry_lua, False, ''lua_pcall''),
       (Prog_return_lua, True, ''lua_resume''), (Prog_return_lua, True, ''lua_pcall''),
       (Prog_return_lua, True, ''lua_yield'')] (s_probes s)"
    using probe unfolding probes uprobes_def by (simp only: list_all2_Cons list_all2_Nil) simp
  with maps elf show ?thesis by blast
qed

text \<open>A target whose maps name one LuaJIT library, with the three symbols in its text segment.\<close>

definition probed_maps :: string where
  "probed_maps = unlines [mapping_line (luajit_entry, ''r-xp'', 3)]"

definition probed_elf :: elf_file where
  "probed_elf = example_elf\<lparr>elf_symbols :=
     map2 (\<lambda>w a. \<lparr>sym_is_text = True, sym_name = Some (bytes_of w), sym_address = a\<rparr>)
       want [0x11234, 0x11300, 0x11400]\<rparr>"

definition probed_env :: session_env where
  "probed_env =
     \<lparr>se_loader = \<lparr>le_read = \<lambda>p. Some (if p = ''/proc/3/maps'' then bytes_of probed_maps else []),
        le_parse = \<lambda>b. Some probed_elf, le_sysconf = 4096, le_target = X86_64,
        le_file_order = \<lambda>s. [], le_bias_order = \<lambda>s. []\<rparr>,
      se_memlock = \<lparr>rlim_cur = 65536, rlim_max = 65536\<rparr>, se_setrlimit = \<lambda>l. - 1, se_open = True,
      se_load = \<lambda>l c. True, se_attach = \<lambda>p. True, se_cpus = Some 0,
      se_perf = \<lambda>b p c g f. 0, se_attach_perf = \<lambda>fd. True\<rparr>"

lemma probed_maps_lines:
  "plain_mapping (luajit_entry, ''r-xp'', 3)"
  "find_luajit probed_maps = Inr (''/opt/LuaJIT.so'', 0x7f00)" "valid_utf8 (bytes_of probed_maps)"
proof -
  show plain: "plain_mapping (luajit_entry, ''r-xp'', 3)"
    by (simp add: plain_mapping_def luajit_entry_def example_entry_def path_text_def printable_def)
  have "lines_of probed_maps = [mapping_line (luajit_entry, ''r-xp'', 3)]"
    unfolding probed_maps_def by (intro lines_of_unlines) (simp add: ascii_is_line mapping_line_ascii plain)
  moreover have "names_luajit ''/opt/LuaJIT.so''" by code_simp
  ultimately show "find_luajit probed_maps = Inr (''/opt/LuaJIT.so'', 0x7f00)"
    using find_plain_mapping [OF plain, of "[]"]
    by (simp add: find_luajit_def luajit_entry_def path_text_def del: find_in_lines.simps)
  have "list_all (\<lambda>c. (of_char c :: nat) < 0x80) probed_maps"
    using mapping_line_ascii [OF plain]
    by (auto simp: probed_maps_def ascii_text_def list_all_iff nl_def unlines_def)
  then show "valid_utf8 (bytes_of probed_maps)"
    by (intro valid_ascii) (auto simp: bytes_of_def byte_of_def list_all_iff word_less_nat_alt unat_of_nat_small)
qed

lemma byte_of_eq: "byte_of c = byte_of d \<longleftrightarrow> c = d"
  by (metis char_of_byte_of)

lemma probed_offsets: "resolve_lua_offsets (\<lambda>p. Some (r p)) (\<lambda>b. Some probed_elf) lib =
    Inr \<lparr>off_resume = 0x1234, off_pcall = 0x1300, off_yield = 0x1400\<rparr>"
  by (simp add: resolve_lua_offsets_def probed_elf_def want_def mk_def example_elf_def text_segment_def
      vaddr_to_file_offset_def PF_X_def saturating_add_def byte_of_eq)

lemma probed_session: "\<exists>s. start_session probed_env (default_args 3) = Inr s \<and> s_unwinder s = None"
proof -
  have path: "maps_path 3 = ''/proc/3/maps''" by code_simp
  show ?thesis
    using probed_maps_lines
    by (simp add: start_session_def probed_env_def read_text_def default_args_def path probed_offsets
        include_native_stacks_def uprobes_def bump_memlock_rlimit_def Let_def)
qed

lemma session_probes_hit_functions_witness:
  "\<exists>s. start_session probed_env (default_args 3) = Inr s \<and>
     list_all2 (\<lambda>w p. up_path p = ''/opt/LuaJIT.so'' \<and> at_symbol probed_elf w p \<and> hits 4096 probed_elf w p)
       [''lua_resume'', ''lua_pcall'', ''lua_resume'', ''lua_pcall'', ''lua_yield''] (s_probes s)"
proof -
  have path: "maps_path 3 = ''/proc/3/maps''" by code_simp
  obtain s where s: "start_session probed_env (default_args 3) = Inr s" using probed_session by blast
  have "list_all (congruent 4096) (elf_segments probed_elf)" "pages_determine_segments 4096 probed_elf"
    by (simp_all add: probed_elf_def example_elf_def text_segment_def congruent_def pages_determine_segments_def)
  with session_probes_hit_functions [OF s] s show ?thesis
    using probed_maps_lines(2,3)
    by (auto simp: probed_env_def read_text_def default_args_def path list_all2_Cons1)
qed

end
