(* ===== verification/Skeleton.thy ===== *)
theory Skeleton
  imports CLayout
begin

text \<open>
  The libbpf skeleton of bpf/profile.skel.h: opening, loading, attaching and destroying the BPF object
  through two heap blocks and two arrays. The C heap is a map from addresses to blocks, \<open>calloc\<close> may
  fail at any call, and releasing what is not allocated sets a fault. libbpf's functions are an
  argument.
\<close>

section \<open>Source types\<close>

text \<open>\<open>0\<close> is the null pointer. A pointer to a member of the object is the object and the member's name.\<close>

type_synonym ptr = nat
type_synonym member = "ptr \<times> string"

record bpf_map_skeleton =
  ms_name :: string
  ms_map :: member
  ms_mmaped :: "member option"

record bpf_prog_skeleton =
  ps_name :: string
  ps_prog :: member
  ps_link :: member

record bpf_object_skeleton =
  sk_sz :: nat
  sk_name :: string
  sk_obj :: member
  sk_map_cnt :: nat
  sk_map_skel_sz :: nat
  sk_maps :: ptr
  sk_prog_cnt :: nat
  sk_prog_skel_sz :: nat
  sk_progs :: ptr
  sk_data_sz :: nat
  sk_data :: "u8 list"

record profile_bpf =
  pb_skeleton :: ptr
  pb_obj :: ptr
  pb_maps :: "string \<Rightarrow> ptr"
  pb_progs :: "string \<Rightarrow> ptr"
  pb_links :: "string \<Rightarrow> ptr"
  pb_rodata :: ptr

definition skel_rodata_t :: ctype where
  "skel_rodata_t = CStruct
     [Member ''kernel_stacks_only'' (CInt 1), Member ''user_stacks_only'' (CInt 1),
      Member ''disable_lua_user_trace'' (CInt 1), Member ''include_idle'' (CInt 1),
      Member ''targ_pid'' (CInt 4), Member ''targ_tid'' (CInt 4), Member ''stack_depth_limit'' (CInt 4)]"

datatype block =
    Obj profile_bpf | Skel bpf_object_skeleton
  | MapArr "bpf_map_skeleton list" | ProgArr "bpf_prog_skeleton list"

text \<open>The C state: the heap, the next fresh address, the outcomes of the coming \<open>calloc\<close>s.\<close>

record c_state =
  hp :: "ptr \<Rightarrow> block option"
  brk :: ptr
  allocs :: "nat \<Rightarrow> bool"
  c_errno :: int
  fault :: bool

definition calloc :: "block \<Rightarrow> c_state \<Rightarrow> ptr \<times> c_state" where
  "calloc b st =
     (if allocs st 0
      then (brk st, st\<lparr>hp := (hp st)(brk st \<mapsto> b), brk := Suc (brk st), allocs := \<lambda>i. allocs st (Suc i)\<rparr>)
      else (0, st\<lparr>allocs := \<lambda>i. allocs st (Suc i)\<rparr>))"

definition c_free :: "ptr \<Rightarrow> c_state \<Rightarrow> c_state" where
  "c_free p st =
     (if p = 0 then st
      else if hp st p = None then st\<lparr>fault := True\<rparr> else st\<lparr>hp := (hp st)(p := None)\<rparr>)"

definition upd_obj :: "ptr \<Rightarrow> (profile_bpf \<Rightarrow> profile_bpf) \<Rightarrow> c_state \<Rightarrow> c_state" where
  "upd_obj p f st =
     (case hp st p of
        Some (Obj ob) \<Rightarrow> st\<lparr>hp := (hp st)(p \<mapsto> Obj (f ob))\<rparr> | _ \<Rightarrow> st\<lparr>fault := True\<rparr>)"

definition upd_skel :: "ptr \<Rightarrow> (bpf_object_skeleton \<Rightarrow> bpf_object_skeleton) \<Rightarrow> c_state \<Rightarrow> c_state" where
  "upd_skel p f st =
     (case hp st p of
        Some (Skel k) \<Rightarrow> st\<lparr>hp := (hp st)(p \<mapsto> Skel (f k))\<rparr> | _ \<Rightarrow> st\<lparr>fault := True\<rparr>)"

definition set_maps :: "ptr \<Rightarrow> bpf_map_skeleton list \<Rightarrow> c_state \<Rightarrow> c_state" where
  "set_maps p ms st =
     (case hp st p of
        Some (MapArr _) \<Rightarrow> st\<lparr>hp := (hp st)(p \<mapsto> MapArr ms)\<rparr> | _ \<Rightarrow> st\<lparr>fault := True\<rparr>)"

definition set_progs :: "ptr \<Rightarrow> bpf_prog_skeleton list \<Rightarrow> c_state \<Rightarrow> c_state" where
  "set_progs p ps st =
     (case hp st p of
        Some (ProgArr _) \<Rightarrow> st\<lparr>hp := (hp st)(p \<mapsto> ProgArr ps)\<rparr> | _ \<Rightarrow> st\<lparr>fault := True\<rparr>)"

text \<open>libbpf's part: the sizes of its records, the embedded object file and its functions.\<close>

record 'o libbpf =
  lb_skel_sz :: nat
  lb_map_sz :: nat
  lb_prog_sz :: nat
  lb_data :: "u8 list"
  lb_open :: "ptr \<Rightarrow> 'o option \<Rightarrow> c_state \<Rightarrow> int \<times> c_state"
  lb_load :: "ptr \<Rightarrow> c_state \<Rightarrow> int \<times> c_state"
  lb_attach :: "ptr \<Rightarrow> c_state \<Rightarrow> int \<times> c_state"
  lb_detach :: "ptr \<Rightarrow> c_state \<Rightarrow> c_state"
  lb_destroy :: "ptr \<Rightarrow> c_state \<Rightarrow> c_state"

definition ENOMEM :: int where "ENOMEM = 12"

section \<open>Source functions\<close>

definition zero_obj :: profile_bpf where
  "zero_obj = \<lparr>pb_skeleton = 0, pb_obj = 0, pb_maps = \<lambda>_. 0, pb_progs = \<lambda>_. 0, pb_links = \<lambda>_. 0,
               pb_rodata = 0\<rparr>"

definition zero_skel :: bpf_object_skeleton where
  "zero_skel = \<lparr>sk_sz = 0, sk_name = [], sk_obj = (0, []), sk_map_cnt = 0, sk_map_skel_sz = 0,
     sk_maps = 0, sk_prog_cnt = 0, sk_prog_skel_sz = 0, sk_progs = 0, sk_data_sz = 0, sk_data = []\<rparr>"

definition map_skel :: "ptr \<Rightarrow> string \<Rightarrow> string \<Rightarrow> bpf_map_skeleton" where
  "map_skel obj name field = \<lparr>ms_name = name, ms_map = (obj, field), ms_mmaped = None\<rparr>"

definition map_table :: "ptr \<Rightarrow> bpf_map_skeleton list" where
  "map_table obj =
     [map_skel obj ''stackmap'' ''maps.stackmap'', map_skel obj ''counts'' ''maps.counts'',
      map_skel obj ''lua_events'' ''maps.lua_events'',
      map_skel obj ''lua_event_output'' ''maps.lua_event_output'',
      (map_skel obj ''profile_.rodata'' ''maps.rodata'')\<lparr>ms_mmaped := Some (obj, ''rodata'')\<rparr>]"

definition prog_skel :: "ptr \<Rightarrow> string \<Rightarrow> bpf_prog_skeleton" where
  "prog_skel obj name = \<lparr>ps_name = name, ps_prog = (obj, ''progs.'' @ name), ps_link = (obj, ''links.'' @ name)\<rparr>"

definition prog_table :: "ptr \<Rightarrow> bpf_prog_skeleton list" where
  "prog_table obj =
     [prog_skel obj ''do_perf_event'', prog_skel obj ''handle_entry_lua'',
      prog_skel obj ''handle_entry_lua_cancel'']"

text \<open>
  The three parts of \<open>create_skeleton\<close>: the programs, the maps before them, and the skeleton itself.
  Every failed allocation jumps to the release of what there is.
\<close>

definition skeleton_progs :: "'o libbpf \<Rightarrow> ptr \<Rightarrow> ptr \<Rightarrow> c_state \<Rightarrow> int \<times> c_state" where
  "skeleton_progs lb obj s st =
     (let st = upd_skel s (\<lambda>k. k\<lparr>sk_prog_cnt := 3, sk_prog_skel_sz := lb_prog_sz lb\<rparr>) st;
          (p, st) = calloc (ProgArr []) st;
          st = upd_skel s (\<lambda>k. k\<lparr>sk_progs := p\<rparr>) st
      in if p = 0 then (- ENOMEM, lb_destroy lb s st)
         else
           let st = set_progs p (prog_table obj) st;
               st = upd_skel s (\<lambda>k. k\<lparr>sk_data_sz := 42264, sk_data := lb_data lb\<rparr>) st
           in (0, upd_obj obj (\<lambda>ob. ob\<lparr>pb_skeleton := s\<rparr>) st))"

definition skeleton_maps :: "'o libbpf \<Rightarrow> ptr \<Rightarrow> ptr \<Rightarrow> c_state \<Rightarrow> int \<times> c_state" where
  "skeleton_maps lb obj s st =
     (let st = upd_skel s (\<lambda>k. k\<lparr>sk_map_cnt := 5, sk_map_skel_sz := lb_map_sz lb\<rparr>) st;
          (m, st) = calloc (MapArr []) st;
          st = upd_skel s (\<lambda>k. k\<lparr>sk_maps := m\<rparr>) st
      in if m = 0 then (- ENOMEM, lb_destroy lb s st)
         else skeleton_progs lb obj s (set_maps m (map_table obj) st))"

definition create_skeleton :: "'o libbpf \<Rightarrow> ptr \<Rightarrow> c_state \<Rightarrow> int \<times> c_state" where
  "create_skeleton lb obj st =
     (let (s, st) = calloc (Skel zero_skel) st in
      if s = 0 then (- ENOMEM, lb_destroy lb s st)
      else skeleton_maps lb obj s
             (upd_skel s (\<lambda>k. k\<lparr>sk_sz := lb_skel_sz lb, sk_name := ''profile_bpf'',
                sk_obj := (obj, ''obj'')\<rparr>) st))"

text \<open>The skeleton of an object, for the functions that pass it on.\<close>

definition skeleton_of :: "ptr \<Rightarrow> c_state \<Rightarrow> ptr option" where
  "skeleton_of obj st = (case hp st obj of Some (Obj ob) \<Rightarrow> Some (pb_skeleton ob) | _ \<Rightarrow> None)"

definition profile_bpf__destroy :: "'o libbpf \<Rightarrow> ptr \<Rightarrow> c_state \<Rightarrow> c_state" where
  "profile_bpf__destroy lb obj st =
     (if obj = 0 then st
      else case skeleton_of obj st of
             None \<Rightarrow> st\<lparr>fault := True\<rparr>
           | Some s \<Rightarrow> c_free obj (if s \<noteq> 0 then lb_destroy lb s st else st))"

definition profile_bpf__open_opts :: "'o libbpf \<Rightarrow> 'o option \<Rightarrow> c_state \<Rightarrow> ptr \<times> c_state" where
  "profile_bpf__open_opts lb opts st =
     (let (obj, st) = calloc (Obj zero_obj) st in
      if obj = 0 then (0, st\<lparr>c_errno := ENOMEM\<rparr>)
      else
        let (err, st) = create_skeleton lb obj st;
            (err, st) = (if err \<noteq> 0 then (err, st)
                         else case skeleton_of obj st of
                                None \<Rightarrow> (err, st\<lparr>fault := True\<rparr>)
                              | Some s \<Rightarrow> lb_open lb s opts st)
        in if err \<noteq> 0 then (0, (profile_bpf__destroy lb obj st)\<lparr>c_errno := - err\<rparr>) else (obj, st))"

definition profile_bpf__open :: "'o libbpf \<Rightarrow> c_state \<Rightarrow> ptr \<times> c_state" where
  "profile_bpf__open lb = profile_bpf__open_opts lb None"

definition profile_bpf__load :: "'o libbpf \<Rightarrow> ptr \<Rightarrow> c_state \<Rightarrow> int \<times> c_state" where
  "profile_bpf__load lb obj st =
     (case skeleton_of obj st of None \<Rightarrow> (0, st\<lparr>fault := True\<rparr>) | Some s \<Rightarrow> lb_load lb s st)"

definition profile_bpf__open_and_load :: "'o libbpf \<Rightarrow> c_state \<Rightarrow> ptr \<times> c_state" where
  "profile_bpf__open_and_load lb st =
     (let (obj, st) = profile_bpf__open lb st in
      if obj = 0 then (0, st)
      else let (err, st) = profile_bpf__load lb obj st
           in if err \<noteq> 0 then (0, (profile_bpf__destroy lb obj st)\<lparr>c_errno := - err\<rparr>) else (obj, st))"

definition profile_bpf__attach :: "'o libbpf \<Rightarrow> ptr \<Rightarrow> c_state \<Rightarrow> int \<times> c_state" where
  "profile_bpf__attach lb obj st =
     (case skeleton_of obj st of None \<Rightarrow> (0, st\<lparr>fault := True\<rparr>) | Some s \<Rightarrow> lb_attach lb s st)"

definition profile_bpf__detach :: "'o libbpf \<Rightarrow> ptr \<Rightarrow> c_state \<Rightarrow> c_state" where
  "profile_bpf__detach lb obj st =
     (case skeleton_of obj st of None \<Rightarrow> st\<lparr>fault := True\<rparr> | Some s \<Rightarrow> lb_detach lb s st)"

section \<open>The shape of the heap\<close>

text \<open>Which blocks are allocated, and the pointers that say who releases them.\<close>

datatype shape = ObjS ptr | SkelS ptr ptr | MapS | ProgS

fun shape_of :: "block \<Rightarrow> shape" where
  "shape_of (Obj ob) = ObjS (pb_skeleton ob)"
| "shape_of (Skel k) = SkelS (sk_maps k) (sk_progs k)"
| "shape_of (MapArr _) = MapS"
| "shape_of (ProgArr _) = ProgS"

definition shapes :: "c_state \<Rightarrow> ptr \<Rightarrow> shape option" where
  "shapes st a = map_option shape_of (hp st a)"

definition heap_ok :: "c_state \<Rightarrow> bool" where
  "heap_ok st \<longleftrightarrow> 0 < brk st \<and> shapes st 0 = None \<and> (\<forall>a \<ge> brk st. shapes st a = None) \<and> \<not> fault st"

text \<open>A step that changes no shape, and one that gives the heap a new one.\<close>

definition to_shapes :: "c_state \<Rightarrow> c_state \<Rightarrow> (ptr \<Rightarrow> shape option) \<Rightarrow> bool" where
  "to_shapes st st' h \<longleftrightarrow> shapes st' = h \<and> brk st' = brk st \<and> fault st' = fault st"

text \<open>
  What libbpf documents: destroying a skeleton releases it with its two arrays and accepts a null
  pointer; the other functions change only the contents of the blocks they are given.
\<close>

definition libbpf_law :: "'o libbpf \<Rightarrow> bool" where
  "libbpf_law lb \<longleftrightarrow>
     (\<forall>st. lb_destroy lb 0 st = st) \<and>
     (\<forall>st s m p. shapes st s = Some (SkelS m p) \<and> (m = 0 \<or> shapes st m = Some MapS) \<and>
        (p = 0 \<or> shapes st p = Some ProgS) \<and> shapes st 0 = None \<longrightarrow>
        to_shapes st (lb_destroy lb s st) ((shapes st)(s := None, m := None, p := None))) \<and>
     (\<forall>st s m p opts. shapes st s = Some (SkelS m p) \<longrightarrow>
        to_shapes st (snd (lb_open lb s opts st)) (shapes st) \<and>
        to_shapes st (snd (lb_load lb s st)) (shapes st) \<and>
        to_shapes st (snd (lb_attach lb s st)) (shapes st) \<and>
        to_shapes st (lb_detach lb s st) (shapes st))"

lemma to_shapes_trans:
  "to_shapes st st1 h \<Longrightarrow> to_shapes st1 st2 h' \<Longrightarrow> to_shapes st st2 h'"
  by (simp add: to_shapes_def)

lemma shapes_upd: "shapes (st\<lparr>hp := (hp st)(p \<mapsto> b)\<rparr>) = (shapes st)(p \<mapsto> shape_of b)"
  by (auto simp: shapes_def fun_eq_iff)

lemma calloc_shapes:
  assumes "heap_ok st" and "calloc b st = (p, st')"
  shows "heap_ok st'" and "p = 0 \<Longrightarrow> shapes st' = shapes st"
    and "p \<noteq> 0 \<Longrightarrow> shapes st p = None \<and> shapes st' = (shapes st)(p \<mapsto> shape_of b)"
  using assms
  by (auto simp: calloc_def heap_ok_def shapes_def fun_eq_iff split: if_splits)

lemma shape_of_iff:
  "shape_of b = SkelS m q \<longleftrightarrow> (\<exists>k. b = Skel k \<and> sk_maps k = m \<and> sk_progs k = q)"
  "shape_of b = ObjS s \<longleftrightarrow> (\<exists>ob. b = Obj ob \<and> pb_skeleton ob = s)"
  "shape_of b = MapS \<longleftrightarrow> (\<exists>ms. b = MapArr ms)"
  "shape_of b = ProgS \<longleftrightarrow> (\<exists>ps. b = ProgArr ps)"
  by (cases b; simp)+

lemma shapes_Some_block:
  "shapes st p = Some (SkelS m q) \<longleftrightarrow> (\<exists>k. hp st p = Some (Skel k) \<and> sk_maps k = m \<and> sk_progs k = q)"
  "shapes st p = Some (ObjS s) \<longleftrightarrow> (\<exists>ob. hp st p = Some (Obj ob) \<and> pb_skeleton ob = s)"
  "shapes st p = Some MapS \<longleftrightarrow> (\<exists>ms. hp st p = Some (MapArr ms))"
  "shapes st p = Some ProgS \<longleftrightarrow> (\<exists>ps. hp st p = Some (ProgArr ps))"
  by (auto simp: shapes_def shape_of_iff)

lemma upd_skel_shapes:
  assumes "shapes st p = Some (SkelS m q)"
    and "\<And>k. sk_maps k = m \<Longrightarrow> sk_progs k = q \<Longrightarrow> sk_maps (f k) = m' \<and> sk_progs (f k) = q'"
  shows "to_shapes st (upd_skel p f st) ((shapes st)(p \<mapsto> SkelS m' q'))"
  using assms by (auto simp: shapes_Some_block upd_skel_def to_shapes_def shapes_upd)

lemma upd_obj_shapes:
  assumes "shapes st p = Some (ObjS s)" and "\<And>ob. pb_skeleton (f ob) = s'"
  shows "to_shapes st (upd_obj p f st) ((shapes st)(p \<mapsto> ObjS s'))"
  using assms by (auto simp: shapes_Some_block upd_obj_def to_shapes_def shapes_upd)

lemma set_table_shapes:
  "shapes st p = Some MapS \<Longrightarrow> to_shapes st (set_maps p ms st) (shapes st)"
  "shapes st p = Some ProgS \<Longrightarrow> to_shapes st (set_progs p ps st) (shapes st)"
  by (auto simp: shapes_Some_block set_maps_def set_progs_def to_shapes_def shapes_upd)
     (auto simp: shapes_def fun_eq_iff)

lemma c_free_shapes:
  "shapes st p = Some sh \<Longrightarrow> p \<noteq> 0 \<Longrightarrow> to_shapes st (c_free p st) ((shapes st)(p := None))"
  by (auto simp: c_free_def to_shapes_def shapes_def fun_eq_iff)

lemma skeleton_of_shapes: "shapes st p = Some (ObjS s) \<Longrightarrow> skeleton_of p st = Some s"
  by (auto simp: shapes_Some_block skeleton_of_def)

lemma heap_ok_to_shapes:
  "heap_ok st \<Longrightarrow> to_shapes st st' h \<Longrightarrow> (\<And>a. shapes st a = None \<Longrightarrow> h a = None) \<Longrightarrow> heap_ok st'"
  by (simp add: heap_ok_def to_shapes_def)

text \<open>Destroying a half-built skeleton releases what it has.\<close>

lemma destroy_releases:
  assumes "libbpf_law lb" and "heap_ok st" and "shapes st s = Some (SkelS m p)"
    and "m = 0 \<or> shapes st m = Some MapS" and "p = 0 \<or> shapes st p = Some ProgS"
  shows "heap_ok (lb_destroy lb s st)"
    and "shapes (lb_destroy lb s st) = (shapes st)(s := None, m := None, p := None)"
proof -
  have d: "to_shapes st (lb_destroy lb s st) ((shapes st)(s := None, m := None, p := None))"
    using assms by (simp add: libbpf_law_def heap_ok_def)
  then show "shapes (lb_destroy lb s st) = (shapes st)(s := None, m := None, p := None)"
    by (simp add: to_shapes_def)
  show "heap_ok (lb_destroy lb s st)"
    by (rule heap_ok_to_shapes [OF assms(2) d]) simp
qed

lemma upd_skel_keeps:
  assumes "heap_ok st" and "shapes st s = Some (SkelS m p)"
    and "\<And>k. sk_maps (f k) = sk_maps k \<and> sk_progs (f k) = sk_progs k"
  shows "heap_ok (upd_skel s f st)" and "shapes (upd_skel s f st) = shapes st"
proof -
  have u: "to_shapes st (upd_skel s f st) (shapes st)"
    using upd_skel_shapes [OF assms(2), of f m p] assms(2,3) by (simp add: fun_upd_idem)
  then show "shapes (upd_skel s f st) = shapes st" by (simp add: to_shapes_def)
  show "heap_ok (upd_skel s f st)" by (rule heap_ok_to_shapes [OF assms(1) u])
qed

lemma upd_skel_sets:
  assumes "heap_ok st" and "shapes st s = Some (SkelS m p)"
    and "\<And>k. sk_maps k = m \<Longrightarrow> sk_progs k = p \<Longrightarrow> sk_maps (f k) = m' \<and> sk_progs (f k) = p'"
  shows "heap_ok (upd_skel s f st)" and "shapes (upd_skel s f st) = (shapes st)(s \<mapsto> SkelS m' p')"
proof -
  note u = upd_skel_shapes [OF assms(2,3)]
  then show "shapes (upd_skel s f st) = (shapes st)(s \<mapsto> SkelS m' p')" by (simp add: to_shapes_def)
  show "heap_ok (upd_skel s f st)"
    by (rule heap_ok_to_shapes [OF assms(1) u]) (use assms(2) in auto)
qed

text \<open>
  Each part either releases the skeleton and what it holds, or leaves it complete and referenced by
  the object.
\<close>

lemma skeleton_progs_shapes:
  assumes law: "libbpf_law lb" and ok: "heap_ok st" and s: "shapes st s = Some (SkelS m 0)"
    and m: "shapes st m = Some MapS" and obj: "shapes st obj = Some (ObjS 0)"
    and run: "skeleton_progs lb obj s st = (r, st')"
  shows "heap_ok st' \<and>
    (r = - ENOMEM \<and> shapes st' = (shapes st)(s := None, m := None) \<or>
     r = 0 \<and> (\<exists>p. p \<noteq> 0 \<and> shapes st p = None \<and>
       shapes st' = (shapes st)(s \<mapsto> SkelS m p, p \<mapsto> ProgS, obj \<mapsto> ObjS s)))"
proof -
  let ?f = "\<lambda>k. k\<lparr>sk_prog_cnt := 3, sk_prog_skel_sz := lb_prog_sz lb\<rparr>"
  let ?d = "\<lambda>k. k\<lparr>sk_data_sz := 42264, sk_data := lb_data lb\<rparr>"
  have a: "heap_ok (upd_skel s ?f st)" "shapes (upd_skel s ?f st) = shapes st"
    by (rule upd_skel_keeps [OF ok s]; simp)+
  obtain p b where c: "calloc (ProgArr []) (upd_skel s ?f st) = (p, b)" by force
  note k = calloc_shapes [OF a(1) c]
  have zero: "shapes st 0 = None" using ok by (simp add: heap_ok_def)
  have bs: "shapes b s = Some (SkelS m 0)" using k a s by (cases "p = 0") auto
  let ?b = "upd_skel s (\<lambda>k. k\<lparr>sk_progs := p\<rparr>) b"
  have b: "heap_ok ?b" "shapes ?b = (shapes b)(s \<mapsto> SkelS m p)"
    by (rule upd_skel_sets [OF k(1) bs]; simp)+
  show ?thesis
  proof (cases "p = 0")
    case True
    then have sh: "shapes ?b = (shapes st)(s \<mapsto> SkelS m 0)" using b(2) k(2) a(2) by simp
    then have "shapes ?b m = Some MapS" using s m by auto
    from destroy_releases [OF law b(1), of s m p] this sh zero True run c show ?thesis
      by (auto simp: skeleton_progs_def Let_def fun_eq_iff)
  next
    case False
    let ?e = "set_progs p (prog_table obj) ?b"
    have sh: "shapes ?b = (shapes st)(p \<mapsto> ProgS, s \<mapsto> SkelS m p)" and p: "shapes st p = None"
      using b(2) k(3) a(2) False by simp_all
    have "p \<noteq> s" using p s by auto
    then have "to_shapes ?b ?e (shapes ?b)" using sh by (intro set_table_shapes) simp
    then have e: "heap_ok ?e" "shapes ?e = shapes ?b"
      using heap_ok_to_shapes [OF b(1)] by (simp_all add: to_shapes_def)
    have es: "shapes ?e s = Some (SkelS m p)" using e sh by simp
    let ?g = "upd_skel s ?d ?e"
    have g: "heap_ok ?g" "shapes ?g = shapes ?b"
      using upd_skel_keeps [OF e(1) es, of ?d] e(2) by simp_all
    have "obj \<noteq> s" "obj \<noteq> p" using obj s p by auto
    then have "shapes ?g obj = Some (ObjS 0)" using g(2) sh obj by simp
    from upd_obj_shapes [OF this, of "\<lambda>ob. ob\<lparr>pb_skeleton := s\<rparr>" s]
    have h: "to_shapes ?g (upd_obj obj (\<lambda>ob. ob\<lparr>pb_skeleton := s\<rparr>) ?g) ((shapes ?b)(obj \<mapsto> ObjS s))"
      using g(2) by simp
    have "heap_ok (upd_obj obj (\<lambda>ob. ob\<lparr>pb_skeleton := s\<rparr>) ?g)"
      by (rule heap_ok_to_shapes [OF g(1) h]) (use g sh obj \<open>obj \<noteq> s\<close> \<open>obj \<noteq> p\<close> in auto)
    moreover have "st' = upd_obj obj (\<lambda>ob. ob\<lparr>pb_skeleton := s\<rparr>) ?g" "r = 0"
      using run c False by (simp_all add: skeleton_progs_def Let_def)
    ultimately show ?thesis
      using h sh p False \<open>p \<noteq> s\<close> \<open>obj \<noteq> s\<close> \<open>obj \<noteq> p\<close>
      by (auto simp: to_shapes_def fun_upd_twist)
  qed
qed

lemma skeleton_maps_shapes:
  assumes law: "libbpf_law lb" and ok: "heap_ok st" and s: "shapes st s = Some (SkelS 0 0)"
    and obj: "shapes st obj = Some (ObjS 0)" and run: "skeleton_maps lb obj s st = (r, st')"
  shows "heap_ok st' \<and>
    (r = - ENOMEM \<and> shapes st' = (shapes st)(s := None) \<or>
     r = 0 \<and> (\<exists>m p. distinct [0, m, p] \<and> shapes st m = None \<and> shapes st p = None \<and>
       shapes st' = (shapes st)(s \<mapsto> SkelS m p, m \<mapsto> MapS, p \<mapsto> ProgS, obj \<mapsto> ObjS s)))"
proof -
  let ?f = "\<lambda>k. k\<lparr>sk_map_cnt := 5, sk_map_skel_sz := lb_map_sz lb\<rparr>"
  have a: "heap_ok (upd_skel s ?f st)" "shapes (upd_skel s ?f st) = shapes st"
    by (rule upd_skel_keeps [OF ok s]; simp)+
  obtain m b where c: "calloc (MapArr []) (upd_skel s ?f st) = (m, b)" by force
  note k = calloc_shapes [OF a(1) c]
  have zero: "shapes st 0 = None" using ok by (simp add: heap_ok_def)
  have bs: "shapes b s = Some (SkelS 0 0)" using k a s by (cases "m = 0") auto
  let ?b = "upd_skel s (\<lambda>k. k\<lparr>sk_maps := m\<rparr>) b"
  have b: "heap_ok ?b" "shapes ?b = (shapes b)(s \<mapsto> SkelS m 0)"
    by (rule upd_skel_sets [OF k(1) bs]; simp)+
  show ?thesis
  proof (cases "m = 0")
    case True
    then have "shapes ?b = (shapes st)(s \<mapsto> SkelS 0 0)" using b(2) k(2) a(2) by simp
    with destroy_releases [OF law b(1), of s 0 0] zero True run c show ?thesis
      by (auto simp: skeleton_maps_def Let_def fun_eq_iff)
  next
    case False
    let ?e = "set_maps m (map_table obj) ?b"
    have sh: "shapes ?b = (shapes st)(m \<mapsto> MapS, s \<mapsto> SkelS m 0)" and m: "shapes st m = None"
      using b(2) k(3) a(2) False by simp_all
    have ne: "m \<noteq> s" "m \<noteq> obj" "obj \<noteq> s" using m s obj by auto
    then have "to_shapes ?b ?e (shapes ?b)" using sh by (intro set_table_shapes) simp
    then have e: "heap_ok ?e" "shapes ?e = shapes ?b"
      using heap_ok_to_shapes [OF b(1)] by (simp_all add: to_shapes_def)
    have run': "skeleton_progs lb obj s ?e = (r, st')"
      using run c False by (simp add: skeleton_maps_def Let_def)
    from skeleton_progs_shapes [OF law e(1) _ _ _ run'] e(2) sh ne obj
    have P: "heap_ok st' \<and> (r = - ENOMEM \<and> shapes st' = (shapes ?e)(s := None, m := None) \<or>
      r = 0 \<and> (\<exists>p. p \<noteq> 0 \<and> shapes ?e p = None \<and>
        shapes st' = (shapes ?e)(s \<mapsto> SkelS m p, p \<mapsto> ProgS, obj \<mapsto> ObjS s)))"
      by simp
    then show ?thesis
    proof (elim conjE disjE exE)
      assume "r = - ENOMEM" "shapes st' = (shapes ?e)(s := None, m := None)"
      with P e(2) sh m show ?thesis by (auto simp: fun_eq_iff)
    next
      fix p assume r: "r = 0" and p: "p \<noteq> 0" "shapes ?e p = None"
        and sh': "shapes st' = (shapes ?e)(s \<mapsto> SkelS m p, p \<mapsto> ProgS, obj \<mapsto> ObjS s)"
      from p(2) e(2) sh have "shapes st p = None" "p \<noteq> m" "p \<noteq> s" by (auto split: if_splits)
      moreover from this sh' e(2) sh ne
      have "shapes st' = (shapes st)(s \<mapsto> SkelS m p, m \<mapsto> MapS, p \<mapsto> ProgS, obj \<mapsto> ObjS s)"
        by (auto simp: fun_eq_iff)
      ultimately show ?thesis using P r p(1) False m by auto
    qed
  qed
qed

definition built :: "(ptr \<Rightarrow> shape option) \<Rightarrow> ptr \<Rightarrow> (ptr \<Rightarrow> shape option) \<Rightarrow> bool" where
  "built h obj h' \<longleftrightarrow>
     (\<exists>s m p. distinct [0, s, m, p] \<and> h s = None \<and> h m = None \<and> h p = None \<and>
        h' = h(s \<mapsto> SkelS m p, m \<mapsto> MapS, p \<mapsto> ProgS, obj \<mapsto> ObjS s))"

lemma create_skeleton_shapes:
  assumes law: "libbpf_law lb" and ok: "heap_ok st" and obj: "shapes st obj = Some (ObjS 0)"
    and run: "create_skeleton lb obj st = (r, st')"
  shows "heap_ok st' \<and>
    (r = - ENOMEM \<and> shapes st' = shapes st \<or>
     r = 0 \<and> built (shapes st) obj (shapes st'))"
proof -
  obtain s a where c: "calloc (Skel zero_skel) st = (s, a)" by force
  note k = calloc_shapes [OF ok c]
  show ?thesis
  proof (cases "s = 0")
    case True
    with run c k law show ?thesis by (simp add: create_skeleton_def Let_def libbpf_law_def)
  next
    case False
    let ?f = "\<lambda>k. k\<lparr>sk_sz := lb_skel_sz lb, sk_name := ''profile_bpf'', sk_obj := (obj, ''obj'')\<rparr>"
    have sh: "shapes a = (shapes st)(s \<mapsto> SkelS 0 0)" and s: "shapes st s = None"
      using k(3) False by (simp_all add: zero_skel_def)
    then have as: "shapes a s = Some (SkelS 0 0)" by simp
    have b: "heap_ok (upd_skel s ?f a)" "shapes (upd_skel s ?f a) = shapes a"
      by (rule upd_skel_keeps [OF k(1) as]; simp)+
    have run': "skeleton_maps lb obj s (upd_skel s ?f a) = (r, st')"
      using run c False by (simp add: create_skeleton_def Let_def)
    have "obj \<noteq> s" using obj s by auto
    with skeleton_maps_shapes [OF law b(1) _ _ run'] b(2) sh obj
    have P: "heap_ok st' \<and> (r = - ENOMEM \<and> shapes st' = (shapes a)(s := None) \<or>
      r = 0 \<and> (\<exists>m p. distinct [0, m, p] \<and> shapes a m = None \<and> shapes a p = None \<and>
        shapes st' = (shapes a)(s \<mapsto> SkelS m p, m \<mapsto> MapS, p \<mapsto> ProgS, obj \<mapsto> ObjS s)))"
      by simp
    then show ?thesis
    proof (elim conjE disjE exE)
      assume "r = - ENOMEM" "shapes st' = (shapes a)(s := None)"
      with P sh s show ?thesis by (auto simp: fun_eq_iff)
    next
      fix m p assume r: "r = 0" and mp: "distinct [0, m, p]" "shapes a m = None" "shapes a p = None"
        and sh': "shapes st' = (shapes a)(s \<mapsto> SkelS m p, m \<mapsto> MapS, p \<mapsto> ProgS, obj \<mapsto> ObjS s)"
      from mp(2,3) sh have "shapes st m = None" "shapes st p = None" "m \<noteq> s" "p \<noteq> s"
        by (auto split: if_splits)
      moreover have "distinct [0, s, m, p]" using mp(1) False \<open>m \<noteq> s\<close> \<open>p \<noteq> s\<close> by auto
      moreover have "shapes st' = (shapes st)(s \<mapsto> SkelS m p, m \<mapsto> MapS, p \<mapsto> ProgS, obj \<mapsto> ObjS s)"
        using sh' sh by simp
      ultimately show ?thesis using P r s unfolding built_def by blast
    qed
  qed
qed

text \<open>An object in use, and its destruction.\<close>

definition live_object :: "(ptr \<Rightarrow> shape option) \<Rightarrow> ptr \<Rightarrow> (ptr \<Rightarrow> shape option) \<Rightarrow> bool" where
  "live_object h obj h' \<longleftrightarrow> obj \<noteq> 0 \<and> h obj = None \<and> built (h(obj \<mapsto> ObjS 0)) obj h'"

lemma destroy_object:
  assumes law: "libbpf_law lb" and ok: "heap_ok st" and live: "live_object h obj (shapes st)"
  shows "heap_ok (profile_bpf__destroy lb obj st) \<and> shapes (profile_bpf__destroy lb obj st) = h"
proof -
  from live obtain s m p where d: "distinct [0, s, m, p]" and obj: "obj \<noteq> 0" "h obj = None"
    and new: "(h(obj \<mapsto> ObjS 0)) s = None" "(h(obj \<mapsto> ObjS 0)) m = None" "(h(obj \<mapsto> ObjS 0)) p = None"
    and sh: "shapes st = h(obj \<mapsto> ObjS 0, s \<mapsto> SkelS m p, m \<mapsto> MapS, p \<mapsto> ProgS, obj \<mapsto> ObjS s)"
    by (auto simp: live_object_def built_def)
  from new have ne: "s \<noteq> obj" "m \<noteq> obj" "p \<noteq> obj" and h: "h s = None" "h m = None" "h p = None"
    by (auto split: if_splits)
  have at: "shapes st s = Some (SkelS m p)" "shapes st m = Some MapS" "shapes st p = Some ProgS"
    "shapes st obj = Some (ObjS s)"
    using d ne by (auto simp: sh)
  let ?d = "lb_destroy lb s st"
  have r: "heap_ok ?d" "shapes ?d = (shapes st)(s := None, m := None, p := None)"
    using destroy_releases [OF law ok at(1)] at by simp_all
  then have "shapes ?d obj = Some (ObjS s)" using at ne by simp
  from c_free_shapes [OF this obj(1)] have f: "to_shapes ?d (c_free obj ?d) ((shapes ?d)(obj := None))" .
  have "heap_ok (c_free obj ?d)" by (rule heap_ok_to_shapes [OF r(1) f]) simp
  moreover have "profile_bpf__destroy lb obj st = c_free obj ?d"
    using skeleton_of_shapes [OF at(4)] obj(1) d by (simp add: profile_bpf__destroy_def)
  moreover have "(shapes ?d)(obj := None) = h"
    unfolding r(2) sh using h obj(2) by (auto simp: fun_eq_iff)
  ultimately show ?thesis using f by (simp add: to_shapes_def)
qed

text \<open>What libbpf does to the object in between keeps it live.\<close>

lemma live_skeleton:
  assumes "live_object h obj (shapes st)"
  obtains s m p where "skeleton_of obj st = Some s" and "shapes st s = Some (SkelS m p)"
proof -
  from assms obtain s m p where d: "distinct [0, s, m, p]"
    and new: "(h(obj \<mapsto> ObjS 0)) s = None" "(h(obj \<mapsto> ObjS 0)) m = None" "(h(obj \<mapsto> ObjS 0)) p = None"
    and sh: "shapes st = h(obj \<mapsto> ObjS 0, s \<mapsto> SkelS m p, m \<mapsto> MapS, p \<mapsto> ProgS, obj \<mapsto> ObjS s)"
    by (auto simp: live_object_def built_def)
  from new have "s \<noteq> obj" by (auto split: if_splits)
  then have "shapes st s = Some (SkelS m p)" "shapes st obj = Some (ObjS s)" using d by (auto simp: sh)
  with that skeleton_of_shapes show ?thesis by blast
qed

lemma libbpf_keeps:
  assumes "libbpf_law lb" and "heap_ok st" and "shapes st s = Some (SkelS m p)"
  shows "heap_ok (snd (lb_open lb s opts st)) \<and> shapes (snd (lb_open lb s opts st)) = shapes st"
    and "heap_ok (snd (lb_load lb s st)) \<and> shapes (snd (lb_load lb s st)) = shapes st"
    and "heap_ok (snd (lb_attach lb s st)) \<and> shapes (snd (lb_attach lb s st)) = shapes st"
    and "heap_ok (lb_detach lb s st) \<and> shapes (lb_detach lb s st) = shapes st"
proof -
  have "to_shapes st (snd (lb_open lb s opts st)) (shapes st)" "to_shapes st (snd (lb_load lb s st)) (shapes st)"
    "to_shapes st (snd (lb_attach lb s st)) (shapes st)" "to_shapes st (lb_detach lb s st) (shapes st)"
    using assms(1,3) by (simp_all add: libbpf_law_def)
  then show "heap_ok (snd (lb_open lb s opts st)) \<and> shapes (snd (lb_open lb s opts st)) = shapes st"
    "heap_ok (snd (lb_load lb s st)) \<and> shapes (snd (lb_load lb s st)) = shapes st"
    "heap_ok (snd (lb_attach lb s st)) \<and> shapes (snd (lb_attach lb s st)) = shapes st"
    "heap_ok (lb_detach lb s st) \<and> shapes (lb_detach lb s st) = shapes st"
    using heap_ok_to_shapes [OF assms(2)] by (simp_all add: to_shapes_def)
qed

lemma errno_irrelevant [simp]:
  "heap_ok (st\<lparr>c_errno := e\<rparr>) = heap_ok st" "shapes (st\<lparr>c_errno := e\<rparr>) = shapes st"
  by (simp_all add: heap_ok_def shapes_def fun_eq_iff)

lemma open_opts_shapes:
  assumes law: "libbpf_law lb" and ok: "heap_ok st" and run: "profile_bpf__open_opts lb opts st = (obj, st')"
  shows "heap_ok st' \<and>
    (if obj = 0 then shapes st' = shapes st else live_object (shapes st) obj (shapes st'))"
proof -
  obtain ob a where c: "calloc (Obj zero_obj) st = (ob, a)" by force
  note k = calloc_shapes [OF ok c]
  show ?thesis
  proof (cases "ob = 0")
    case True
    with run c have "obj = 0" "st' = a\<lparr>c_errno := ENOMEM\<rparr>"
      by (simp_all add: profile_bpf__open_opts_def)
    with k True show ?thesis by simp
  next
    case False
    then have new: "shapes st ob = None" and sh: "shapes a = (shapes st)(ob \<mapsto> ObjS 0)"
      using k(3) by (simp_all add: zero_obj_def)
    then have at: "shapes a ob = Some (ObjS 0)" by simp
    obtain r b where cr: "create_skeleton lb ob a = (r, b)" by force
    note C = create_skeleton_shapes [OF law k(1) at cr]
    show ?thesis
    proof (cases "r = 0")
      case True
      with C sh have b: "heap_ok b" "live_object (shapes st) ob (shapes b)"
        using False new by (auto simp: live_object_def ENOMEM_def)
      obtain s m p where s: "skeleton_of ob b = Some s" "shapes b s = Some (SkelS m p)"
        by (rule live_skeleton [OF b(2)])
      obtain e d where op: "lb_open lb s opts b = (e, d)" by force
      have d: "heap_ok d" "live_object (shapes st) ob (shapes d)"
        using libbpf_keeps(1) [OF law b(1) s(2), of opts] b(2) op by simp_all
      show ?thesis
        using run c False cr True s(1) op d destroy_object [OF law d]
        by (auto simp: profile_bpf__open_opts_def split: if_splits)
    next
      case err: False
      with C have b: "heap_ok b" "shapes b = (shapes st)(ob \<mapsto> ObjS 0)" using sh by auto
      have "skeleton_of ob b = Some 0" by (rule skeleton_of_shapes) (simp add: b)
      moreover have f: "to_shapes b (c_free ob b) (shapes st)"
        using c_free_shapes [of b ob "ObjS 0"] b(2) False new by (simp add: fun_upd_idem)
      moreover have "heap_ok (c_free ob b)" by (rule heap_ok_to_shapes [OF b(1) f]) (use b(2) in \<open>auto split: if_splits\<close>)
      ultimately show ?thesis
        using run c False cr err
        by (auto simp: profile_bpf__open_opts_def profile_bpf__destroy_def to_shapes_def)
    qed
  qed
qed

lemma open_and_load_shapes:
  assumes law: "libbpf_law lb" and ok: "heap_ok st" and run: "profile_bpf__open_and_load lb st = (obj, st')"
  shows "heap_ok st' \<and>
    (if obj = 0 then shapes st' = shapes st else live_object (shapes st) obj (shapes st'))"
proof -
  obtain ob a where op: "profile_bpf__open lb st = (ob, a)" by force
  note A = open_opts_shapes [OF law ok op [unfolded profile_bpf__open_def]]
  show ?thesis
  proof (cases "ob = 0")
    case True
    with A run op show ?thesis by (simp add: profile_bpf__open_and_load_def)
  next
    case False
    with A have a: "heap_ok a" "live_object (shapes st) ob (shapes a)" by simp_all
    obtain s m p where s: "skeleton_of ob a = Some s" "shapes a s = Some (SkelS m p)"
      by (rule live_skeleton [OF a(2)])
    obtain e b where ld: "lb_load lb s a = (e, b)" by force
    have b: "heap_ok b" "live_object (shapes st) ob (shapes b)"
      using libbpf_keeps(2) [OF law a(1) s(2)] a(2) ld by simp_all
    show ?thesis
      using run op False s(1) ld b destroy_object [OF law b]
      by (auto simp: profile_bpf__open_and_load_def profile_bpf__load_def split: if_splits)
  qed
qed

section \<open>Properties\<close>

text \<open>
  C19. The skeleton's life cycle is balanced on every path: whichever allocation or libbpf call fails,
  opening and loading leaves either nothing allocated that was not before, or an object that,
  attached, detached and destroyed, releases everything; no block is released twice and no null
  pointer is followed.
\<close>

theorem skeleton_lifecycle_balanced:
  assumes "libbpf_law lb" and "heap_ok st"
  shows "let (obj, st1) = profile_bpf__open_and_load lb st in
    heap_ok st1 \<and>
    (if obj = 0 then shapes st1 = shapes st
     else let (r, st2) = profile_bpf__attach lb obj st1;
              st4 = profile_bpf__destroy lb obj (profile_bpf__detach lb obj st2)
          in heap_ok st4 \<and> shapes st4 = shapes st)"
proof -
  obtain obj st1 where run: "profile_bpf__open_and_load lb st = (obj, st1)" by force
  note L = open_and_load_shapes [OF assms run]
  show ?thesis
  proof (cases "obj = 0")
    case True
    with L run show ?thesis by simp
  next
    case False
    with L have a: "heap_ok st1" "live_object (shapes st) obj (shapes st1)" by simp_all
    obtain s m p where s: "skeleton_of obj st1 = Some s" "shapes st1 s = Some (SkelS m p)"
      by (rule live_skeleton [OF a(2)])
    obtain r st2 where at: "lb_attach lb s st1 = (r, st2)" by force
    have b: "heap_ok st2" "live_object (shapes st) obj (shapes st2)"
      using libbpf_keeps(3) [OF assms(1) a(1) s(2)] a(2) at by simp_all
    obtain s2 m2 p2 where s2: "skeleton_of obj st2 = Some s2" "shapes st2 s2 = Some (SkelS m2 p2)"
      by (rule live_skeleton [OF b(2)])
    have c: "heap_ok (lb_detach lb s2 st2)" "live_object (shapes st) obj (shapes (lb_detach lb s2 st2))"
      using libbpf_keeps(4) [OF assms(1) b(1) s2(2)] b(2) by simp_all
    show ?thesis
      using run False a(1) s(1) at s2(1) destroy_object [OF assms(1) c]
      by (simp add: profile_bpf__attach_def profile_bpf__detach_def)
  qed
qed

text \<open>A libbpf that meets the law: it opens everything, fails to load, and frees what it should.\<close>

definition ref_libbpf :: "unit libbpf" where
  "ref_libbpf =
     \<lparr>lb_skel_sz = 72, lb_map_sz = 24, lb_prog_sz = 24, lb_data = [],
      lb_open = \<lambda>s opts st. (0, st), lb_load = \<lambda>s st. (- 22, st), lb_attach = \<lambda>s st. (0, st),
      lb_detach = \<lambda>s st. st,
      lb_destroy = \<lambda>s st.
        if s = 0 then st
        else case hp st s of
               Some (Skel k) \<Rightarrow> st\<lparr>hp := (hp st)(s := None, sk_maps k := None, sk_progs k := None)\<rparr>
             | _ \<Rightarrow> st\<lparr>fault := True\<rparr>\<rparr>"

lemma ref_libbpf_law: "libbpf_law ref_libbpf"
  unfolding libbpf_law_def
proof (intro conjI allI impI; (elim conjE)?)
  fix st s m p
  assume sk: "shapes st s = Some (SkelS m p)" and "shapes st 0 = None"
  then have "s \<noteq> 0" by (cases "s = 0") auto
  with sk show "to_shapes st (lb_destroy ref_libbpf s st) ((shapes st)(s := None, m := None, p := None))"
    by (auto simp: shapes_Some_block to_shapes_def ref_libbpf_def) (auto simp: shapes_def fun_eq_iff)
qed (simp_all add: ref_libbpf_def to_shapes_def)

definition empty_heap :: c_state where
  "empty_heap = \<lparr>hp = Map.empty, brk = 1, allocs = \<lambda>i. True, c_errno = 0, fault = False\<rparr>"

lemma skeleton_lifecycle_balanced_witness:
  "heap_ok (snd (profile_bpf__open_and_load ref_libbpf empty_heap))"
proof -
  have "heap_ok empty_heap" by (simp add: heap_ok_def empty_heap_def shapes_def)
  from skeleton_lifecycle_balanced [OF ref_libbpf_law this] show ?thesis
    by (auto simp: Let_def split: prod.splits)
qed

text \<open>The tables name every member they fill in.\<close>

lemma skeleton_tables:
  "map ms_map (map_table obj) =
     map (\<lambda>f. (obj, ''maps.'' @ f)) [''stackmap'', ''counts'', ''lua_events'', ''lua_event_output'', ''rodata'']"
  "length (map_table obj) = 5" "length (prog_table obj) = 3"
  "list_all (\<lambda>ps. ps_prog ps = (obj, ''progs.'' @ ps_name ps) \<and> ps_link ps = (obj, ''links.'' @ ps_name ps))
     (prog_table obj)"
  by (simp_all add: map_table_def map_skel_def prog_table_def prog_skel_def)

end
