(* ===== verification/EndToEnd.thy ===== *)
theory EndToEnd
  imports Session Sampler
begin

text \<open>
  The two halves together: a run of the BPF program (bpf/profile.bpf.c), the perf buffers, and the
  profile user space (src/main.rs) makes of what they deliver.
\<close>

section \<open>What a run outputs\<close>

text \<open>
  The output of one step as user space needs it: at most one native event, sound and of one of the two
  sizes, and well-formed Lua events with ascending levels, all under one key.
\<close>

definition output_ok :: "bpf_output \<Rightarrow> bool" where
  "output_ok out \<longleftrightarrow>
     card (output_keys out) \<le> 1 \<and> length (native_events out) \<le> 1 \<and>
     (\<forall>(ne, sz) \<in> set (native_events out).
        wf_native ne \<and> unat (ne_ip_cnt ne) \<le> PERF_MAX_STACK_DEPTH \<and>
        unat (ne_stack_len ne) \<le> USER_STACK_SNAPSHOT_SIZE \<and>
        (sz = sizeof native_event_t \<or> sz = offsetof native_event_t ''stack'' \<and> ne_stack_len ne = 0)) \<and>
     (\<forall>e \<in> set (lua_events_out out). wf_lua e) \<and> distinct (map le_level (lua_events_out out))"

definition outputs_ok :: "bpf_output list \<Rightarrow> bool" where
  "outputs_ok outs \<longleftrightarrow>
     (\<forall>out \<in> set outs. output_ok out) \<and>
     (\<forall>j k. j < k \<and> k < length outs \<longrightarrow> output_keys (outs ! j) \<inter> output_keys (outs ! k) = {})"

lemma ascending_distinct: "sorted_wrt (\<lambda>e e'. (f e :: nat) < f e') es \<Longrightarrow> distinct (map f es)"
  by (induction es) auto

lemma no_output_ok: "output_ok no_output"
  by (simp add: output_ok_def no_output_def output_keys_def)

lemma step_output_ok:
  assumes "\<And>i. x = Sample i \<Longrightarrow> sample_law i" and "buffers_ok st"
    and "bpf_step cfg arch h x st = (st', out)" and "card (output_keys out) \<le> 1"
  shows "output_ok out"
proof (cases x)
  case (Probe e)
  with assms show ?thesis by (simp add: no_output_ok)
next
  case (Sample i)
  note law = assms(1) [OF Sample]
  have run: "do_perf_event cfg arch h i st = (st', out)" using assms(3) Sample by simp
  show ?thesis
  proof (cases "accepted cfg (in_task i)")
    case False
    with run show ?thesis by (simp add: do_perf_event_rejected no_output_ok)
  next
    case True
    obtain seqs seq where seq: "next_seq (seq_ops h) (tid_of (in_task i)) (seq_map st) = (seqs, seq)"
      by fastforce
    note parts = do_perf_event_accepted [OF True seq run]
    let ?key = "sample_key_of (in_task i) seq"
    let ?evs = "snd (walk_lua_stack (in_read i) (in_read_str i) (states_ops h) (lua_states st) ?key
                  (lua_event_buf st (in_cpu i)))"
    have buf: "\<And>e. lua_event_buf st (in_cpu i) = Some e \<Longrightarrow> wf_lua e"
      using assms(2) by (simp add: buffers_ok_def)
    have "str_probe_law (in_read_str i)" using law by (simp add: sample_law_def)
    from walk_event_facts [OF this _ refl, of "lua_event_buf st (in_cpu i)" "in_read i" "states_ops h"
        "lua_states st" ?key] buf
    have evs: "sorted_wrt (\<lambda>e e'. unat (le_level e) < unat (le_level e')) ?evs" "\<forall>e \<in> set ?evs. wf_lua e"
      by simp_all
    have "distinct (map le_level ?evs)"
      using ascending_distinct [OF evs(1)] by (auto simp: distinct_map inj_on_def)
    then have lua: "(\<forall>e \<in> set (lua_events_out out). wf_lua e) \<and> distinct (map le_level (lua_events_out out))"
      using parts(3) evs(2) by simp
    have native: "wf_native ne \<and> unat (ne_ip_cnt ne) \<le> PERF_MAX_STACK_DEPTH \<and>
        unat (ne_stack_len ne) \<le> USER_STACK_SNAPSHOT_SIZE \<and>
        (sz = sizeof native_event_t \<or> sz = offsetof native_event_t ''stack'' \<and> ne_stack_len ne = 0)"
      if ne: "(ne, sz) \<in> set (native_events out)" for ne sz
    proof -
      from ne parts(4) obtain ne0 where ne0: "native_buf st (in_cpu i) = Some ne0"
        "sample_native cfg arch i ?key ne0 = (ne, sz)"
        by (auto split: if_splits option.splits)
      then have "wf_native ne0" using assms(2) by (simp add: buffers_ok_def)
      from sample_native_spec [OF law this ne0(2)] show ?thesis by auto
    qed
    have "length (native_events out) \<le> 1" using parts(4) by (simp split: option.split)
    with native lua assms(4) show ?thesis unfolding output_ok_def by blast
  qed
qed

lemma run_outputs_ok:
  assumes "\<And>i. Sample i \<in> set xs \<Longrightarrow> sample_law i" and "buffers_ok st"
    and "bpf_run cfg arch h xs st = (st', outs)"
    and "\<And>j. j < length outs \<Longrightarrow> card (output_keys (outs ! j)) \<le> 1"
  shows "\<forall>out \<in> set outs. output_ok out"
  using assms
proof (induction xs arbitrary: st outs)
  case (Cons x xs)
  obtain st1 out where step: "bpf_step cfg arch h x st = (st1, out)" by fastforce
  obtain outs' where rest: "bpf_run cfg arch h xs st1 = (st', outs')" and outs: "outs = out # outs'"
    using Cons.prems(3) step by (auto split: prod.splits)
  have "output_ok out"
    using step_output_ok [OF _ Cons.prems(2) step] Cons.prems(1,4) [of _] Cons.prems(4) [of 0] outs by auto
  moreover have "buffers_ok st1"
    using bpf_step_buffers [OF _ Cons.prems(2) step] Cons.prems(1) by auto
  then have "\<forall>out \<in> set outs'. output_ok out"
    using Cons.IH [OF _ _ rest] Cons.prems(1,4) outs by fastforce
  ultimately show ?case by (simp add: outs)
qed simp

lemma program_outputs_ok:
  assumes "hash_map (seq_ops h) MAX_ENTRIES invar" and "invar (seq_map st)"
    and "map_lookup (seq_ops h) (seq_map st) = Map.empty"
    and "card (sampled_tids cfg xs) \<le> MAX_ENTRIES" and "\<forall>t. samples_of cfg t xs < 2 ^ 32"
    and "bpf_run cfg arch h xs st = (st', outs)"
    and "\<And>i. Sample i \<in> set xs \<Longrightarrow> sample_law i" and "buffers_ok st"
  shows "outputs_ok outs"
proof -
  let ?keys = "\<lambda>j. step_keys cfg (xs ! j) (\<lambda>t. samples_of cfg t (take j xs))"
  note run = run_output_keys [OF assms(1-4,6)]
  have "card (output_keys (outs ! j)) \<le> 1" if "j < length xs" for j
  proof -
    have "finite (?keys j)" and "card (?keys j) \<le> 1"
      by (auto simp: step_keys_def split: bpf_action.split)
    with run(2) that show ?thesis by (meson card_mono order_trans)
  qed
  then have "\<forall>out \<in> set outs. output_ok out"
    using run_outputs_ok [OF assms(7,8,6)] run(1) by simp
  moreover have "output_keys (outs ! j) \<inter> output_keys (outs ! k) = {}" if "j < k" "k < length outs" for j k
  proof -
    have "j < length xs" "k < length xs" using that run(1) by simp_all
    then show ?thesis using run(2) step_keys_disjoint [OF assms(5) that(1)] by blast
  qed
  ultimately show ?thesis by (simp add: outputs_ok_def)
qed

section \<open>The perf buffers\<close>

text \<open>The bytes of a stream, and a stream that arrives complete, in any order, each item padded.\<close>

definition native_payload :: "native_event \<times> nat \<Rightarrow> u8 list" where
  "native_payload p = (case p of (ne, sz) \<Rightarrow> take sz (native_bytes ne))"

definition carried :: "u8 list list \<Rightarrow> u8 list list \<Rightarrow> bool" where
  "carried sent received \<longleftrightarrow>
     (\<exists>pads. length pads = length sent \<and> list_all (\<lambda>p. length p < 8) pads \<and>
        mset received = mset (map2 (@) sent pads))"

definition native_items :: "delivery list \<Rightarrow> u8 list list" where
  "native_items ds = List.map_filter (\<lambda>d. case d of NativeData b \<Rightarrow> Some b | LuaData b \<Rightarrow> None) ds"

definition lua_items :: "delivery list \<Rightarrow> u8 list list" where
  "lua_items ds = List.map_filter (\<lambda>d. case d of LuaData b \<Rightarrow> Some b | NativeData b \<Rightarrow> None) ds"

definition all_native :: "bpf_output list \<Rightarrow> (native_event \<times> nat) list" where
  "all_native outs = concat (map native_events outs)"

definition all_lua :: "bpf_output list \<Rightarrow> lua_stack_event list" where
  "all_lua outs = concat (map lua_events_out outs)"

definition lossless :: "bpf_output list \<Rightarrow> delivery list \<Rightarrow> bool" where
  "lossless outs ds \<longleftrightarrow>
     carried (map native_payload (all_native outs)) (native_items ds) \<and>
     carried (map lua_bytes (all_lua outs)) (lua_items ds)"

lemma data_items:
  "native_data ds = List.map_filter native_event_from_bytes (native_items ds)"
  "lua_data ds = List.map_filter from_bytes_aligned (lua_items ds)"
  by (induction ds)
     (auto simp: native_data_def lua_data_def native_items_def lua_items_def map_filter_simps
      split: delivery.splits option.splits)

lemma mset_map_filter: "mset xs = mset ys \<Longrightarrow> mset (List.map_filter f xs) = mset (List.map_filter f ys)"
proof -
  assume "mset xs = mset ys"
  then have "image_mset (the \<circ> f) {#x \<in># mset xs. f x \<noteq> None#} = image_mset (the \<circ> f) {#x \<in># mset ys. f x \<noteq> None#}"
    by simp
  then show ?thesis by (simp add: List.map_filter_def)
qed

text \<open>A carried stream decodes to what was sent, as far as \<open>g\<close> can tell.\<close>

lemma carried_decodes:
  assumes "carried (map enc es) received"
    and "\<And>e pad. e \<in> set es \<Longrightarrow> length pad < 8 \<Longrightarrow> \<exists>d. dec (enc e @ pad) = Some d \<and> g d = f e"
  shows "mset (map g (List.map_filter dec received)) = mset (map f es)"
proof -
  obtain pads where pads: "length pads = length es" "list_all (\<lambda>p. length p < 8) pads"
    and m: "mset received = mset (map2 (@) (map enc es) pads)"
    using assms(1) by (auto simp: carried_def)
  have "map g (List.map_filter dec (map2 (@) (map enc es) pads)) = map f es"
    using pads assms(2)
  proof (induction es arbitrary: pads)
    case (Cons e es)
    then obtain p ps where "pads = p # ps" by (cases pads) auto
    with Cons obtain d where "dec (enc e @ p) = Some d" "g d = f e" by fastforce
    moreover have "map g (List.map_filter dec (map2 (@) (map enc es) ps)) = map f es"
      using Cons \<open>pads = p # ps\<close> by simp
    ultimately show ?case using \<open>pads = p # ps\<close> by (simp add: map_filter_simps)
  qed simp
  with mset_map_filter [OF m, of dec] show ?thesis by (metis mset_map)
qed

text \<open>What user space keeps of a native event, its unwinder answering by \<open>att\<close>.\<close>

definition native_entry ::
    "(native_sample \<Rightarrow> u64 list option) option \<Rightarrow> native_event \<Rightarrow> sample_key \<times> u64 list" where
  "native_entry att ne = (ne_key ne, kept_ips att (from_event ne))"

lemma native_payload_decodes:
  assumes "wf_native ne" and "unat (ne_stack_len ne) \<le> USER_STACK_SNAPSHOT_SIZE"
    and "sz = sizeof native_event_t \<or> sz = offsetof native_event_t ''stack'' \<and> ne_stack_len ne = 0"
    and "length pad < 8"
  shows "\<exists>ev. native_event_from_bytes (native_payload (ne, sz) @ pad) = Some ev \<and>
              native_entry att ev = native_entry att ne"
  using assms(3)
proof (elim disjE conjE)
  assume "sz = sizeof native_event_t"
  then have "native_payload (ne, sz) = native_bytes ne"
    using length_native_bytes [OF assms(1)]
    by (simp add: native_payload_def native_event_layout wire_sizes)
  moreover have "native_event_from_bytes (native_bytes ne @ pad) = Some ne"
    using assms by (intro native_wire.dec_enc) (simp_all add: sendable_def)
  ultimately show ?thesis by simp
next
  assume "sz = offsetof native_event_t ''stack''" and len: "ne_stack_len ne = 0"
  then have p: "native_payload (ne, sz) = take prefix_size (native_bytes ne)"
    by (simp add: native_payload_def native_event_layout wire_sizes)
  from native_event_from_snapshot_free [OF assms(1) len assms(4)] show ?thesis
    by (auto simp: p len native_entry_def from_event_def)
qed

section \<open>From outputs to counts\<close>

text \<open>The line a step's output stands for.\<close>

definition output_line ::
    "symbolizer \<Rightarrow> (native_sample \<Rightarrow> u64 list option) option \<Rightarrow> bool \<Rightarrow> bpf_output \<Rightarrow> string option" where
  "output_line symb att include_c out =
     (case native_events out of
        [] \<Rightarrow> None
      | (ne, sz) # _ \<Rightarrow>
          build_stack symb (snd (native_entry att ne)) (lua_events_out out) include_c)"

lemma filter_concat_only:
  assumes "j < length xs" and "\<And>e. e \<in> set (f (xs ! j)) \<Longrightarrow> P e"
    and "\<And>i e. i < length xs \<Longrightarrow> i \<noteq> j \<Longrightarrow> e \<in> set (f (xs ! i)) \<Longrightarrow> \<not> P e"
  shows "filter P (concat (map f xs)) = f (xs ! j)"
proof -
  have none: "filter P (concat (map f ys)) = []" if "\<forall>y \<in> set ys. \<forall>e \<in> set (f y). \<not> P e" for ys
    using that by (induction ys) (auto simp: filter_empty_conv)
  have split: "xs = take j xs @ xs ! j # drop (Suc j) xs" using assms(1) by (rule id_take_nth_drop)
  have "\<not> P e" if "y \<in> set (take j xs)" "e \<in> set (f y)" for y e
  proof -
    from that(1) obtain i where "i < j" "y = xs ! i" using assms(1) by (auto simp: in_set_conv_nth)
    with assms(1) assms(3) [of i e] that(2) show ?thesis by simp
  qed
  moreover have "\<not> P e" if "y \<in> set (drop (Suc j) xs)" "e \<in> set (f y)" for y e
  proof -
    from that(1) obtain n where "n < length xs - Suc j" "y = xs ! (Suc j + n)"
      by (auto simp: in_set_conv_nth)
    with assms(3) [of "Suc j + n" e] that(2) show ?thesis by simp
  qed
  moreover have "filter P (f (xs ! j)) = f (xs ! j)" using assms(2) by (simp add: filter_id_conv)
  ultimately show ?thesis using none [of "take j xs"] none [of "drop (Suc j) xs"] by (subst split) simp
qed

lemma distinct_concat_keys:
  assumes "\<And>j. j < length xs \<Longrightarrow> distinct (f (xs ! j))"
    and "\<And>j k. j < k \<Longrightarrow> k < length xs \<Longrightarrow> set (f (xs ! j)) \<inter> set (f (xs ! k)) = {}"
  shows "distinct (concat (map f xs))"
  using assms
proof (induction xs)
  case (Cons x xs)
  have "distinct (f x)" using Cons.prems(1) [of 0] by simp
  moreover have "distinct (concat (map f xs))"
    using Cons.IH Cons.prems(1) [of "Suc _"] Cons.prems(2) [of "Suc _" "Suc _"] by simp
  moreover have "set (f x) \<inter> set (concat (map f xs)) = {}"
    using Cons.prems(2) [of 0 "Suc _"] by (fastforce simp: in_set_conv_nth)
  ultimately show ?case by simp
qed simp

lemma build_stack_perm:
  assumes "mset lua = mset lua'" and "distinct (map le_level lua)"
  shows "build_stack symb ips lua c = build_stack symb ips lua' c"
  using by_level_desc_perm [OF assms] by (simp add: build_stack_def fold_symbolized_stack_def)

lemma in_all_native:
  "p \<in> set (all_native outs) \<longleftrightarrow> (\<exists>j < length outs. p \<in> set (native_events (outs ! j)))"
proof -
  have "p \<in> set (all_native outs) \<longleftrightarrow> (\<exists>out \<in> set outs. p \<in> set (native_events out))"
    by (simp add: all_native_def)
  also have "\<dots> \<longleftrightarrow> (\<exists>j < length outs. p \<in> set (native_events (outs ! j)))"
    by (simp only: set_conv_nth [of outs]) blast
  finally show ?thesis .
qed

text \<open>What is sent: sound events under keys of their own.\<close>

lemma sent_native_ok:
  assumes "outputs_ok outs" and "(ne, sz) \<in> set (all_native outs)"
  shows "wf_native ne \<and> unat (ne_stack_len ne) \<le> USER_STACK_SNAPSHOT_SIZE \<and>
    (sz = sizeof native_event_t \<or> sz = offsetof native_event_t ''stack'' \<and> ne_stack_len ne = 0)"
proof -
  obtain out where "out \<in> set outs" and ne: "(ne, sz) \<in> set (native_events out)"
    using assms(2) by (auto simp: all_native_def)
  with assms(1) have "output_ok out" by (simp add: outputs_ok_def)
  with ne show ?thesis unfolding output_ok_def by blast
qed

lemma sent_keys_distinct:
  assumes "outputs_ok outs"
  shows "distinct (map fst (map (native_entry att \<circ> fst) (all_native outs)))"
proof -
  have "distinct (concat (map (\<lambda>out. map (ne_key \<circ> fst) (native_events out)) outs))"
  proof (rule distinct_concat_keys)
    fix j assume "j < length outs"
    then have "length (native_events (outs ! j)) \<le> 1"
      using assms by (simp add: outputs_ok_def output_ok_def)
    then show "distinct (map (ne_key \<circ> fst) (native_events (outs ! j)))"
      by (cases "native_events (outs ! j)") auto
  next
    fix j k assume "j < k" "k < length outs"
    then have "output_keys (outs ! j) \<inter> output_keys (outs ! k) = {}"
      using assms by (simp add: outputs_ok_def)
    then show "set (map (ne_key \<circ> fst) (native_events (outs ! j))) \<inter>
        set (map (ne_key \<circ> fst) (native_events (outs ! k))) = {}"
      by (auto simp: output_keys_def)
  qed
  then show ?thesis by (simp add: all_native_def map_concat comp_def native_entry_def)
qed

lemma received_entries:
  assumes "outputs_ok outs" and "lossless outs ds"
  shows "mset (map (native_entry att) (native_data ds)) = mset (map (native_entry att \<circ> fst) (all_native outs))"
proof -
  have "carried (map native_payload (all_native outs)) (native_items ds)"
    using assms(2) by (simp add: lossless_def)
  then have "mset (map (native_entry att) (List.map_filter native_event_from_bytes (native_items ds))) =
        mset (map (native_entry att \<circ> fst) (all_native outs))"
  proof (rule carried_decodes)
    fix e pad assume "e \<in> set (all_native outs)" and pad: "length (pad :: u8 list) < 8"
    moreover obtain ne sz where "e = (ne, sz)" by (cases e)
    ultimately show "\<exists>d. native_event_from_bytes (native_payload e @ pad) = Some d \<and>
        native_entry att d = (native_entry att \<circ> fst) e"
      using native_payload_decodes [OF _ _ _ pad] sent_native_ok [OF assms(1), of ne sz] by auto
  qed
  then show ?thesis by (simp only: data_items)
qed

lemma received_lua:
  assumes "outputs_ok outs" and "lossless outs ds"
  shows "mset (lua_data ds) = mset (all_lua outs)"
proof -
  have lua: "wf_lua e" if "e \<in> set (all_lua outs)" for e
    using that assms(1) by (auto simp: all_lua_def outputs_ok_def output_ok_def)
  have "carried (map lua_bytes (all_lua outs)) (lua_items ds)" using assms(2) by (simp add: lossless_def)
  then have "mset (map (\<lambda>e. e) (List.map_filter from_bytes_aligned (lua_items ds))) =
      mset (map (\<lambda>e. e) (all_lua outs))"
    by (rule carried_decodes) (use lua lua_wire.dec_enc in blast)
  then show ?thesis by (simp add: data_items)
qed

lemma map_of_rev_perm:
  assumes "mset xs = mset ys" and "distinct (map fst ys)"
  shows "map_of (rev xs) = map_of ys"
proof (rule map_of_inject_set [THEN iffD2])
  have "mset (map fst xs) = mset (map fst ys)" using assms(1) by (metis mset_map)
  then have "distinct (map fst xs)" using assms(2) mset_eq_imp_distinct_iff by blast
  then show "distinct (map fst (rev xs))" by (simp only: rev_map [symmetric] distinct_rev)
  show "set (rev xs) = set ys" using mset_eq_setD [OF assms(1)] by simp
qed (rule assms(2))

text \<open>The state user space has collected from a complete delivery.\<close>

lemma collected_state:
  assumes "outputs_ok outs" and "lossless outs ds" and "answers unw att"
    and "g = fst (fold (deliver unw c) ds (default_pending, u))"
  shows "pd_native g = map_of (map (native_entry att \<circ> fst) (all_native outs))"
    and "mset (lua_events_of g k) = mset (filter (\<lambda>e. le_key e = k) (all_lua outs))"
    and "pd_folded g = Map.empty"
proof -
  have "pd_native g = map_of (rev (map (native_entry att) (native_data ds)))"
    using deliveries_native [OF assms(3), of c ds default_pending u] assms(4)
    by (simp add: default_pending_def native_entry_def [abs_def])
  also have "\<dots> = map_of (map (native_entry att \<circ> fst) (all_native outs))"
    by (rule map_of_rev_perm [OF received_entries [OF assms(1,2)] sent_keys_distinct [OF assms(1)]])
  finally show "pd_native g = map_of (map (native_entry att \<circ> fst) (all_native outs))" .
  show "mset (lua_events_of g k) = mset (filter (\<lambda>e. le_key e = k) (all_lua outs))"
    using deliveries_collect [of unw c ds default_pending u k] assms(4) received_lua [OF assms(1,2)]
    by (simp add: lua_events_of_def default_pending_def)
  show "pd_folded g = Map.empty"
    using deliveries_collect [of unw c ds default_pending u k] assms(4)
    by (simp add: default_pending_def)
qed

text \<open>The key of an output with a native event is that of all its events and of no other output.\<close>

lemma own_key:
  assumes "outputs_ok outs" and "j < length outs" and "(ne, sz) \<in> set (native_events (outs ! j))"
  shows "output_keys (outs ! j) = {ne_key ne}"
    and "i < length outs \<Longrightarrow> i \<noteq> j \<Longrightarrow> ne_key ne \<notin> output_keys (outs ! i)"
proof -
  have ok: "output_ok (outs ! j)" using assms(1,2) by (simp add: outputs_ok_def)
  have mine: "ne_key ne \<in> output_keys (outs ! j)" using assms(3) by (force simp: output_keys_def)
  have "finite (output_keys (outs ! j))" by (simp add: output_keys_def)
  with ok mine show "output_keys (outs ! j) = {ne_key ne}"
    by (auto simp: output_ok_def card_le_Suc0_iff_eq)
  show "ne_key ne \<notin> output_keys (outs ! i)" if "i < length outs" "i \<noteq> j"
    using assms(1,2) mine that unfolding outputs_ok_def
    by (cases "i < j") (metis disjoint_iff, metis disjoint_iff nat_neq_iff)
qed

lemma lua_under_key:
  assumes "outputs_ok outs" and "j < length outs" and "(ne, sz) \<in> set (native_events (outs ! j))"
  shows "filter (\<lambda>e. le_key e = ne_key ne) (all_lua outs) = lua_events_out (outs ! j)"
  unfolding all_lua_def
proof (rule filter_concat_only [OF assms(2)])
  show "le_key e = ne_key ne" if "e \<in> set (lua_events_out (outs ! j))" for e
    using own_key(1) [OF assms] that by (auto simp: output_keys_def)
  show "le_key e \<noteq> ne_key ne" if "i < length outs" "i \<noteq> j" "e \<in> set (lua_events_out (outs ! i))" for i e
    using own_key(2) [OF assms that(1,2)] that(3) by (force simp: output_keys_def)
qed

text \<open>Each output with a native event is one entry, and its line is the output's.\<close>

lemma output_entry:
  assumes "outputs_ok outs" and "j < length outs" and "native_events (outs ! j) = (ne, sz) # rest"
    and "pd_native g = map_of (map (native_entry att \<circ> fst) (all_native outs))"
    and "\<And>k. mset (lua_events_of g k) = mset (filter (\<lambda>e. le_key e = k) (all_lua outs))"
  shows "pd_native g (ne_key ne) = Some (snd (native_entry att ne))"
    and "sample_stack symb c g (ne_key ne, snd (native_entry att ne)) = output_line symb att c (outs ! j)"
proof -
  have mine: "(ne, sz) \<in> set (native_events (outs ! j))" by (simp add: assms(3))
  have "(ne, sz) \<in> set (all_native outs)" using assms(2) mine by (auto simp: all_native_def)
  then have "native_entry att ne \<in> set (map (native_entry att \<circ> fst) (all_native outs))" by force
  then have "(ne_key ne, snd (native_entry att ne)) \<in> set (map (native_entry att \<circ> fst) (all_native outs))"
    by (simp add: native_entry_def)
  from map_of_is_SomeI [OF sent_keys_distinct [OF assms(1)] this]
  show "pd_native g (ne_key ne) = Some (snd (native_entry att ne))" by (simp only: assms(4))
  have m: "mset (lua_events_of g (ne_key ne)) = mset (lua_events_out (outs ! j))"
    using assms(5) [of "ne_key ne"] lua_under_key [OF assms(1,2) mine] by simp
  have "distinct (map le_level (lua_events_out (outs ! j)))"
    using assms(1,2) by (simp add: outputs_ok_def output_ok_def)
  moreover have "mset (map le_level (lua_events_of g (ne_key ne))) = mset (map le_level (lua_events_out (outs ! j)))"
    using m by simp
  ultimately have "distinct (map le_level (lua_events_of g (ne_key ne)))"
    using mset_eq_imp_distinct_iff by blast
  with m show "sample_stack symb c g (ne_key ne, snd (native_entry att ne)) = output_line symb att c (outs ! j)"
    by (simp add: sample_stack_def output_line_def assms(3) build_stack_perm)
qed

lemma counts_of_outputs:
  assumes "outputs_ok outs" and "pd_native g = map_of (map (native_entry att \<circ> fst) (all_native outs))"
    and "\<And>k. mset (lua_events_of g k) = mset (filter (\<lambda>e. le_key e = k) (all_lua outs))"
  shows "card {k \<in> dom (pd_native g). sample_stack symb c g (k, the (pd_native g k)) = Some s} =
         length (filter (\<lambda>out. output_line symb att c out = Some s) outs)"
proof -
  let ?J = "{j. j < length outs \<and> output_line symb att c (outs ! j) = Some s}"
  let ?key = "\<lambda>j. ne_key (fst (hd (native_events (outs ! j))))"
  have native: "\<exists>ne sz rest. native_events (outs ! j) = (ne, sz) # rest" if "j \<in> ?J" for j
    using that by (auto simp: output_line_def split: list.splits)
  have inj: "inj_on ?key ?J"
  proof (rule inj_onI)
    fix i j assume ij: "i \<in> ?J" "j \<in> ?J" "?key i = ?key j"
    have "?key i \<in> output_keys (outs ! i)" "?key j \<in> output_keys (outs ! j)"
      using native [OF ij(1)] native [OF ij(2)] by (auto simp: output_keys_def)
    with ij assms(1) show "i = j" unfolding outputs_ok_def
      by (metis (mono_tags, lifting) disjoint_iff mem_Collect_eq nat_neq_iff)
  qed
  have img: "?key ` ?J = {k \<in> dom (pd_native g). sample_stack symb c g (k, the (pd_native g k)) = Some s}"
  proof (intro set_eqI iffI)
    fix k assume "k \<in> ?key ` ?J"
    then obtain j where j: "j \<in> ?J" "k = ?key j" by auto
    obtain ne sz rest where ne: "native_events (outs ! j) = (ne, sz) # rest" using native [OF j(1)] by blast
    from output_entry [OF assms(1) _ ne assms(2,3)] j ne
    show "k \<in> {k \<in> dom (pd_native g). sample_stack symb c g (k, the (pd_native g k)) = Some s}" by auto
  next
    fix k assume k: "k \<in> {k \<in> dom (pd_native g). sample_stack symb c g (k, the (pd_native g k)) = Some s}"
    then obtain p where p: "p \<in> set (all_native outs)" "k = ne_key (fst p)"
      by (auto simp: assms(2) dom_map_of_conv_image_fst native_entry_def)
    obtain ne sz where "p = (ne, sz)" by (cases p)
    with p obtain j where j: "j < length outs" and ne: "(ne, sz) \<in> set (native_events (outs ! j))"
      and key: "k = ne_key ne"
      by (auto simp: in_all_native)
    have "length (native_events (outs ! j)) \<le> 1"
      using assms(1) j by (simp add: outputs_ok_def output_ok_def)
    with ne have l: "native_events (outs ! j) = [(ne, sz)]" by (cases "native_events (outs ! j)") auto
    from output_entry [OF assms(1) j l assms(2,3)] k key have "j \<in> ?J" using j by auto
    then show "k \<in> ?key ` ?J" using key l by force
  qed
  from card_image [OF inj] show ?thesis
    unfolding img by (simp add: length_filter_conv_card)
qed

text \<open>The counts of a session's lines.\<close>

lemma profile_counts:
  assumes "hash_map (seq_ops h) MAX_ENTRIES invar" and "invar (seq_map st)"
    and "map_lookup (seq_ops h) (seq_map st) = Map.empty"
    and "card (sampled_tids (rodata a) xs) \<le> MAX_ENTRIES"
    and "\<forall>t. samples_of (rodata a) t xs < 2 ^ 32"
    and "bpf_run (rodata a) arch h xs st = (st', outs)"
    and "\<And>i. Sample i \<in> set xs \<Longrightarrow> sample_law i" and "buffers_ok st"
    and "last_round (arg_duration a) (rounds n)"
    and "\<And>j. j < n \<Longrightarrow> \<not> last_round (arg_duration a) (rounds j)"
    and "lossless outs (handled rounds 0 n)"
    and "\<And>m. dom m = (ne_key \<circ> fst) ` set (all_native outs) \<Longrightarrow>
           map_of (iteration m) = m \<and> distinct (map fst (iteration m))"
    and "answers unw att"
  shows "\<exists>folded. profile symb a unw iteration rounds u = Some folded \<and>
    (\<forall>s. folded s =
       (let c = length (filter (\<lambda>out. output_line symb att (include_native_stacks a) out = Some s) outs)
        in if c = 0 then None else Some (of_nat c)))"
proof -
  let ?c = "include_native_stacks a"
  obtain g u' where g: "fold (deliver unw ?c) (handled rounds 0 n) (default_pending, u) = (g, u')" by force
  have ok: "outputs_ok outs" by (rule program_outputs_ok [OF assms(1-8)])
  note state = collected_state [OF ok assms(11,13), of g ?c u, unfolded g, OF fst_conv [symmetric]]
  have "poll_loop (arg_duration a) rounds (deliver unw ?c) 0 (default_pending, u) = Some (g, u')"
    using poll_loop_returns [of "arg_duration a" rounds 0 n "deliver unw ?c" "(default_pending, u)"]
      assms(9,10) g by simp
  then have run: "profile symb a unw iteration rounds u =
      Some (finalize symb ?c (iteration (pd_native g)) g)"
    by (simp add: profile_def)
  have "dom (pd_native g) = (ne_key \<circ> fst) ` set (all_native outs)"
    by (simp add: state(1) dom_map_of_conv_image_fst native_entry_def image_comp comp_def)
  from assms(12) [OF this] finalize_count [OF _ _ state(3), of "iteration (pd_native g)" symb ?c]
    counts_of_outputs [OF ok state(1,2), of symb ?c]
  have "finalize symb ?c (iteration (pd_native g)) g s =
      (let c = length (filter (\<lambda>out. output_line symb att ?c out = Some s) outs)
       in if c = 0 then None else Some (of_nat c))" for s
    by simp
  with run show ?thesis by blast
qed

section \<open>Properties\<close>

text \<open>
  C2. The profile counts the samples: when the perf buffers lose nothing, the session that ends after
  some round gives each folded line the number of accepted samples of the run whose stack is that
  line, whatever the order of delivery and of the hash tables. It holds within the capacity of the
  sequence map, without an unwinder (Lua-only profiles, or native stacks from \<open>bpf_get_stack\<close>) and with
  one whose addresses for a sample do not depend on its cache.
\<close>

theorem profile_counts_samples:
  assumes "hash_map (seq_ops h) MAX_ENTRIES invar" and "invar (seq_map st)"
    and "map_lookup (seq_ops h) (seq_map st) = Map.empty"
    and "card (sampled_tids (rodata a) xs) \<le> MAX_ENTRIES"
    and "\<forall>t. samples_of (rodata a) t xs < 2 ^ 32"
    and "bpf_run (rodata a) arch h xs st = (st', outs)"
    and "\<And>i. Sample i \<in> set xs \<Longrightarrow> sample_law i" and "buffers_ok st"
    and "last_round (arg_duration a) (rounds n)"
    and "\<And>j. j < n \<Longrightarrow> \<not> last_round (arg_duration a) (rounds j)"
    and "lossless outs (handled rounds 0 n)"
    and "\<And>m. dom m = (ne_key \<circ> fst) ` set (all_native outs) \<Longrightarrow>
           map_of (iteration m) = m \<and> distinct (map fst (iteration m))"
    and "answers unw att"
  shows "\<exists>folded. profile symb a unw iteration rounds u = Some folded \<and>
    (\<forall>s. folded s =
       (let c = length (filter (\<lambda>out. output_line symb att (include_native_stacks a) out = Some s) outs)
        in if c = 0 then None else Some (of_nat c)))"
  using assms by (rule profile_counts)

text \<open>A session with native stacks that takes one sample and is interrupted in the second round.\<close>

definition example_args :: args where
  "example_args = (default_args 3)\<lparr>arg_include_c_stacks := True\<rparr>"

definition example_outs :: "bpf_output list" where
  "example_outs = snd (bpf_run (rodata example_args) X86_64 alist_helpers [Sample example_sample] initial_state)"

definition example_rounds :: "nat \<Rightarrow> poll_round" where
  "example_rounds i =
     \<lparr>pr_exiting = (i = 1), pr_native = map native_payload (all_native example_outs),
      pr_lua = map lua_bytes (all_lua example_outs), pr_elapsed = 0\<rparr>"

definition example_iteration :: "(sample_key \<rightharpoonup> u64 list) \<Rightarrow> (sample_key \<times> u64 list) list" where
  "example_iteration m = map (\<lambda>k. (k, the (m k))) [sample_key_of (pid_tgid 3 7) 1]"

text \<open>An unwinder that finds three addresses in every sample and counts the samples it has seen.\<close>

definition example_unwinder :: "nat unwinder" where
  "example_unwinder n sample =
     (default_attempt\<lparr>ua_ips := Some [0x401000, 0x402000, 0x403000]\<rparr>, Suc n)"

lemma carried_unpadded: "carried sent sent"
  unfolding carried_def
  by (rule exI [of _ "replicate (length sent) []"])
     (auto simp: list_all_iff zip_replicate2 comp_def)

lemma lossless_unpadded:
  "lossless outs (map NativeData (map native_payload (all_native outs)) @ map LuaData (map lua_bytes (all_lua outs)))"
proof -
  have "native_items (map LuaData ys) = []" "lua_items (map LuaData ys) = ys" for ys
    by (induction ys) (simp_all add: native_items_def lua_items_def map_filter_simps)
  then have "native_items (map NativeData xs @ map LuaData ys) = xs"
    "lua_items (map NativeData xs @ map LuaData ys) = ys" for xs ys
    by (induction xs) (simp_all add: native_items_def lua_items_def map_filter_simps)
  then show ?thesis unfolding lossless_def by (simp only: carried_unpadded)
qed

lemma example_iteration_ok:
  assumes "dom m = {sample_key_of (pid_tgid 3 7) 1}"
  shows "map_of (example_iteration m) = m \<and> distinct (map fst (example_iteration m))"
proof -
  obtain v where "m = [sample_key_of (pid_tgid 3 7) 1 \<mapsto> v]"
    using assms by (metis dom_eq_singleton_conv)
  then show ?thesis by (simp add: example_iteration_def)
qed

lemma example_accepted: "accepted (rodata example_args) (in_task example_sample)"
  by (simp add: accepted_def rodata_def default_config_def pid_filtered_def example_args_def
      default_args_def example_sample_def pid_tgid_def)

lemma example_output:
  obtains ne sz where "ne_key ne = sample_key_of (pid_tgid 3 7) 1"
    and "example_outs = [\<lparr>native_events = [(ne, sz)], lua_events_out = []\<rparr>]"
proof -
  let ?key = "sample_key_of (pid_tgid 3 7) 1"
  obtain st' out where run: "do_perf_event (rodata example_args) X86_64 alist_helpers example_sample initial_state =
      (st', out)" by fastforce
  obtain seqs seq where seq: "next_seq (seq_ops alist_helpers) (tid_of (in_task example_sample))
      (seq_map initial_state) = (seqs, seq)" by fastforce
  then have "seq = 1" by (auto simp: next_seq_def alist_helpers_def initial_state_def Let_def)
  then have key: "sample_key_of (in_task example_sample) seq = ?key" by (simp add: example_sample_def)
  obtain ne sz where ne: "sample_native (rodata example_args) X86_64 example_sample ?key default_native = (ne, sz)"
    by fastforce
  note parts = do_perf_event_accepted [OF example_accepted seq run, unfolded key]
  have "lua_events_out out = []"
    using parts(3) by (simp add: walk_lua_stack_def alist_helpers_def initial_state_def)
  moreover have "native_events out = [(ne, sz)]"
    using parts(4) ne by (simp add: initial_state_def rodata_def default_config_def)
  ultimately have "out = \<lparr>native_events = [(ne, sz)], lua_events_out = []\<rparr>" by simp
  then have "example_outs = [\<lparr>native_events = [(ne, sz)], lua_events_out = []\<rparr>]"
    using run by (simp add: example_outs_def)
  moreover have "ne_key ne = ?key"
    using ne by (auto simp: sample_native_def Let_def split: prod.splits if_splits)
  ultimately show ?thesis using that by blast
qed

lemma profile_counts_samples_witness:
  "\<exists>folded. profile (\<lambda>ip. Some (''f'', 0)) example_args (Some example_unwinder) example_iteration
       example_rounds 0 = Some folded \<and> folded ''f+0x0;f+0x0;f+0x0'' = Some 1"
proof -
  let ?att = "Some (\<lambda>sample. Some [0x401000, 0x402000, 0x403000])"
  obtain ne sz where ne: "ne_key ne = sample_key_of (pid_tgid 3 7) 1"
    and outs: "example_outs = [\<lparr>native_events = [(ne, sz)], lua_events_out = []\<rparr>]"
    by (rule example_output)
  have line: "output_line (\<lambda>ip. Some (''f'', 0)) ?att (include_native_stacks example_args)
      \<lparr>native_events = [(ne, sz)], lua_events_out = []\<rparr> = Some ''f+0x0;f+0x0;f+0x0''"
    by (simp add: output_line_def native_entry_def kept_ips_def build_stack_def native_frame_def is_native_function_symbol_def
        strip_prefix_def fold_symbolized_stack_def by_level_desc_def alt_hex_def hex_str_def radix_str.simps
        digit_char_def text_simps include_native_stacks_def example_args_def)
  obtain st' outs' where run: "bpf_run (rodata example_args) X86_64 alist_helpers [Sample example_sample]
      initial_state = (st', outs')" by fastforce
  then have outs': "outs' = example_outs" by (simp add: example_outs_def)
  have h: "hash_map (seq_ops alist_helpers) MAX_ENTRIES (alist_invar MAX_ENTRIES)"
    by (simp add: alist_helpers_def alist_hash_map)
  have tids: "sampled_tids (rodata example_args) [Sample example_sample] = {7}"
    using example_accepted
    by (auto simp: sampled_tids_def sampled_tid_def) (simp_all add: example_sample_def pid_tgid_def)
  have handled: "handled example_rounds 0 1 = map NativeData (map native_payload (all_native outs')) @
      map LuaData (map lua_bytes (all_lua outs'))"
    by (simp add: handled_def example_rounds_def round_data_def outs')
  have lossless: "lossless outs' (handled example_rounds 0 1)"
    unfolding handled by (rule lossless_unpadded)
  have iteration: "map_of (example_iteration m) = m \<and> distinct (map fst (example_iteration m))"
    if "dom m = (ne_key \<circ> fst) ` set (all_native outs')" for m
    using that ne by (intro example_iteration_ok) (simp add: outs' outs all_native_def)
  have tids: "card (sampled_tids (rodata example_args) [Sample example_sample]) \<le> MAX_ENTRIES"
    by (simp add: tids MAX_ENTRIES_def)
  have "\<exists>folded. profile (\<lambda>ip. Some (''f'', 0)) example_args (Some example_unwinder) example_iteration
      example_rounds 0 = Some folded \<and>
    (\<forall>s. folded s =
       (let c = length (filter (\<lambda>out. output_line (\<lambda>ip. Some (''f'', 0)) ?att (include_native_stacks example_args) out = Some s) outs')
        in if c = 0 then None else Some (of_nat c)))"
    by (rule profile_counts_samples [OF h _ _ tids _ run _ _ _ _ lossless iteration, where att = ?att])
       (auto simp: initial_state_def alist_helpers_def samples_of_def buffers_ok_def
         last_round_def time_up_def example_rounds_def answers_def example_unwinder_def example_args_def default_args_def)
  then show ?thesis using line by (auto simp: outs' outs)
qed

end
