(* ===== verification/CallChain.thy ===== *)
theory CallChain
  imports StackWalk StackFold
begin

text \<open>
  What a folded Lua stack says: the call chain of a Lua state, outermost function first. The chain and
  the labels are specified over the target's memory alone; the events that carry them from the BPF
  program (bpf/profile.bpf.c) to the folding (src/main.rs) do not appear.
\<close>

section \<open>The call chain of a Lua state\<close>

text \<open>The frames from \<open>f\<close> on, by following the links.\<close>

function frame_chain :: "probe \<Rightarrow> walk_env \<Rightarrow> u64 \<Rightarrow> u64 list" where
  "frame_chain rd env f =
     (if frame_ok rd env f
      then f # (case walk_next rd (we_bot env) f of None \<Rightarrow> [] | Some g \<Rightarrow> frame_chain rd env g)
      else [])"
  by pat_completeness auto
termination
  by (relation "measure (\<lambda>(rd, env, f). unat f)") (auto simp: walk_next_Some_iff simp flip: word_less_nat_alt)

declare frame_chain.simps [simp del]

lemma frame_chain_complete: "complete_chain rd env f (frame_chain rd env f)"
proof (induction rd env f rule: frame_chain.induct)
  case (1 rd env f)
  show ?case
  proof (cases "frame_ok rd env f")
    case False
    then show ?thesis by (subst frame_chain.simps) (simp add: chain_end)
  next
    case True
    show ?thesis
    proof (cases "walk_next rd (we_bot env) f")
      case None
      then show ?thesis
        using True by (subst frame_chain.simps) (simp add: chain_last frame_step_eq)
    next
      case (Some g)
      then show ?thesis
        using True "1.IH" by (subst frame_chain.simps) (auto intro: chain_step simp: frame_step_eq)
    qed
  qed
qed

text \<open>The label of a function: its chunk and line, its address, or its number.\<close>

definition chunk_name :: "probe \<Rightarrow> str_probe \<Rightarrow> u64 \<Rightarrow> string" where
  "chunk_name rd rdstr pt =
     (let str = rd_u64 rd (field_addr GCproto_t ''chunkname'' pt) AND LJ_GCVMASK in
      if str = 0 then []
      else from_utf8_lossy (takeWhile (\<lambda>b. b \<noteq> 0) (rdstr (str + of_nat (sizeof GCstr_t)) CHUNKNAME_LEN)))"

definition call_line :: "probe \<Rightarrow> u64 \<Rightarrow> u64 \<Rightarrow> u32" where
  "call_line rd fn prev =
     (let pt = funcproto rd fn; pc = get_frame_pc rd fn prev; line = get_lua_line rd pt pc in
      if pc \<noteq> NO_BCPOS \<and> 0 \<le>s line then line
      else rd_u32 rd (field_addr GCproto_t ''firstline'' pt))"

definition frame_label ::
    "probe \<Rightarrow> str_probe \<Rightarrow> u64 \<Rightarrow> u64 \<Rightarrow> bool \<Rightarrow> string option" where
  "frame_label rd rdstr fn prev compiled =
     (let ffid = rd_u8 rd (field_addr GCfuncC_t ''ffid'' fn) in
      if ffid = FF_LUA then
        (if funcproto rd fn = 0 then None
         else let tag = (if compiled then ''JIT:'' else ''L:'');
                  chunk = strip_chunkname (chunk_name rd rdstr (funcproto rd fn));
                  line = call_line rd fn prev
              in if 0 <s line then Some (tag @ chunk @ '':'' @ dec_str (unat line))
                 else if chunk \<noteq> [] then Some (tag @ chunk) else None)
      else if ffid = FF_C then
        Some (''C:'' @ alt_hex (unat (rd_u64 rd (field_addr GCfuncC_t ''f'' fn))))
      else Some (''builtin#'' @ dec_str (unat ffid)))"

text \<open>The labels of a chain, topmost first; only the topmost function can run compiled code.\<close>

fun chain_labels ::
    "probe \<Rightarrow> str_probe \<Rightarrow> walk_env \<Rightarrow> bool \<Rightarrow> u64 \<Rightarrow> u64 list \<Rightarrow> string list" where
  "chain_labels rd rdstr env topmost prev [] = []"
| "chain_labels rd rdstr env topmost prev (f # fs) =
     (if reported rd env f
      then (case frame_label rd rdstr (frame_gc rd f) prev (we_jit env \<and> topmost) of
              None \<Rightarrow> chain_labels rd rdstr env False f fs
            | Some l \<Rightarrow> l # chain_labels rd rdstr env False f fs)
      else chain_labels rd rdstr env topmost f fs)"

definition stack_line :: "string list \<Rightarrow> string option" where
  "stack_line labels = (if labels = [] then None else Some (join '';'' labels))"

definition state_line :: "probe \<Rightarrow> str_probe \<Rightarrow> u64 \<Rightarrow> string option" where
  "state_line rd rdstr L =
     (case walk_start rd L default_key of
        None \<Rightarrow> None
      | Some (env, f) \<Rightarrow>
          stack_line (rev (chain_labels rd rdstr env True 0 (take MAX_LUA_DEPTH (frame_chain rd env f)))))"

section \<open>Labels of events\<close>

text \<open>\<open>bpf_probe_read_user_str\<close> ends what it writes with a NUL.\<close>

definition str_terminated :: "str_probe \<Rightarrow> bool" where
  "str_terminated rdstr \<longleftrightarrow> (\<forall>a n. 0 < n \<longrightarrow> rdstr a n = [] \<or> 0 \<in> set (rdstr a n))"

lemma overlaid_name:
  assumes "str_terminated rdstr" and "length ns = CHUNKNAME_LEN"
  shows "takeWhile (\<lambda>b. b \<noteq> 0) (overlay (rdstr a CHUNKNAME_LEN) (ns[0 := 0])) =
         takeWhile (\<lambda>b. b \<noteq> 0) (rdstr a CHUNKNAME_LEN)"
proof (cases "rdstr a CHUNKNAME_LEN = []")
  case True
  have "ns \<noteq> []" using assms(2) by (auto simp: CHUNKNAME_LEN_def)
  then show ?thesis using True by (cases ns) simp_all
next
  case False
  have "0 < CHUNKNAME_LEN" by (simp add: CHUNKNAME_LEN_def)
  with False assms(1) have "0 \<in> set (rdstr a CHUNKNAME_LEN)" unfolding str_terminated_def by blast
  then show ?thesis by (simp add: overlay_def takeWhile_append1)
qed

lemma empty_name:
  assumes "length ns = CHUNKNAME_LEN"
  shows "takeWhile (\<lambda>b. b \<noteq> 0) (ns[0 := 0 :: u8]) = []"
  using assms by (cases ns) (simp_all add: CHUNKNAME_LEN_def)

lemma uint_positive: "0 < sint w \<Longrightarrow> uint w = sint w" for w :: u32
proof -
  assume "0 < sint w"
  moreover have "uint w = sint w mod 2 ^ 32"
    using uint_word_of_int [of "sint w", where 'a = 32] by simp
  moreover have "sint w < 2 ^ 31" using sint_lt [of w] by simp
  ultimately show ?thesis by simp
qed

lemma int_str_line: "0 <s (w :: u32) \<Longrightarrow> int_str (sint w) = dec_str (unat w)"
  using uint_positive [of w] by (simp add: word_sless_alt int_str_def flip: nat_uint_eq)

lemma int_str_small: "int_str (sint (ucast (w :: u8) :: i32)) = dec_str (unat w)"
proof -
  have "uint w < 256" using unsigned_less [of w, where 'a = int] by simp
  then have "signed_take_bit 31 (uint w) = uint w"
    by (intro signed_take_bit_int_eq_self) (auto intro: order_trans [of _ 0])
  then have "sint (ucast w :: i32) = uint w" by (simp add: sint_uint uint_up_ucast is_up)
  then show ?thesis by (simp add: int_str_def flip: nat_uint_eq)
qed

section \<open>Events of a chain\<close>

lemma emit_lua_label:
  assumes "emit_lua rd rdstr fc (Some e0) = (buf, ev)" and "str_terminated rdstr" and "wf_lua e0"
  shows "Option.bind ev format_lua_frame = frame_label rd rdstr (fc_gco fc) (fc_prev fc) (fc_jit_top fc)"
proof -
  let ?ffid = "rd_u8 rd (field_addr GCfuncC_t ''ffid'' (fc_gco fc))"
  have len: "length (le_name e0) = CHUNKNAME_LEN" using assms(3) by (simp add: wf_lua_def)
  consider (lua) "?ffid = FF_LUA" | (c) "?ffid \<noteq> FF_LUA" "?ffid = FF_C" | (fast) "?ffid \<noteq> FF_LUA" "?ffid \<noteq> FF_C"
    by blast
  then show ?thesis
  proof cases
    case lua
    show ?thesis
    proof (cases "funcproto rd (fc_gco fc) = 0")
      case True
      with lua assms(1) show ?thesis by (simp add: emit_lua_def frame_label_def Let_def)
    next
      case False
      let ?pt = "funcproto rd (fc_gco fc)"
      obtain e where ev: "ev = Some e"
        and type: "le_type e = (if fc_jit_top fc then FUNC_TYPE_JIT else FUNC_TYPE_LUA)"
        and line: "le_line e = call_line rd (fc_gco fc) (fc_prev fc)"
        and name: "le_name e =
          (let str = rd_u64 rd (field_addr GCproto_t ''chunkname'' ?pt) AND LJ_GCVMASK
           in if str \<noteq> 0 then overlay (rdstr (str + of_nat (sizeof GCstr_t)) CHUNKNAME_LEN) ((le_name e0)[0 := 0])
              else (le_name e0)[0 := 0])"
        using lua False assms(1) by (auto simp: emit_lua_def Let_def call_line_def)
      have "name_str e = chunk_name rd rdstr ?pt"
        using overlaid_name [OF assms(2) len] empty_name [OF len]
        by (simp add: name_str_def name chunk_name_def Let_def from_utf8_lossy_def)
      then show ?thesis
        using lua False ev type line func_types_distinct
        by (simp add: format_lua_frame_def frame_label_def named_frame_def Let_def int_str_line)
    qed
  next
    case c
    with assms(1) show ?thesis
      using func_types_distinct
      by (auto simp: emit_lua_def frame_label_def Let_def format_lua_frame_def)
  next
    case fast
    with assms(1) show ?thesis
      using func_types_distinct
      by (auto simp: emit_lua_def frame_label_def Let_def format_lua_frame_def int_str_small)
  qed
qed

lemma emit_lua_keeps_buffer: "emit_lua rd rdstr fc (Some e0) = (buf, ev) \<Longrightarrow> buf \<noteq> None"
  by (auto simp: emit_lua_def Let_def split: if_splits)

lemma emit_chain_labels:
  assumes "str_terminated rdstr" and "str_probe_law rdstr" and "wf_lua e0" and "k + length fs < 2 ^ 32"
  shows "lua_labels (emit_chain rd rdstr env fs prev (of_nat k) (Some e0)) =
         chain_labels rd rdstr env (k = 0) prev fs"
  using assms(3,4)
proof (induction fs arbitrary: prev k e0)
  case (Cons f fs)
  have k: "k + length fs < 2 ^ 32" "Suc k + length fs < 2 ^ 32" using Cons.prems(2) by simp_all
  show ?case
  proof (cases "reported rd env f")
    case False
    with Cons.IH [OF Cons.prems(1) k(1)] show ?thesis by simp
  next
    case True
    let ?fc = "\<lparr>fc_gco = frame_gc rd f, fc_prev = prev, fc_key = we_key env, fc_level = of_nat k,
                fc_jit_top = (we_jit env \<and> (of_nat k :: i32) = 0)\<rparr>"
    obtain buf ev where e: "emit_lua rd rdstr ?fc (Some e0) = (buf, ev)" by fastforce
    then obtain e1 where e1: "buf = Some e1" using emit_lua_keeps_buffer by blast
    then have "wf_lua e1" using emit_lua_wf [OF e assms(2)] Cons.prems(1) by blast
    note IH = Cons.IH [OF this k(2)]
    have "(of_nat k :: i32) = 0 \<longleftrightarrow> k = 0"
      using k(1) nat_dvd_not_less [of k "2 ^ 32"] by (auto simp: word_of_nat_eq_0_iff)
    then have "Option.bind ev format_lua_frame =
        frame_label rd rdstr (frame_gc rd f) prev (we_jit env \<and> k = 0)"
      using emit_lua_label [OF e assms(1) Cons.prems(1)] by simp
    with IH e e1 True show ?thesis
      by (cases ev) (auto simp: add.commute split: option.split)
  qed
qed simp

section \<open>The folded line of a walk\<close>

text \<open>Of the sample's key the walk only copies.\<close>

lemma walk_start_key:
  "walk_start rd L key = map_option (\<lambda>(env, f). (env\<lparr>we_key := key\<rparr>, f)) (walk_start rd L key')"
  by (simp add: walk_start_def Let_def)

lemma frame_ok_key [simp]: "frame_ok rd (env\<lparr>we_key := key\<rparr>) f = frame_ok rd env f"
  by (simp add: frame_ok_def)

lemma reported_key [simp]: "reported rd (env\<lparr>we_key := key\<rparr>) f = reported rd env f"
  by (simp add: reported_def)

lemma frame_chain_key: "frame_chain rd (env\<lparr>we_key := key\<rparr>) f = frame_chain rd env f"
proof (induction rd env f rule: frame_chain.induct)
  case (1 rd env f)
  then show ?case
    by (subst (1 2) frame_chain.simps) (auto split: option.split)
qed

lemma chain_labels_key:
  "chain_labels rd rdstr (env\<lparr>we_key := key\<rparr>) topmost prev fs = chain_labels rd rdstr env topmost prev fs"
  by (induction fs arbitrary: topmost prev) (auto split: option.split)

lemma lua_labels_append: "lua_labels (es @ fs) = lua_labels es @ lua_labels fs"
  by (induction es) (auto split: option.split)

lemma lua_labels_rev: "lua_labels (rev es) = rev (lua_labels es)"
  by (induction es) (auto simp: lua_labels_append split: option.split)

lemma sint_level: "unat l < 2 ^ 31 \<Longrightarrow> sint l = int (unat l)" for l :: i32
proof -
  assume "unat l < 2 ^ 31"
  then have "uint l < 2 ^ 31"
    using of_nat_less_iff [of "unat l" "2 ^ 31", where 'a = int] by simp
  then have "signed_take_bit 31 (uint l) = uint l"
    by (intro signed_take_bit_int_eq_self) (auto intro: order_trans [of _ 0])
  then show ?thesis by (simp add: sint_uint)
qed

lemma walk_by_level:
  assumes "str_probe_law rdstr" and "\<And>e. buf = Some e \<Longrightarrow> wf_lua e"
    and "evs = snd (walk_lua_stack rd rdstr ops states key buf)"
  shows "by_level_desc evs = rev evs"
proof -
  note facts = walk_event_facts [OF assms]
  have s: "sint (le_level e) = int (unat (le_level e))" if "e \<in> set evs" for e
  proof -
    have "unat (le_level e) < 8" using facts that by (simp add: MAX_LUA_DEPTH_def)
    then show ?thesis by (intro sint_level) simp
  qed
  have "sorted_wrt (\<lambda>e e'. unat (le_level e) < unat (le_level e')) evs" using facts by blast
  then have "sorted_wrt (\<lambda>e e'. sint (le_level e) < sint (le_level e')) evs"
    by (rule sorted_wrt_mono_rel [rotated]) (simp only: s of_nat_less_iff)
  then show ?thesis by (rule by_level_desc_ascending)
qed

lemma walk_state_line:
  assumes "str_terminated rdstr" and "str_probe_law rdstr" and "wf_lua e0"
    and "map_lookup ops states (sk_tid key) = Some slot" and "slot_ptr slot \<noteq> 0"
  shows "stack_line (lua_labels (by_level_desc (snd (walk_lua_stack rd rdstr ops states key (Some e0))))) =
         state_line rd rdstr (slot_ptr slot)"
proof -
  let ?evs = "snd (walk_lua_stack rd rdstr ops states key (Some e0))"
  have desc: "by_level_desc ?evs = rev ?evs"
    using walk_by_level [OF assms(2) _ refl, of "Some e0"] assms(3) by simp
  show ?thesis
  proof (cases "walk_start rd (slot_ptr slot) default_key")
    case None
    then have "?evs = []"
      using assms(4,5) walk_start_key [of rd "slot_ptr slot" key default_key]
      by (simp add: walk_lua_stack_def)
    then show ?thesis
      using None by (simp add: state_line_def stack_line_def by_level_desc_def)
  next
    case (Some p)
    obtain env f where p: "p = (env, f)" by (cases p)
    let ?env = "env\<lparr>we_key := key\<rparr>" and ?fs = "take MAX_LUA_DEPTH (frame_chain rd env f)"
    have start: "walk_start rd (slot_ptr slot) key = Some (?env, f)"
      using Some p walk_start_key [of rd "slot_ptr slot" key default_key] by simp
    have "complete_chain rd ?env f (frame_chain rd env f)"
      using frame_chain_complete [of rd ?env f] by (simp add: frame_chain_key)
    from walk_lua_stack_chain [OF assms(4,5) start this]
    have evs: "?evs = emit_chain rd rdstr ?env ?fs 0 0 (Some e0)" by simp
    have "0 + length ?fs < 2 ^ 32" by (simp add: MAX_LUA_DEPTH_def)
    from emit_chain_labels [OF assms(1-3) this, of rd ?env 0]
    have "lua_labels ?evs = chain_labels rd rdstr env True 0 ?fs"
      by (simp add: evs chain_labels_key)
    then show ?thesis
      using Some p by (simp add: desc lua_labels_rev state_line_def)
  qed
qed

text \<open>The scratch event stays available.\<close>

lemma walk_loop_keeps_buffer:
  "w_buf s \<noteq> None \<Longrightarrow> w_buf (walk_loop n rd rdstr env s) \<noteq> None"
proof (induction n arbitrary: s)
  case (Suc n)
  have emit: "w_buf (walk_emit rd rdstr env s) \<noteq> None"
    using Suc.prems emit_lua_keeps_buffer by (auto simp: walk_emit_def Let_def split: prod.splits)
  have "w_buf (fst (walk_body rd rdstr env s)) \<noteq> None"
    using emit Suc.prems by (auto simp: walk_body_eq visit_def split: option.split)
  with Suc.IH Suc.prems show ?case by (auto split: prod.split)
qed simp

lemma walk_keeps_buffer:
  "buf \<noteq> None \<Longrightarrow> fst (walk_lua_stack rd rdstr ops states key buf) \<noteq> None"
  using walk_loop_keeps_buffer by (auto simp: walk_lua_stack_def Let_def split: option.split)

section \<open>The numbers of the events\<close>

text \<open>
  The functions a sample of a thread walks over, topmost first; the type of a function's events and
  whether it has one: a Lua function's prototype can be null.
\<close>

definition walked_functions ::
    "probe \<Rightarrow> ('m, lua_state_slot) map_ops \<Rightarrow> 'm \<Rightarrow> sample_key \<Rightarrow> u64 list" where
  "walked_functions rd ops states key =
     (case map_lookup ops states (sk_tid key) of
        None \<Rightarrow> []
      | Some slot \<Rightarrow>
          if slot_ptr slot = 0 then []
          else (case walk_start rd (slot_ptr slot) key of
                  None \<Rightarrow> []
                | Some (env, f) \<Rightarrow>
                    map (frame_gc rd) (filter (reported rd env) (take MAX_LUA_DEPTH (frame_chain rd env f)))))"

definition function_type :: "probe \<Rightarrow> u64 \<Rightarrow> i32" where
  "function_type rd fn =
     (let ffid = rd_u8 rd (field_addr GCfuncC_t ''ffid'' fn) in
      if ffid = FF_LUA then FUNC_TYPE_LUA else if ffid = FF_C then FUNC_TYPE_C else FUNC_TYPE_F)"

definition has_event :: "probe \<Rightarrow> u64 \<Rightarrow> bool" where
  "has_event rd fn \<longleftrightarrow> rd_u8 rd (field_addr GCfuncC_t ''ffid'' fn) = FF_LUA \<longrightarrow> funcproto rd fn \<noteq> 0"

definition event_tag :: "lua_stack_event \<Rightarrow> sample_key \<times> nat \<times> i32" where
  "event_tag e = (le_key e, unat (le_level e),
     (if le_type e = FUNC_TYPE_JIT then FUNC_TYPE_LUA else le_type e))"

lemma emit_lua_tag:
  assumes "emit_lua rd rdstr fc (Some e0) = (buf, ev)"
  shows "map_option event_tag ev =
           (if has_event rd (fc_gco fc)
            then Some (fc_key fc, unat (fc_level fc), function_type rd (fc_gco fc)) else None)"
proof -
  have ev: "ev = snd (emit_lua rd rdstr fc (Some e0))" using assms by simp
  show ?thesis
    unfolding ev emit_lua_def has_event_def function_type_def event_tag_def Let_def
    using func_types_distinct by simp
qed

lemma emit_chain_tags:
  assumes "k + length fs < 2 ^ 32"
  shows "map event_tag (emit_chain rd rdstr env fs prev (of_nat k) (Some e0)) =
         map (\<lambda>(k, fn). (we_key env, k, function_type rd fn))
           (filter (\<lambda>(k, fn). has_event rd fn)
             (enumerate k (map (frame_gc rd) (filter (reported rd env) fs))))"
  using assms
proof (induction fs arbitrary: prev k e0)
  case (Cons f fs)
  have k: "k + length fs < 2 ^ 32" "Suc k + length fs < 2 ^ 32" using Cons.prems by simp_all
  show ?case
  proof (cases "reported rd env f")
    case False
    with Cons.IH [OF k(1)] show ?thesis by simp
  next
    case True
    let ?fc = "\<lparr>fc_gco = frame_gc rd f, fc_prev = prev, fc_key = we_key env, fc_level = of_nat k,
                fc_jit_top = (we_jit env \<and> (of_nat k :: i32) = 0)\<rparr>"
    obtain buf ev where e: "emit_lua rd rdstr ?fc (Some e0) = (buf, ev)" by fastforce
    then obtain e1 where e1: "buf = Some e1" using emit_lua_keeps_buffer by blast
    have "unat (of_nat k :: i32) = k" using k(1) by (simp add: unat_of_nat take_bit_nat_eq_self)
    then show ?thesis
      using emit_lua_tag [OF e] Cons.IH [OF k(2), of f e1] e e1 True
      by (cases ev) (auto simp: add.commute split: if_splits)
  qed
qed simp

lemma emit_chain_no_buffer: "emit_chain rd rdstr env fs prev out None = []"
  by (induction fs arbitrary: prev out) (simp_all add: emit_lua_def Let_def)

text \<open>
  C33. The events of a sample are numbered by function, from the top of the stack and at most
  \<open>MAX_LUA_DEPTH\<close> of them, whatever the memory holds: each function the walk counts has its place as
  the level of its event and its kind as the event's type, and a Lua function whose prototype is null
  has a place but no event, so the levels skip exactly those. Every event carries the sample's key and
  is well-formed, and only the event of level 0 may say that the function runs on a JIT trace. Without
  a scratch event there are none.
\<close>

theorem walk_events_numbered:
  assumes "str_probe_law rdstr" and "\<And>e. buf = Some e \<Longrightarrow> wf_lua e"
    and "evs = snd (walk_lua_stack rd rdstr ops states key buf)"
    and "fns = walked_functions rd ops states key"
  shows "length fns \<le> MAX_LUA_DEPTH \<and>
    map event_tag evs =
      (if buf = None then []
       else map (\<lambda>(k, fn). (key, k, function_type rd fn)) (filter (\<lambda>(k, fn). has_event rd fn) (enumerate 0 fns))) \<and>
    (\<forall>e \<in> set evs. wf_lua e \<and> (le_type e = FUNC_TYPE_JIT \<longrightarrow> le_level e = 0))"
proof -
  have "length fns \<le> MAX_LUA_DEPTH"
    unfolding assms(4) walked_functions_def
    by (auto split: option.split intro: order_trans [OF length_filter_le])
  moreover have "map event_tag evs =
      (if buf = None then []
       else map (\<lambda>(k, fn). (key, k, function_type rd fn)) (filter (\<lambda>(k, fn). has_event rd fn) (enumerate 0 fns)))"
  proof (cases "\<exists>slot env f. map_lookup ops states (sk_tid key) = Some slot \<and> slot_ptr slot \<noteq> 0 \<and>
                  walk_start rd (slot_ptr slot) key = Some (env, f)")
    case True
    then obtain slot env f where w: "map_lookup ops states (sk_tid key) = Some slot" "slot_ptr slot \<noteq> 0"
        "walk_start rd (slot_ptr slot) key = Some (env, f)" by blast
    have key: "we_key env = key"
      using w(3) by (auto simp: walk_start_def Let_def split: if_splits)
    have "0 + length (take MAX_LUA_DEPTH (frame_chain rd env f)) < 2 ^ 32" by (simp add: MAX_LUA_DEPTH_def)
    from emit_chain_tags [OF this, of rd rdstr env 0] walk_lua_stack_chain [OF w frame_chain_complete]
    show ?thesis
      using w key by (cases buf) (simp_all add: assms(3,4) walked_functions_def emit_chain_no_buffer)
  next
    case False
    then have "evs = [] \<and> fns = []"
      by (auto simp: assms(3,4) walk_lua_stack_def walked_functions_def split: option.split)
    then show ?thesis by simp
  qed
  ultimately show ?thesis using walk_event_facts [OF assms(1-3)] by blast
qed

section \<open>The line of the concrete stack\<close>

definition ex_names :: str_probe where
  "ex_names a n = (if a = 0x60018 \<and> 3 \<le> n then [0x40, 0x61, 0] else [])"

lemma ex_names_laws: "str_probe_law ex_names" "str_terminated ex_names"
  by (simp_all add: str_probe_law_def str_terminated_def ex_names_def)

lemma ex_label: "state_line ex_rd ex_names 0x5000 = Some ''JIT:a:10''"
proof -
  let ?env = "ex_env\<lparr>we_key := default_key\<rparr>"
  have start: "walk_start ex_rd 0x5000 default_key = Some (?env, 0x8020)"
    using walk_start_key [of ex_rd "0x5000" default_key ex_key] ex_walk_start by simp
  have "frame_chain ex_rd ex_env 0x8020 = [0x8020, 0x8010]"
    using complete_chain_unique [OF frame_chain_complete ex_chain] .
  then have chain: "take MAX_LUA_DEPTH (frame_chain ex_rd ?env 0x8020) = [0x8020, 0x8010]"
    by (simp add: frame_chain_key MAX_LUA_DEPTH_def)
  have fn: "frame_gc ex_rd 0x8020 = 0x30000" "funcproto ex_rd 0x30000 = 0x10000"
    using ex_reads by (simp_all add: walk_eval funcproto_def)
  have line: "call_line ex_rd 0x30000 0 = 10"
    using ex_reads fn by (simp add: call_line_def get_frame_pc_def field_addr_def lua_offsets Let_def)
  have "chunk_name ex_rd ex_names 0x10000 = ''@a''"
  proof -
    have "valid_utf8 [0x40, 0x61]" by (rule valid_ascii) simp
    moreover have chars: "str_of [0x40, 0x61] = ''@a''" by code_simp
    ultimately have "from_utf8_lossy [0x40, 0x61] = ''@a''"
      by (simp add: from_utf8_lossy_def utf8_lossy_valid)
    then show ?thesis
      using ex_reads
      by (simp add: chunk_name_def walk_eval lua_sizes ex_names_def CHUNKNAME_LEN_def)
  qed
  then have "frame_label ex_rd ex_names 0x30000 0 True = Some ''JIT:a:10''"
    using ex_reads fn line
    by (simp add: frame_label_def walk_eval strip_chunkname_def strip_prefix_def nul_def after_last_none
        text_simps word_sless_alt dec_str_def radix_str.simps digit_char_def)
  moreover have "we_jit ex_env" by (simp add: ex_env_def)
  ultimately have "chain_labels ex_rd ex_names ex_env True 0 [0x8020, 0x8010] = [''JIT:a:10'']"
    using ex_frames_ok(4,5) fn(1) by simp
  then show ?thesis
    unfolding state_line_def start option.case prod.case chain chain_labels_key
    by (simp add: stack_line_def text_simps)
qed

text \<open>The concrete stack: one function, on a trace, at level 0.\<close>

lemma walk_events_numbered_witness:
  "map event_tag (snd (walk_lua_stack ex_rd ex_names (alist_ops 4) ex_states ex_key (Some default_lua))) =
     [(ex_key, 0, FUNC_TYPE_LUA)]"
proof -
  have "wf_lua default_lua" by (simp add: wf_lua_def default_lua_def)
  have "frame_chain ex_rd ex_env 0x8020 = [0x8020, 0x8010]"
    using complete_chain_unique [OF frame_chain_complete ex_chain] .
  then have fns: "walked_functions ex_rd (alist_ops 4) ex_states ex_key = [0x30000]"
    using ex_lookup ex_walk_start ex_frames_ok(4,5) ex_reads
    by (simp add: walked_functions_def MAX_LUA_DEPTH_def frame_gc_def lua_consts)
  have "has_event ex_rd 0x30000" "function_type ex_rd 0x30000 = FUNC_TYPE_LUA"
    using ex_reads by (simp_all add: has_event_def function_type_def walk_eval funcproto_def)
  with walk_events_numbered [OF ex_names_laws(1) _ refl fns [symmetric], of "Some default_lua"]
    \<open>wf_lua default_lua\<close>
  show ?thesis by simp
qed

end
