(* ===== verification/LuaProfile.thy ===== *)
theory LuaProfile
  imports EndToEnd CallChain
begin

text \<open>
  The meaning of a Lua profile: with the default options, the counts a session writes are those of the
  call chains the target's threads were in when they were sampled. It joins the probes, the sampler
  and the walk (bpf/profile.bpf.c) with the collection, the labels and the folding (src/main.rs).
\<close>

section \<open>The steps of a run\<close>

lemma bpf_run_length: "bpf_run cfg arch h xs st = (st', outs) \<Longrightarrow> length outs = length xs"
  by (induction xs arbitrary: st outs) (auto split: prod.splits)

lemma bpf_run_nth:
  "bpf_run cfg arch h xs st = (st', outs) \<Longrightarrow> j < length xs \<Longrightarrow>
   outs ! j = snd (bpf_step cfg arch h (xs ! j) (fst (bpf_run cfg arch h (take j xs) st)))"
proof (induction xs arbitrary: st outs j)
  case (Cons x xs)
  obtain st1 out where step: "bpf_step cfg arch h x st = (st1, out)" by fastforce
  obtain outs' where rest: "bpf_run cfg arch h xs st1 = (st', outs')" and outs: "outs = out # outs'"
    using Cons.prems(1) step by (auto split: prod.splits)
  show ?case
  proof (cases j)
    case 0
    then show ?thesis using step outs by simp
  next
    case (Suc k)
    with Cons.IH [OF rest, of k] Cons.prems(2) step outs show ?thesis
      by (simp split: prod.split)
  qed
qed simp

text \<open>The per-CPU scratch events are found at every step.\<close>

definition buffers_present :: "('s, 'q) bpf_state \<Rightarrow> bool" where
  "buffers_present st \<longleftrightarrow> (\<forall>cpu. native_buf st cpu \<noteq> None \<and> lua_event_buf st cpu \<noteq> None)"

lemma bpf_step_present:
  assumes "buffers_present st"
  shows "buffers_present (fst (bpf_step cfg arch h x st))"
proof (cases x)
  case (Probe e)
  with assms show ?thesis by (simp add: buffers_present_def)
next
  case (Sample i)
  show ?thesis
  proof (cases "accepted cfg (in_task i)")
    case False
    with Sample assms show ?thesis by (simp add: do_perf_event_rejected)
  next
    case True
    obtain seqs seq where s: "next_seq (seq_ops h) (tid_of (in_task i)) (seq_map st) = (seqs, seq)"
      by fastforce
    let ?key = "sample_key_of (in_task i) seq"
    obtain st1 native where n: "sample_native_part cfg arch i ?key (st\<lparr>seq_map := seqs\<rparr>) = (st1, native)"
      by fastforce
    obtain st2 lua where l: "sample_lua_part cfg (states_ops h) i ?key st1 = (st2, lua)" by fastforce
    have "buffers_present st1"
      using n assms
      by (auto simp: sample_native_part_def buffers_present_def split: if_splits prod.splits option.splits)
    moreover obtain buf evs where w: "walk_lua_stack (in_read i) (in_read_str i) (states_ops h) (lua_states st1)
        ?key (lua_event_buf st1 (in_cpu i)) = (buf, evs)" by fastforce
    ultimately have "buf \<noteq> None"
      using walk_keeps_buffer [of "lua_event_buf st1 (in_cpu i)" "in_read i" "in_read_str i" "states_ops h"
          "lua_states st1" ?key]
      by (simp add: buffers_present_def)
    with l w \<open>buffers_present st1\<close> have "buffers_present st2"
      by (auto simp: sample_lua_part_def buffers_present_def split: if_splits)
    then show ?thesis using do_perf_event_parts [OF True s n l] Sample by simp
  qed
qed

lemma bpf_run_buffers:
  assumes "\<And>i. Sample i \<in> set xs \<Longrightarrow> sample_law i" and "buffers_ok st" and "buffers_present st"
  shows "buffers_ok (fst (bpf_run cfg arch h xs st)) \<and> buffers_present (fst (bpf_run cfg arch h xs st))"
  using assms
proof (induction xs arbitrary: st)
  case (Cons x xs)
  obtain st1 out where step: "bpf_step cfg arch h x st = (st1, out)" by fastforce
  have "buffers_ok st1" using bpf_step_buffers [OF _ Cons.prems(2) step] Cons.prems(1) by auto
  moreover have "buffers_present st1" using bpf_step_present [OF Cons.prems(3)] step by (metis fst_conv)
  ultimately show ?case using Cons.IH [of st1] Cons.prems(1) step by (auto split: prod.split)
qed simp

section \<open>The line of a step\<close>

text \<open>
  The state a thread runs after a prefix of the run: the one entered last, while a call is open. The
  line of a step is the chain of the sampled thread's state, and none without one.
\<close>

definition running_state :: "config \<Rightarrow> arch \<Rightarrow> bpf_action list \<Rightarrow> u32 \<Rightarrow> u64 option" where
  "running_state cfg arch xs tid =
     (let s = spec_run cfg arch tid (probes_of xs) no_calls
      in if calls s = 0 then None else Some (last_entered s))"

definition chain_line :: "config \<Rightarrow> arch \<Rightarrow> bpf_action list \<Rightarrow> nat \<Rightarrow> string option" where
  "chain_line cfg arch xs j =
     (case xs ! j of
        Probe e \<Rightarrow> None
      | Sample i \<Rightarrow>
          if accepted cfg (in_task i)
          then Option.bind (running_state cfg arch (take j xs) (tid_of (in_task i)))
                 (state_line (in_read i) (in_read_str i))
          else None)"

lemma sample_output_line:
  assumes "accepted cfg (in_task i)" and "sample_law i" and "str_terminated (in_read_str i)"
    and "buffers_ok st" and "buffers_present st"
    and "\<not> kernel_stacks_only cfg" and "\<not> disable_lua_user_trace cfg"
    and "do_perf_event cfg arch h i st = (st', out)"
  shows "output_line symb att False out =
    (case map_lookup (states_ops h) (lua_states st) (tid_of (in_task i)) of
       None \<Rightarrow> None
     | Some slot \<Rightarrow>
         if slot_ptr slot = 0 then None else state_line (in_read i) (in_read_str i) (slot_ptr slot))"
proof -
  obtain seqs seq where seq: "next_seq (seq_ops h) (tid_of (in_task i)) (seq_map st) = (seqs, seq)"
    by fastforce
  let ?key = "sample_key_of (in_task i) seq"
  note parts = do_perf_event_accepted [OF assms(1) seq assms(8)]
  obtain ne0 e0 where bufs: "native_buf st (in_cpu i) = Some ne0" "lua_event_buf st (in_cpu i) = Some e0"
    using assms(5) unfolding buffers_present_def by blast
  let ?evs = "snd (walk_lua_stack (in_read i) (in_read_str i) (states_ops h) (lua_states st) ?key (Some e0))"
  have evs: "lua_events_out out = ?evs" using parts(3) assms(7) bufs(2) by simp
  have "native_events out = [sample_native cfg arch i ?key ne0]"
    using parts(4) assms(6) bufs(1) by simp
  then have line: "output_line symb att False out = stack_line (lua_labels (by_level_desc ?evs))"
    by (simp add: output_line_def evs lua_only_stack stack_line_def Let_def case_prod_beta)
  have wf: "wf_lua e0" using assms(4) bufs(2) by (auto simp: buffers_ok_def)
  have law: "str_probe_law (in_read_str i)" using assms(2) by (simp add: sample_law_def)
  have tid: "sk_tid ?key = tid_of (in_task i)" by (simp add: sample_key_of_def)
  show ?thesis
  proof (cases "map_lookup (states_ops h) (lua_states st) (tid_of (in_task i))")
    case None
    then have "?evs = []" using tid by (simp add: walk_lua_stack_def)
    with None show ?thesis by (simp add: line stack_line_def by_level_desc_def)
  next
    case (Some slot)
    show ?thesis
    proof (cases "slot_ptr slot = 0")
      case True
      with Some have "?evs = []" using tid by (simp add: walk_lua_stack_def)
      with Some True show ?thesis by (simp add: line stack_line_def by_level_desc_def)
    next
      case False
      from walk_state_line [OF assms(3) law wf _ False, of "states_ops h" "lua_states st" ?key] Some False tid
      show ?thesis by (simp add: line)
    qed
  qed
qed

text \<open>Prefixes of a run stay within its bounds.\<close>

lemma probes_of_take: "\<exists>es. probes_of xs = probes_of (take j xs) @ es"
  by (metis append_take_drop_id probes_of_append)

lemma spec_peak_append: "spec_peak cfg arch tid es s \<le> spec_peak cfg arch tid (es @ fs) s"
  by (induction es arbitrary: s) (auto simp: calls_le_peak intro: le_max_iff_disj [THEN iffD2])

lemma tracked_before_step:
  fixes j :: nat
  assumes "hash_map (states_ops h) MAX_ENTRIES invar" and "invar (lua_states st)"
    and "map_lookup (states_ops h) (lua_states st) = Map.empty"
    and "card ((\<lambda>e. tid_of (probe_id e)) ` set (probes_of xs)) < MAX_ENTRIES"
    and "spec_peak cfg arch tid (probes_of xs) no_calls \<le> 0xffff"
  defines "states \<equiv> probe_run cfg arch (states_ops h) (probes_of (take j xs)) (lua_states st)"
  shows "represents (map_lookup (states_ops h) states tid)
           (spec_run cfg arch tid (probes_of (take j xs)) no_calls)"
    and "slots_ok (states_ops h) states"
proof -
  let ?tids = "\<lambda>es. (\<lambda>e. tid_of (probe_id e)) ` set es"
  obtain es where es: "probes_of xs = probes_of (take j xs) @ es" using probes_of_take by blast
  then have "card (?tids (probes_of (take j xs))) \<le> card (?tids (probes_of xs))"
    by (intro card_mono) auto
  moreover have "spec_peak cfg arch tid (probes_of (take j xs)) no_calls \<le> 0xffff"
    using assms(5) spec_peak_append [of cfg arch tid "probes_of (take j xs)" no_calls es] by (simp add: es)
  ultimately show "represents (map_lookup (states_ops h) states tid)
      (spec_run cfg arch tid (probes_of (take j xs)) no_calls)"
    unfolding states_def by (intro probe_run_from_empty [OF assms(1-3)]) (use assms(4) in linarith)+
  have "lua_states_map (states_ops h) MAX_ENTRIES invar" using assms(1) by (simp add: lua_states_map_def)
  then show "slots_ok (states_ops h) states"
    unfolding states_def slots_ok_def
    using assms(2,3) lua_states_map.probe_run_slots_ok [of "states_ops h" MAX_ENTRIES invar "lua_states st"]
    by (simp add: slots_ok_def)
qed

lemma step_output_line:
  assumes "hash_map (states_ops h) MAX_ENTRIES invar" and "invar (lua_states st)"
    and "map_lookup (states_ops h) (lua_states st) = Map.empty"
    and "card ((\<lambda>e. tid_of (probe_id e)) ` set (probes_of xs)) < MAX_ENTRIES"
    and "\<And>tid. spec_peak cfg arch tid (probes_of xs) no_calls \<le> 0xffff"
    and "\<And>i. Sample i \<in> set xs \<Longrightarrow> sample_law i \<and> str_terminated (in_read_str i)"
    and "buffers_ok st" and "buffers_present st"
    and "\<not> kernel_stacks_only cfg" and "\<not> disable_lua_user_trace cfg"
    and "bpf_run cfg arch h xs st = (st', outs)" and "j < length xs"
  shows "output_line symb att False (outs ! j) = chain_line cfg arch xs j"
proof (cases "xs ! j")
  case (Probe e)
  then show ?thesis
    using bpf_run_nth [OF assms(11,12)]
    by (simp add: chain_line_def output_line_def no_output_def)
next
  case (Sample i)
  let ?st = "fst (bpf_run cfg arch h (take j xs) st)" and ?tid = "tid_of (in_task i)"
  have out: "outs ! j = snd (do_perf_event cfg arch h i ?st)"
    using bpf_run_nth [OF assms(11,12)] Sample by simp
  have i: "sample_law i" "str_terminated (in_read_str i)"
    using assms(6,12) Sample by (metis nth_mem)+
  show ?thesis
  proof (cases "accepted cfg (in_task i)")
    case False
    then show ?thesis
      by (simp add: out do_perf_event_rejected chain_line_def Sample output_line_def no_output_def)
  next
    case True
    have tracked:
      "represents (map_lookup (states_ops h) (probe_run cfg arch (states_ops h) (probes_of (take j xs))
         (lua_states st)) ?tid) (spec_run cfg arch ?tid (probes_of (take j xs)) no_calls)"
      "slots_ok (states_ops h) (probe_run cfg arch (states_ops h) (probes_of (take j xs)) (lua_states st))"
      by (rule tracked_before_step [OF assms(1-5)])+
    obtain st'' where run: "do_perf_event cfg arch h i ?st = (st'', outs ! j)"
      using out by (metis prod.collapse)
    have "buffers_ok ?st \<and> buffers_present ?st"
      using bpf_run_buffers [of "take j xs" st] assms(6-8) by (meson in_set_takeD)
    then have ok: "buffers_ok ?st" "buffers_present ?st" by simp_all
    show ?thesis
      unfolding sample_output_line [OF True i ok assms(9,10) run] bpf_run_states
      using tracked True
      by (auto simp: chain_line_def Sample running_state_def Let_def represents_def slots_ok_def slot_ok_def
          split: option.splits)
  qed
qed

section \<open>Properties\<close>

lemma filter_steps:
  assumes "length outs = n" and "\<And>j. j < n \<Longrightarrow> P (outs ! j) \<longleftrightarrow> Q j"
  shows "length (filter P outs) = length (filter Q [0..<n])"
proof -
  have "filter P outs = map ((!) outs) (filter (\<lambda>j. P (outs ! j)) [0..<n])"
    using assms(1) by (subst map_nth [of outs, symmetric]) (simp only: filter_map comp_def)
  moreover have "filter (\<lambda>j. P (outs ! j)) [0..<n] = filter Q [0..<n]"
    using assms(2) by (intro filter_cong) simp_all
  ultimately show ?thesis by simp
qed

lemma profile_call_chains:
  assumes "\<not> include_native_stacks a"
    and "hash_map (seq_ops h) MAX_ENTRIES invar_q" and "invar_q (seq_map st)"
    and "map_lookup (seq_ops h) (seq_map st) = Map.empty"
    and "hash_map (states_ops h) MAX_ENTRIES invar_s" and "invar_s (lua_states st)"
    and "map_lookup (states_ops h) (lua_states st) = Map.empty"
    and "card (sampled_tids (rodata a) xs) \<le> MAX_ENTRIES"
    and "\<forall>t. samples_of (rodata a) t xs < 2 ^ 32"
    and "card ((\<lambda>e. tid_of (probe_id e)) ` set (probes_of xs)) < MAX_ENTRIES"
    and "\<And>t. spec_peak (rodata a) arch t (probes_of xs) no_calls \<le> 0xffff"
    and "\<And>i. Sample i \<in> set xs \<Longrightarrow> sample_law i \<and> str_terminated (in_read_str i)"
    and "buffers_ok st" and "buffers_present st"
    and "bpf_run (rodata a) arch h xs st = (st', outs)"
    and "last_round (arg_duration a) (rounds n)"
    and "\<And>j. j < n \<Longrightarrow> \<not> last_round (arg_duration a) (rounds j)"
    and "lossless outs (handled rounds 0 n)"
    and "\<And>m. dom m = (ne_key \<circ> fst) ` set (all_native outs) \<Longrightarrow>
           map_of (iteration m) = m \<and> distinct (map fst (iteration m))"
  shows "\<exists>folded. profile symb a None iteration rounds u = Some folded \<and>
    (\<forall>s. folded s =
       (let c = length (filter (\<lambda>j. chain_line (rodata a) arch xs j = Some s) [0..<length xs])
        in if c = 0 then None else Some (of_nat c)))"
proof -
  have cfg: "\<not> kernel_stacks_only (rodata a)" "\<not> disable_lua_user_trace (rodata a)"
    using assms(1) by (simp_all add: rodata_def default_config_def include_native_stacks_def)
  have lines: "length (filter (\<lambda>out. output_line symb None False out = Some s) outs) =
      length (filter (\<lambda>j. chain_line (rodata a) arch xs j = Some s) [0..<length xs])" for s
    by (rule filter_steps [OF bpf_run_length [OF assms(15)]])
       (simp only: step_output_line [OF assms(5-7,10-14) cfg assms(15)])
  have law: "\<And>i. Sample i \<in> set xs \<Longrightarrow> sample_law i" using assms(12) by blast
  have c: "include_native_stacks a = False" using assms(1) by simp
  from profile_counts [where u = u and symb = symb and unw = None and att = None,
      OF assms(2-4,8,9,15) law assms(13,16-19)]
  show ?thesis unfolding c lines by (simp add: answers_def)
qed

text \<open>
  C1. A Lua profile counts call chains: with the default options, when the perf buffers lose nothing,
  the session that ends after some round gives each line the number of accepted samples at which the
  sampled thread's running Lua state, the one it entered last and has not left, had that call chain,
  outermost function first and the innermost \<open>MAX_LUA_DEPTH\<close> frames at most, read off the target's
  memory. A thread with no open call contributes nothing.
\<close>

theorem profile_names_call_chains:
  assumes "\<not> include_native_stacks a"
    and "hash_map (seq_ops h) MAX_ENTRIES invar_q" and "invar_q (seq_map st)"
    and "map_lookup (seq_ops h) (seq_map st) = Map.empty"
    and "hash_map (states_ops h) MAX_ENTRIES invar_s" and "invar_s (lua_states st)"
    and "map_lookup (states_ops h) (lua_states st) = Map.empty"
    and "card (sampled_tids (rodata a) xs) \<le> MAX_ENTRIES"
    and "\<forall>t. samples_of (rodata a) t xs < 2 ^ 32"
    and "card ((\<lambda>e. tid_of (probe_id e)) ` set (probes_of xs)) < MAX_ENTRIES"
    and "\<And>t. spec_peak (rodata a) arch t (probes_of xs) no_calls \<le> 0xffff"
    and "\<And>i. Sample i \<in> set xs \<Longrightarrow> sample_law i \<and> str_terminated (in_read_str i)"
    and "buffers_ok st" and "buffers_present st"
    and "bpf_run (rodata a) arch h xs st = (st', outs)"
    and "last_round (arg_duration a) (rounds n)"
    and "\<And>j. j < n \<Longrightarrow> \<not> last_round (arg_duration a) (rounds j)"
    and "lossless outs (handled rounds 0 n)"
    and "\<And>m. dom m = (ne_key \<circ> fst) ` set (all_native outs) \<Longrightarrow>
           map_of (iteration m) = m \<and> distinct (map fst (iteration m))"
  shows "\<exists>folded. profile symb a None iteration rounds u = Some folded \<and>
    (\<forall>s. folded s =
       (let c = length (filter (\<lambda>j. chain_line (rodata a) arch xs j = Some s) [0..<length xs])
        in if c = 0 then None else Some (of_nat c)))"
  using assms by (rule profile_call_chains)

section \<open>A concrete profile\<close>

text \<open>The memory that holds known cells, and their probes as its reads.\<close>

fun cells_memory :: "(u64 \<times> u8 list) list \<Rightarrow> user_mem" where
  "cells_memory [] a = None"
| "cells_memory ((c, bs) # cells) a =
     (if unat c \<le> unat a \<and> unat a < unat c + length bs then Some (bs ! (unat a - unat c))
      else cells_memory cells a)"

definition cells_apart :: "u64 \<times> u8 list \<Rightarrow> u64 \<times> u8 list \<Rightarrow> bool" where
  "cells_apart p q \<longleftrightarrow>
     unat (fst p) + length (snd p) \<le> unat (fst q) \<or> unat (fst q) + length (snd q) \<le> unat (fst p)"

lemma cells_memory_at:
  "sorted_wrt cells_apart cells \<Longrightarrow> (c, bs) \<in> set cells \<Longrightarrow> unat c \<le> unat a \<Longrightarrow>
   unat a < unat c + length bs \<Longrightarrow> cells_memory cells a = Some (bs ! (unat a - unat c))"
  by (induction cells) (force simp: cells_apart_def)+

lemma mem_range_nth:
  "length bs = n \<Longrightarrow> (\<And>i. i < n \<Longrightarrow> M (a + of_nat i) = Some (bs ! i)) \<Longrightarrow> mem_range M a n = Some bs"
proof (induction n arbitrary: a bs)
  case (Suc n)
  then obtain b bs' where bs: "bs = b # bs'" by (cases bs) auto
  have "M (a + 1 + of_nat i) = Some (bs' ! i)" if "i < n" for i
    using Suc.prems(2) [of "Suc i"] that by (simp add: bs add.assoc)
  with Suc.IH [of bs' "a + 1"] Suc.prems(1) Suc.prems(2) [of 0] show ?case by (simp add: bs)
qed simp

lemma cells_reads:
  assumes "sorted_wrt cells_apart cells" and "\<forall>(c, bs) \<in> set cells. unat c + length bs \<le> 2 ^ 63"
  shows "reads_from (probe_cells cells) (cells_memory cells)"
  unfolding reads_from_def
proof (intro allI impI)
  fix a n assume "fst (probe_cells cells a n)"
  then obtain bs where c: "map_of cells a = Some bs" "n \<le> length bs"
    by (auto simp: probe_cells_def split: option.splits if_splits)
  then have cell: "(a, bs) \<in> set cells" by (simp add: map_of_SomeD)
  have "cells_memory cells (a + of_nat i) = Some (take n bs ! i)" if i: "i < n" for i
  proof -
    have "unat a + i < 2 ^ 63" using i c(2) assms(2) cell by fastforce
    then have "unat (a + of_nat i) = unat a + i" by (simp add: unat_word_ariths unat_of_nat)
    with cells_memory_at [OF assms(1) cell, of "a + of_nat i"] i c(2) show ?thesis by simp
  qed
  with c(2) have "mem_range (cells_memory cells) a n = Some (take n bs)"
    by (intro mem_range_nth) simp_all
  with c show "mem_range (cells_memory cells) a n = Some (snd (probe_cells cells a n))"
    by (simp add: probe_cells_def)
qed

lemma example_cells_read: "reads_from ex_rd (cells_memory example_stack)"
  by (rule cells_reads) (simp_all add: example_stack_def cells_apart_def)

text \<open>Thread 7 enters a state and is sampled in it; the session is interrupted in the second round.\<close>

definition call_sample :: sample_input where
  "call_sample =
     example_sample\<lparr>in_mem := cells_memory example_stack, in_read := ex_rd, in_read_str := ex_names\<rparr>"

definition call_actions :: "bpf_action list" where
  "call_actions = [Probe (Entry (pid_tgid 3 7) (example_regs 0x5000)), Sample call_sample]"

lemma call_sample_laws: "sample_law call_sample" "str_terminated (in_read_str call_sample)"
  using example_cells_read ex_names_laws
  by (simp_all add: sample_law_def call_sample_def example_sample_def PERF_MAX_STACK_DEPTH_def)

definition call_outs :: "bpf_output list" where
  "call_outs = snd (bpf_run (rodata (default_args 3)) X86_64 alist_helpers call_actions initial_state)"

definition call_rounds :: "nat \<Rightarrow> poll_round" where
  "call_rounds i =
     \<lparr>pr_exiting = (i = 1), pr_native = map native_payload (all_native call_outs),
      pr_lua = map lua_bytes (all_lua call_outs), pr_elapsed = 0\<rparr>"

lemma call_accepted: "accepted (rodata (default_args 3)) (in_task call_sample)"
  by (simp add: accepted_def rodata_def default_config_def pid_filtered_def default_args_def
      call_sample_def example_sample_def pid_tgid_def)

lemma call_native_keys:
  "(ne_key \<circ> fst) ` set (all_native call_outs) = {sample_key_of (pid_tgid 3 7) 1}"
proof -
  let ?cfg = "rodata (default_args 3)"
  let ?st = "fst (bpf_step ?cfg X86_64 alist_helpers (hd call_actions) initial_state)"
  obtain st' out where run: "do_perf_event ?cfg X86_64 alist_helpers call_sample ?st = (st', out)" by fastforce
  have seq: "next_seq (seq_ops alist_helpers) (tid_of (in_task call_sample)) (seq_map ?st) = ([(7, 1)], 1)"
    by (simp add: next_seq_def alist_helpers_def initial_state_def call_actions_def call_sample_def
        example_sample_def pid_tgid_def MAX_ENTRIES_def)
  have "native_buf ?st (in_cpu call_sample) = Some default_native"
    by (simp add: initial_state_def call_actions_def)
  with do_perf_event_accepted(4) [OF call_accepted seq run] obtain ne sz where
    "native_events out = [(ne, sz)]" "ne_key ne = sample_key_of (pid_tgid 3 7) 1"
    using sample_native_key [of ?cfg X86_64 call_sample "sample_key_of (pid_tgid 3 7) 1" default_native]
    by (auto simp: rodata_def default_config_def call_sample_def example_sample_def split: prod.splits)
       (metis prod.collapse)
  moreover have outs: "call_outs = [no_output, out]"
    using run by (simp add: call_outs_def call_actions_def)
  ultimately show ?thesis by (simp add: all_native_def no_output_def outs)
qed

lemma call_lines:
  "chain_line (rodata (default_args 3)) X86_64 call_actions 0 = None"
  "chain_line (rodata (default_args 3)) X86_64 call_actions 1 = Some ''JIT:a:10''"
proof -
  have "running_state (rodata (default_args 3)) X86_64 [hd call_actions] (tid_of (in_task call_sample)) = Some 0x5000"
    by (simp add: running_state_def call_actions_def no_calls_def pid_filtered_def rodata_def default_config_def
        default_args_def pid_tgid_def get_lua_state_arg1_def example_regs_def call_sample_def example_sample_def)
  then show "chain_line (rodata (default_args 3)) X86_64 call_actions 1 = Some ''JIT:a:10''"
    using call_accepted ex_label
    by (simp add: chain_line_def call_actions_def) (simp add: call_sample_def)
qed (simp add: chain_line_def call_actions_def)

lemma call_bounds:
  "card (sampled_tids (rodata (default_args 3)) call_actions) \<le> MAX_ENTRIES"
  "\<forall>t. samples_of (rodata (default_args 3)) t call_actions < 2 ^ 32"
  "card ((\<lambda>e. tid_of (probe_id e)) ` set (probes_of call_actions)) < MAX_ENTRIES"
  "spec_peak (rodata (default_args 3)) X86_64 t (probes_of call_actions) no_calls \<le> 0xffff"
proof -
  have "sampled_tids (rodata (default_args 3)) call_actions \<subseteq> {tid_of (in_task call_sample)}"
    by (auto simp: sampled_tids_def sampled_tid_def call_actions_def split: if_splits)
  then have "card (sampled_tids (rodata (default_args 3)) call_actions) \<le> 1"
    by (metis card_mono finite.intros is_singletonI is_singleton_altdef)
  then show "card (sampled_tids (rodata (default_args 3)) call_actions) \<le> MAX_ENTRIES"
    by (simp add: MAX_ENTRIES_def)
qed (simp_all add: call_actions_def samples_of_def no_calls_def MAX_ENTRIES_def)

lemma profile_names_call_chains_witness:
  "\<exists>folded. profile (\<lambda>ip. None) (default_args 3) None example_iteration call_rounds () = Some folded \<and>
     folded ''JIT:a:10'' = Some 1"
proof -
  let ?a = "default_args 3" and ?h = alist_helpers
  obtain st' where run: "bpf_run (rodata ?a) X86_64 ?h call_actions initial_state = (st', call_outs)"
    by (metis call_outs_def prod.collapse)
  have h: "hash_map (seq_ops ?h) MAX_ENTRIES (alist_invar MAX_ENTRIES)"
    "hash_map (states_ops ?h) MAX_ENTRIES (alist_invar MAX_ENTRIES)"
    by (simp_all add: alist_helpers_def alist_hash_map)
  have handled: "handled call_rounds 0 1 = map NativeData (map native_payload (all_native call_outs)) @
      map LuaData (map lua_bytes (all_lua call_outs))"
    by (simp add: handled_def call_rounds_def round_data_def)
  have lossless: "lossless call_outs (handled call_rounds 0 1)"
    unfolding handled by (rule lossless_unpadded)
  have iteration: "map_of (example_iteration m) = m \<and> distinct (map fst (example_iteration m))"
    if "dom m = (ne_key \<circ> fst) ` set (all_native call_outs)" for m
    using that example_iteration_ok unfolding call_native_keys by blast
  have "\<exists>folded. profile (\<lambda>ip. None) ?a None example_iteration call_rounds () = Some folded \<and>
    (\<forall>s. folded s =
       (let c = length (filter (\<lambda>j. chain_line (rodata ?a) X86_64 call_actions j = Some s) [0..<length call_actions])
        in if c = 0 then None else Some (of_nat c)))"
    by (rule profile_names_call_chains [OF _ h(1) _ _ h(2) _ _ call_bounds(1-3) _ _ _ _ run _ _ lossless iteration])
       (use call_bounds(4) call_sample_laws in \<open>auto simp: initial_state_def alist_helpers_def buffers_ok_def
         buffers_present_def last_round_def time_up_def call_rounds_def default_args_def
         include_native_stacks_def call_actions_def\<close>)
  moreover have "[0..<length call_actions] = [0, 1]" by (simp add: call_actions_def upt_rec)
  ultimately show ?thesis using call_lines by auto
qed

end
