(* ===== verification/Output.thy ===== *)
theory Output
  imports Pending
begin

text \<open>
  Writing the results (\<open>write_folded\<close> and \<open>make_svg\<close> of src/main.rs): the folded file through a
  \<open>BufWriter\<close> over a device that may run full, and the graph next to it. The file system is a map
  from paths to contents; inferno, which draws the graph, is an argument.
\<close>

section \<open>A buffered writer\<close>

text \<open>
  \<open>BufWriter<File>\<close> of the standard library: what is in the file, what waits in the buffer, and how
  many bytes the device still takes. A write that does not fit writes what does and fails.
\<close>

record buf_writer =
  bw_file :: string
  bw_buf :: string
  bw_room :: nat

definition DEFAULT_BUF_SIZE :: nat where "DEFAULT_BUF_SIZE = 8192"

definition new_writer :: "nat \<Rightarrow> buf_writer" where
  "new_writer room = \<lparr>bw_file = [], bw_buf = [], bw_room = room\<rparr>"

definition file_write_all :: "string \<Rightarrow> buf_writer \<Rightarrow> buf_writer \<times> bool" where
  "file_write_all s w =
     (let n = min (bw_room w) (length s)
      in (w\<lparr>bw_file := bw_file w @ take n s, bw_room := bw_room w - n\<rparr>, n = length s))"

definition flush_buf :: "buf_writer \<Rightarrow> buf_writer \<times> bool" where
  "flush_buf w =
     (let n = min (bw_room w) (length (bw_buf w))
      in (w\<lparr>bw_file := bw_file w @ take n (bw_buf w), bw_buf := drop n (bw_buf w),
            bw_room := bw_room w - n\<rparr>, n = length (bw_buf w)))"

definition buf_write_all :: "string \<Rightarrow> buf_writer \<Rightarrow> buf_writer \<times> bool" where
  "buf_write_all s w =
     (let spare = DEFAULT_BUF_SIZE - length (bw_buf w) in
      if length s < spare then (w\<lparr>bw_buf := bw_buf w @ s\<rparr>, True)
      else
        let (w, ok) = (if spare < length s then flush_buf w else (w, True)) in
        if \<not> ok then (w, False)
        else if DEFAULT_BUF_SIZE \<le> length s then file_write_all s w
        else (w\<lparr>bw_buf := bw_buf w @ s\<rparr>, True))"

text \<open>Dropping the writer flushes it, and ignores a failure to.\<close>

definition drop_writer :: "buf_writer \<Rightarrow> buf_writer" where
  "drop_writer w = fst (flush_buf w)"

text \<open>\<open>writeln!\<close> writes its pieces one after the other, until one fails.\<close>

fun write_pieces :: "string list \<Rightarrow> buf_writer \<Rightarrow> buf_writer \<times> bool" where
  "write_pieces [] w = (w, True)"
| "write_pieces (p # ps) w =
     (case buf_write_all p w of (w, ok) \<Rightarrow> if ok then write_pieces ps w else (w, False))"

fun write_lines :: "(string \<Rightarrow> u64 option) \<Rightarrow> string list \<Rightarrow> buf_writer \<Rightarrow> buf_writer \<times> bool" where
  "write_lines folded [] w = (w, True)"
| "write_lines folded (k # ks) w =
     (case write_pieces [k, '' '', dec_str (unat (the (folded k))), [nl]] w of (w, ok) \<Rightarrow>
        if ok then write_lines folded ks w else (w, False))"

text \<open>\<open>write_folded\<close> to a device with room for \<open>room\<close> bytes: the file, and whether the result is \<open>Ok\<close>.\<close>

definition write_folded_file ::
    "(string \<Rightarrow> u64 option) \<Rightarrow> string list \<Rightarrow> nat \<Rightarrow> string \<times> bool" where
  "write_folded_file folded keys room =
     (case write_lines folded (sort keys) (new_writer room) of (w, ok) \<Rightarrow>
        (bw_file (drop_writer w), ok))"

section \<open>What a writer holds\<close>

text \<open>
  A writer that has taken \<open>t\<close>: file and buffer are \<open>t\<close>, and no byte of the device is lost. After a
  failure the device is full and holds as much of \<open>t\<close> as it can.
\<close>

definition holds :: "nat \<Rightarrow> string \<Rightarrow> buf_writer \<Rightarrow> bool" where
  "holds room t w \<longleftrightarrow>
     bw_file w @ bw_buf w = t \<and> length (bw_file w) + bw_room w = room \<and>
     length (bw_buf w) \<le> DEFAULT_BUF_SIZE"

definition gave_up :: "nat \<Rightarrow> string \<Rightarrow> buf_writer \<Rightarrow> bool" where
  "gave_up room t w \<longleftrightarrow> bw_room w = 0 \<and> bw_file w = take room t \<and> room < length t"

lemma new_writer_holds: "holds room [] (new_writer room)"
  by (simp add: holds_def new_writer_def)

lemma gave_up_append: "gave_up room t w \<Longrightarrow> gave_up room (t @ s) w"
  by (simp add: gave_up_def)

lemma flush_buf_cases:
  assumes "holds room t w" and "flush_buf w = (w', ok)"
  shows "if ok then holds room t w' \<and> bw_buf w' = [] else gave_up room t w'"
proof (cases "length (bw_buf w) \<le> bw_room w")
  case True
  with assms show ?thesis by (auto simp: flush_buf_def holds_def)
next
  case False
  then have "take room t = bw_file w @ take (bw_room w) (bw_buf w)" "room < length t"
    using assms(1) by (auto simp: holds_def)
  with assms False show ?thesis by (auto simp: flush_buf_def gave_up_def Let_def)
qed

lemma file_write_all_cases:
  assumes "holds room t w" and "bw_buf w = []" and "file_write_all s w = (w', ok)"
  shows "if ok then holds room (t @ s) w' else gave_up room (t @ s) w'"
proof (cases "length s \<le> bw_room w")
  case True
  with assms show ?thesis by (auto simp: file_write_all_def holds_def)
next
  case False
  with assms show ?thesis by (auto simp: file_write_all_def gave_up_def holds_def Let_def)
qed

lemma buf_write_all_cases:
  assumes "holds room t w" and "buf_write_all s w = (w', ok)"
  shows "if ok then holds room (t @ s) w' else gave_up room (t @ s) w'"
proof -
  let ?spare = "DEFAULT_BUF_SIZE - length (bw_buf w)"
  have len: "length (bw_buf w) \<le> DEFAULT_BUF_SIZE" using assms(1) by (simp add: holds_def)
  consider (fits) "length s < ?spare" | (exact) "length s = ?spare" "length s < DEFAULT_BUF_SIZE"
    | (whole) "length s = ?spare" "DEFAULT_BUF_SIZE \<le> length s" | (over) "?spare < length s"
    by linarith
  then show ?thesis
  proof cases
    case fits
    with assms len show ?thesis by (auto simp: buf_write_all_def holds_def)
  next
    case exact
    with assms len show ?thesis by (auto simp: buf_write_all_def holds_def)
  next
    case whole
    then have "bw_buf w = []" using len by (cases "bw_buf w") (auto simp: DEFAULT_BUF_SIZE_def)
    with whole assms file_write_all_cases show ?thesis
      by (simp add: buf_write_all_def Let_def)
  next
    case over
    obtain w1 ok1 where f: "flush_buf w = (w1, ok1)" by fastforce
    note c = flush_buf_cases [OF assms(1) f]
    show ?thesis
    proof (cases ok1)
      case False
      with c f over assms(2) gave_up_append show ?thesis
        by (auto simp: buf_write_all_def Let_def)
    next
      case True
      with c have w1: "holds room t w1" "bw_buf w1 = []" by simp_all
      show ?thesis
      proof (cases "DEFAULT_BUF_SIZE \<le> length s")
        case True
        with f over assms(2) \<open>ok1\<close> file_write_all_cases [OF w1] show ?thesis
          by (simp add: buf_write_all_def Let_def)
      next
        case False
        with f over assms(2) \<open>ok1\<close> w1 show ?thesis
          by (auto simp: buf_write_all_def Let_def holds_def)
      qed
    qed
  qed
qed

lemma write_pieces_cases:
  assumes "holds room t w" and "write_pieces ps w = (w', ok)"
  shows "if ok then holds room (t @ concat ps) w' else gave_up room (t @ concat ps) w'"
  using assms
proof (induction ps arbitrary: t w)
  case (Cons p ps)
  obtain w1 ok1 where p: "buf_write_all p w = (w1, ok1)" by fastforce
  note c = buf_write_all_cases [OF Cons.prems(1) p]
  show ?case
  proof (cases ok1)
    case True
    with c Cons.IH [of "t @ p" w1] Cons.prems(2) p show ?thesis by (cases ok) simp_all
  next
    case False
    with c Cons.prems(2) p gave_up_append [of room "t @ p" w1 "concat ps"] show ?thesis by simp
  qed
qed simp

lemma write_lines_cases:
  assumes "holds room t w" and "write_lines folded ks w = (w', ok)"
  shows "let text = t @ unlines (map (\<lambda>k. folded_line k (the (folded k))) ks)
         in if ok then holds room text w' else gave_up room text w'"
  using assms
proof (induction ks arbitrary: t w)
  case Nil
  then show ?case by (simp add: unlines_def)
next
  case (Cons k ks)
  let ?line = "[k, '' '', dec_str (unat (the (folded k))), [nl]]"
  let ?rest = "unlines (map (\<lambda>k. folded_line k (the (folded k))) ks)"
  obtain w1 ok1 where p: "write_pieces ?line w = (w1, ok1)" by fastforce
  note c = write_pieces_cases [OF Cons.prems(1) p]
  have all: "t @ unlines (map (\<lambda>k. folded_line k (the (folded k))) (k # ks)) = (t @ concat ?line) @ ?rest"
    by (simp add: folded_line_def unlines_def)
  show ?case
  proof (cases ok1)
    case True
    with c Cons.IH [of "t @ concat ?line" w1] Cons.prems(2) p show ?thesis
      unfolding all by (simp del: write_pieces.simps concat.simps)
  next
    case False
    with c gave_up_append [of room "t @ concat ?line" w1 ?rest] Cons.prems(2) p show ?thesis
      unfolding all by (simp del: write_pieces.simps concat.simps)
  qed
qed

lemma write_folded_file_cases:
  assumes "write_folded_file folded keys room = (content, ok)"
  shows "content = take room (write_folded folded keys) \<and>
    (\<not> ok \<longrightarrow> room < length (write_folded folded keys)) \<and>
    (ok \<longrightarrow> length (write_folded folded keys) \<le> room + DEFAULT_BUF_SIZE)"
proof -
  let ?text = "write_folded folded keys"
  obtain w where w: "write_lines folded (sort keys) (new_writer room) = (w, ok)"
    and content: "content = bw_file (drop_writer w)"
    using assms by (auto simp: write_folded_file_def split: prod.splits)
  from write_lines_cases [OF new_writer_holds w]
  have c: "if ok then holds room ?text w else gave_up room ?text w"
    by (simp add: Let_def write_folded_def)
  show ?thesis
  proof (cases ok)
    case True
    with c have h: "holds room ?text w" by simp
    obtain w' ok' where f: "flush_buf w = (w', ok')" by fastforce
    from flush_buf_cases [OF h f] have "bw_file w' = take room ?text"
      by (cases ok') (auto simp: gave_up_def holds_def)
    with content f have "content = take room ?text" by (simp add: drop_writer_def)
    moreover have "length ?text \<le> room + DEFAULT_BUF_SIZE"
      using h by (auto simp: holds_def dest!: arg_cong [of _ _ length])
    ultimately show ?thesis using True by simp
  next
    case False
    with c content show ?thesis by (simp add: gave_up_def drop_writer_def flush_buf_def)
  qed
qed

section \<open>The graph beside the folded file\<close>

text \<open>
  \<open>Path::with_extension\<close>: the last component, trailing slashes and dots aside, loses what follows its
  last dot (a leading dot does not count) and gets the extension instead. A path that ends in no
  name stays as it is.
\<close>

fun trim_path_rev :: "string \<Rightarrow> string" where
  "trim_path_rev r =
     (case r of
        [] \<Rightarrow> []
      | c # r1 \<Rightarrow>
          if c = CHR ''/'' then trim_path_rev r1
          else if c = CHR ''.'' then
            (case r1 of d # r2 \<Rightarrow> if d = CHR ''/'' then trim_path_rev r2 else r | [] \<Rightarrow> r)
          else r)"

definition file_stem :: "string \<Rightarrow> string" where
  "file_stem name =
     (case dropWhile (\<lambda>c. c \<noteq> CHR ''.'') (rev name) of
        [] \<Rightarrow> name
      | _ # before \<Rightarrow> if before = [] then name else rev before)"

definition with_extension :: "string \<Rightarrow> string \<Rightarrow> string" where
  "with_extension path ext =
     (let r = trim_path_rev (rev path);
          name = rev (takeWhile (\<lambda>c. c \<noteq> CHR ''/'') r);
          dir = rev (dropWhile (\<lambda>c. c \<noteq> CHR ''/'') r)
      in if name \<in> {[], ''.'', ''..''} then path else dir @ file_stem name @ ''.'' @ ext)"

definition svg_path :: "string \<Rightarrow> string" where
  "svg_path output = with_extension output ''svg''"

type_synonym files = "string \<rightharpoonup> string"

text \<open>
  The file system and inferno: whether a file can be created, how much of one the device takes, and
  what inferno writes for a title and the folded text, and whether it reports success.
\<close>

record output_env =
  oe_create :: "string \<Rightarrow> bool"
  oe_room :: "string \<Rightarrow> nat"
  oe_flamegraph :: "string \<Rightarrow> string \<Rightarrow> string \<times> bool"

text \<open>The argument \<open>File::create(svg)?\<close> is evaluated, which empties the file, before inferno reads.\<close>

definition make_svg :: "output_env \<Rightarrow> string \<Rightarrow> string \<Rightarrow> string \<Rightarrow> files \<Rightarrow> files \<times> bool" where
  "make_svg env folded svg title fs =
     (if \<not> oe_create env svg then (fs, False)
      else
        let fs = fs(svg \<mapsto> []) in
        case fs folded of
          None \<Rightarrow> (fs, False)
        | Some text \<Rightarrow>
            (case oe_flamegraph env title text of (picture, ok) \<Rightarrow> (fs(svg \<mapsto> picture), ok)))"

section \<open>Where the graph goes\<close>

lemma trim_path_name:
  assumes "c \<noteq> CHR ''/''" and "c \<noteq> CHR ''.''"
  shows "trim_path_rev (c # r) = c # r"
  using assms by simp

declare trim_path_rev.simps [simp del]

lemma svg_path_of_file:
  assumes "CHR ''/'' \<notin> set stem" and "CHR ''/'' \<notin> set e" and "CHR ''.'' \<notin> set e"
    and "stem \<noteq> []" and "e \<noteq> []" and "dir = [] \<or> last dir = CHR ''/''"
  shows "svg_path (dir @ stem @ ''.'' @ e) = dir @ stem @ ''.svg''"
proof -
  obtain c e' where e: "rev e = c # e'" using assms(5) by (cases "rev e") auto
  then have "c \<in> set e" by (metis list.set_intros(1) set_rev)
  then have c: "c \<noteq> CHR ''/''" "c \<noteq> CHR ''.''" using assms(2,3) by auto
  let ?name = "stem @ ''.'' @ e"
  have trim: "trim_path_rev (rev (dir @ ?name)) = rev ?name @ rev dir"
    using trim_path_name [OF c] by (simp add: e)
  have noslash: "\<forall>x \<in> set (rev ?name). x \<noteq> CHR ''/''" using assms(1,2) by auto
  have head: "rev dir = [] \<or> hd (rev dir) = CHR ''/''" using assms(6) by (auto simp: hd_rev)
  have parts: "takeWhile (\<lambda>x. x \<noteq> CHR ''/'') (rev dir) = []"
    "dropWhile (\<lambda>x. x \<noteq> CHR ''/'') (rev dir) = rev dir"
    using head by (cases "rev dir", simp_all)+
  have take: "takeWhile (\<lambda>x. x \<noteq> CHR ''/'') (rev ?name @ rev dir) = rev ?name"
    using takeWhile_append2 [of "rev ?name" "\<lambda>x. x \<noteq> CHR ''/''" "rev dir"] noslash parts(1)
    by (metis append_Nil2)
  have drop: "dropWhile (\<lambda>x. x \<noteq> CHR ''/'') (rev ?name @ rev dir) = rev dir"
    using dropWhile_append2 [of "rev ?name" "\<lambda>x. x \<noteq> CHR ''/''" "rev dir"] noslash parts(2)
    by metis
  have "dropWhile (\<lambda>c. c \<noteq> CHR ''.'') (rev ?name) = CHR ''.'' # rev stem"
    using assms(3) dropWhile_append2 [of "rev e" "\<lambda>c. c \<noteq> CHR ''.''" "CHR ''.'' # rev stem"] by auto
  then have "file_stem ?name = stem" using assms(4) by (simp add: file_stem_def)
  moreover have "?name \<notin> {[], ''.'', ''..''}"
    using assms(3,5) by (cases stem) (auto simp: append_eq_Cons_conv)
  ultimately show ?thesis
    unfolding svg_path_def with_extension_def trim Let_def take drop by simp
qed

lemma make_svg_keeps_folded:
  "svg \<noteq> folded \<Longrightarrow> fst (make_svg env folded svg title fs) folded = fs folded"
  by (auto simp: make_svg_def Let_def split: option.split prod.split)

lemma make_svg_over_folded:
  assumes "oe_create env p"
  shows "make_svg env p p title fs =
    (case oe_flamegraph env title [] of (picture, ok) \<Rightarrow> (fs(p \<mapsto> picture), ok))"
  using assms by (simp add: make_svg_def split: prod.split)

section \<open>Properties\<close>

text \<open>
  C24. However little room the device has, the folded file is a prefix of the text, as long as can be;
  an error is reported only when something is missing, and success misses at most what fits the
  writer's buffer, 8 KiB, whose last flush is not checked.
\<close>

theorem write_folded_loss_bounded:
  "let txt = write_folded folded keys in
   case write_folded_file folded keys room of
     (content, ok) \<Rightarrow> content = take room txt \<and>
       (if ok then length txt \<le> room + DEFAULT_BUF_SIZE else room < length txt)"
  using write_folded_file_cases [of folded keys room]
  by (cases "write_folded_file folded keys room") auto

text \<open>On a full device a short profile is lost, and reported as written.\<close>

lemma lost_output_is_reported_ok: "write_folded_file [''L:a'' \<mapsto> 1] [''L:a''] 0 = ([], True)"
  by (simp add: write_folded_file_def new_writer_def buf_write_all_def DEFAULT_BUF_SIZE_def drop_writer_def
      flush_buf_def dec_str_def radix_str.simps)

end
