(* ===== verification/Program.thy ===== *)
theory Program
  imports Session Output
begin

text \<open>
  The profiler as a program (\<open>main\<close> of src/main.rs): the set-up, the perf buffers, the collection, the
  folded file and the graph, with every early return. What it is given is a record of arguments.
\<close>

section \<open>Source functions\<close>

datatype main_error =
    SetupFailed setup_error
  | NativeBufferFailed
  | LuaBufferFailed
  | OutputNotCreated
  | OutputNotWritten

text \<open>
  Besides the environments of the parts: whether the perf buffers can be built, the unwinder made of
  the loaded modules with its first cache, the symbolizer, and the iteration orders of the two hash
  maps \<open>main\<close> goes through.
\<close>

record 'u main_env =
  me_session :: session_env
  me_native_buffer :: bool
  me_lua_buffer :: bool
  me_unwinder :: "unwind_module list \<times> nat \<Rightarrow> 'u unwinder \<times> 'u"
  me_symbolizer :: symbolizer
  me_iteration :: "(sample_key \<rightharpoonup> u64 list) \<Rightarrow> (sample_key \<times> u64 list) list"
  me_keys :: "(string \<rightharpoonup> u64) \<Rightarrow> string list"
  me_output :: output_env

definition run_profile ::
    "'u main_env \<Rightarrow> args \<Rightarrow> session \<Rightarrow> (nat \<Rightarrow> poll_round) \<Rightarrow> (string \<rightharpoonup> u64) option" where
  "run_profile me a s rounds =
     (case s_unwinder s of
        None \<Rightarrow> profile (me_symbolizer me) a (None :: unit unwinder option) (me_iteration me) rounds ()
      | Some modules \<Rightarrow>
          (case me_unwinder me modules of (run, cache) \<Rightarrow>
             profile (me_symbolizer me) a (Some run) (me_iteration me) rounds cache))"

definition svg_title :: "args \<Rightarrow> string" where
  "svg_title a =
     (if arg_disable_lua a then ''luajit2-flame-rs (native only)''
      else if arg_include_c_stacks a then ''luajit2-flame-rs (C + LuaJIT)''
      else ''luajit2-flame-rs (LuaJIT only)'')"

text \<open>Writing the results; that the graph fails is only printed.\<close>

definition write_results ::
    "'u main_env \<Rightarrow> args \<Rightarrow> (string \<rightharpoonup> u64) \<Rightarrow> files \<Rightarrow> (main_error + unit) \<times> files" where
  "write_results me a folded fs =
     (let out = arg_output a; oe = me_output me in
      if \<not> oe_create oe out then (Inl OutputNotCreated, fs)
      else case write_folded_file folded (me_keys me folded) (oe_room oe out) of (content, ok) \<Rightarrow>
        let fs = fs(out \<mapsto> content) in
        if \<not> ok then (Inl OutputNotWritten, fs)
        else (Inr (), fst (make_svg oe out (svg_path out) (svg_title a) fs)))"

text \<open>\<open>None\<close> is a program that polls for ever.\<close>

definition main_program ::
    "'u main_env \<Rightarrow> args \<Rightarrow> (nat \<Rightarrow> poll_round) \<Rightarrow> files \<Rightarrow> ((main_error + unit) \<times> files) option" where
  "main_program me a rounds fs =
     (case start_session (me_session me) a of
        Inl e \<Rightarrow> Some (Inl (SetupFailed e), fs)
      | Inr s \<Rightarrow>
          if \<not> me_native_buffer me then Some (Inl NativeBufferFailed, fs)
          else if \<not> me_lua_buffer me then Some (Inl LuaBufferFailed, fs)
          else case run_profile me a s rounds of
                 None \<Rightarrow> None
               | Some folded \<Rightarrow> Some (write_results me a folded fs))"

section \<open>Properties\<close>

lemma make_svg_others:
  "p \<noteq> svg \<Longrightarrow> fst (make_svg env folded svg title fs) p = fs p"
  by (auto simp: make_svg_def Let_def split: option.split prod.split)

lemma write_results_complete:
  assumes "oe_create (me_output me) (arg_output a)"
    and "length (write_folded folded (me_keys me folded)) \<le> oe_room (me_output me) (arg_output a)"
  shows "write_results me a folded fs =
    (Inr (), fst (make_svg (me_output me) (arg_output a) (svg_path (arg_output a)) (svg_title a)
       (fs(arg_output a \<mapsto> write_folded folded (me_keys me folded)))))"
proof -
  obtain content ok where w: "write_folded_file folded (me_keys me folded)
      (oe_room (me_output me) (arg_output a)) = (content, ok)" by fastforce
  from write_folded_file_cases [OF w] assms(2)
  have "content = write_folded folded (me_keys me folded)" "ok" by auto
  with w assms(1) show ?thesis by (simp add: write_results_def Let_def)
qed

text \<open>
  C11. The program leaves the profile on disk: once the set-up has succeeded and the collection ends, on a
  device with room for it, \<open>main\<close> succeeds and the output file, read back line by line, gives exactly
  the folded counts; no file but it and the graph is touched, and what inferno does makes no
  difference, as long as the graph's path is another one and no stack contains a line feed.
\<close>

theorem main_writes_profile:
  assumes "start_session (me_session me) a = Inr s"
    and "me_native_buffer me" and "me_lua_buffer me"
    and "run_profile me a s rounds = Some folded"
    and "oe_create (me_output me) (arg_output a)"
    and "length (write_folded folded (me_keys me folded)) \<le> oe_room (me_output me) (arg_output a)"
    and "distinct (me_keys me folded)" and "set (me_keys me folded) = dom folded"
    and "\<forall>k \<in> dom folded. nl \<notin> set k"
    and "svg_path (arg_output a) \<noteq> arg_output a"
  shows "\<exists>fs' content. main_program me a rounds fs = Some (Inr (), fs') \<and>
    fs' (arg_output a) = Some content \<and>
    map_of (map (the \<circ> parse_folded_line) (lines_of content)) = folded \<and>
    (\<forall>p. p \<noteq> arg_output a \<and> p \<noteq> svg_path (arg_output a) \<longrightarrow> fs' p = fs p)"
proof -
  let ?txt = "write_folded folded (me_keys me folded)"
  let ?fs = "fst (make_svg (me_output me) (arg_output a) (svg_path (arg_output a)) (svg_title a)
       (fs(arg_output a \<mapsto> ?txt)))"
  have "main_program me a rounds fs = Some (Inr (), ?fs)"
    using assms(1-4) write_results_complete [OF assms(5,6)] by (simp add: main_program_def)
  moreover have "?fs p = (fs(arg_output a \<mapsto> ?txt)) p" if "p \<noteq> svg_path (arg_output a)" for p
    using that by (rule make_svg_others)
  then have "?fs (arg_output a) = Some ?txt"
    "\<forall>p. p \<noteq> arg_output a \<and> p \<noteq> svg_path (arg_output a) \<longrightarrow> ?fs p = fs p"
    using assms(10) by (auto simp: eq_commute [of "svg_path (arg_output a)"])
  moreover have "map_of (map (the \<circ> parse_folded_line) (lines_of ?txt)) = folded"
    using folded_file_read_back [OF assms(7,8)] assms(8,9) by (simp add: Let_def comp_def)
  ultimately show ?thesis by blast
qed

text \<open>
  With an output path that ends in \<open>.svg\<close> the graph goes to the same file: the profile just written is
  emptied before inferno reads it.
\<close>

lemma graph_replaces_profile:
  assumes "oe_create (me_output me) (arg_output a)"
    and "length (write_folded folded (me_keys me folded)) \<le> oe_room (me_output me) (arg_output a)"
    and "svg_path (arg_output a) = arg_output a"
  shows "snd (write_results me a folded fs) (arg_output a) =
    Some (fst (oe_flamegraph (me_output me) (svg_title a) []))"
  unfolding write_results_complete [OF assms(1,2)] snd_conv assms(3) make_svg_over_folded [OF assms(1)]
  by (simp split: prod.split)

lemma svg_output_is_replaced: "svg_path ''/tmp/out.svg'' = ''/tmp/out.svg''"
  using svg_path_of_file [of "''out''" "''svg''" "''/tmp/''"] by simp

text \<open>One sample in a built-in function, after which the program is interrupted.\<close>

definition main_rounds :: "nat \<Rightarrow> poll_round" where
  "main_rounds i =
     \<lparr>pr_exiting = (i = 1), pr_native = [native_bytes default_native], pr_lua = [lua_bytes (ev_at 0 7)],
      pr_elapsed = 0\<rparr>"

definition example_main :: "unit main_env" where
  "example_main =
     \<lparr>me_session = probed_env, me_native_buffer = True, me_lua_buffer = True,
      me_unwinder = (\<lambda>ms. (\<lambda>u sm. (default_attempt, u), ())), me_symbolizer = (\<lambda>ip. None),
      me_iteration = (\<lambda>m. map (\<lambda>k. (k, the (m k))) [default_key]), me_keys = (\<lambda>m. [''builtin#7'']),
      me_output = \<lparr>oe_create = (\<lambda>p. True), oe_room = (\<lambda>p. 100), oe_flamegraph = (\<lambda>t x. ([], False))\<rparr>\<rparr>"

lemma example_profile:
  "profile (\<lambda>ip. None) (default_args 3) None (me_iteration example_main) main_rounds () =
     Some [''builtin#7'' \<mapsto> 1]"
proof -
  have "native_event_from_bytes (native_bytes default_native @ []) = Some default_native"
    by (intro native_wire.dec_enc) (simp_all add: sendable_def wf_native_def default_native_def)
  moreover have "from_bytes_aligned (lua_bytes (ev_at 0 7) @ []) = Some (ev_at 0 7)"
    by (intro lua_wire.dec_enc) (simp_all add: wf_lua_def ev_at_def default_lua_def)
  ultimately obtain g where g: "fold (deliver (None :: unit unwinder option) False) (handled main_rounds 0 1)
      (default_pending, ()) = (g, ())"
    and native: "pd_native g = [default_key \<mapsto> fallback_ips (from_event default_native)]"
    and lua: "pd_lua g = [default_key \<mapsto> [ev_at 0 7]]" and folded: "pd_folded g = Map.empty"
    by (auto simp: handled_def main_rounds_def round_data_def handle_native_def handle_lua_def
        default_pending_def Let_def ev_at_def default_native_def default_lua_def default_key_def)
  have "build_stack (\<lambda>ip. None) ips [ev_at 0 7] False = Some ''builtin#7''" for ips
    by (simp add: lua_only_stack by_level_desc_def format_lua_frame_def func_types ev_at_def int_str_def
        dec_str_def radix_str.simps digit_char_def text_simps)
  then have "finalize (\<lambda>ip. None) False (me_iteration example_main (pd_native g)) g = [''builtin#7'' \<mapsto> 1]"
    by (simp add: finalize_def fold_sample_def example_main_def native lua folded)
  moreover have "poll_loop 0 main_rounds (deliver (None :: unit unwinder option) False) 0 (default_pending, ()) =
      Some (g, ())"
    using poll_loop_returns [of 0 main_rounds 0 1 "deliver (None :: unit unwinder option) False" "(default_pending, ())"]
    unfolding add_0 g by (simp add: last_round_def time_up_def main_rounds_def)
  ultimately show ?thesis
    by (simp add: profile_def default_args_def include_native_stacks_def)
qed

lemma main_writes_profile_witness:
  "\<exists>fs' content. main_program example_main (default_args 3) main_rounds Map.empty = Some (Inr (), fs') \<and>
     fs' ''folded.txt'' = Some content \<and>
     map_of (map (the \<circ> parse_folded_line) (lines_of content)) = [''builtin#7'' \<mapsto> 1]"
proof -
  obtain s where s: "start_session (me_session example_main) (default_args 3) = Inr s" "s_unwinder s = None"
    using probed_session by (auto simp: example_main_def)
  have run: "run_profile example_main (default_args 3) s main_rounds = Some [''builtin#7'' \<mapsto> 1]"
    using example_profile s(2) by (simp add: run_profile_def) (simp add: example_main_def)
  have svg: "svg_path ''folded.txt'' = ''folded.svg''"
    using svg_path_of_file [of "''folded''" "''txt''" "[]"] by simp
  have facts: "me_native_buffer example_main" "me_lua_buffer example_main"
    "oe_create (me_output example_main) (arg_output (default_args 3))"
    "arg_output (default_args 3) = ''folded.txt''"
    "me_keys example_main [''builtin#7'' \<mapsto> 1] = [''builtin#7'']"
    by (simp_all add: example_main_def default_args_def)
  have room: "length (write_folded [''builtin#7'' \<mapsto> 1] (me_keys example_main [''builtin#7'' \<mapsto> 1])) \<le>
      oe_room (me_output example_main) (arg_output (default_args 3))"
    by (simp add: facts write_folded_def folded_line_def unlines_def dec_str_def radix_str.simps)
       (simp add: example_main_def)
  have lines: "\<forall>k \<in> dom [''builtin#7'' \<mapsto> 1 :: u64]. nl \<notin> set k" by (simp add: nl_def)
  show ?thesis
    using main_writes_profile [OF s(1) facts(1,2) run facts(3) room _ _ lines, of Map.empty]
    unfolding facts(4,5) svg by auto
qed

end
