(* ===== verification/Interleaving.thy ===== *)
theory Interleaving
  imports Sampler
begin

text \<open>
  The programs of bpf/profile.bpf.c run concurrently on all CPUs, and a tick may come between the map
  operations of a handler it interrupts. Here each probe handler is two accesses to
  \<open>bpf_lua_states\<close>, the lookup and then the update or the delete it decides on, and each sample is
  three: the lookup of the thread's last number in \<open>seq_map\<close>, the update with the next one, and what
  it then reads of the thread's slot and outputs through its CPU's scratch events. A thread is in one
  handler and in one sample at a time, a CPU in one sample, and a handler rests while a tick has
  interrupted it. Every interleaving has the effect of the programs run one after the other, in the
  order of their map updates, so what is proved of runs of whole steps holds of the concurrent program.
\<close>

section \<open>A handler as two accesses\<close>

datatype 'v map_write = No_write | Put u32 'v | Remove u32

fun apply_write :: "('m, 'v) map_ops \<Rightarrow> 'v map_write \<Rightarrow> 'm \<Rightarrow> 'm" where
  "apply_write ops No_write m = m"
| "apply_write ops (Put k v) m = map_update ops m k v"
| "apply_write ops (Remove k) m = map_delete ops m k"

text \<open>What a handler writes, by what its lookup found for its thread.\<close>

fun handler_write :: "config \<Rightarrow> arch \<Rightarrow> lua_probe \<Rightarrow> lua_state_slot option \<Rightarrow> lua_state_slot map_write" where
  "handler_write cfg arch (Entry ptg ctx) old =
     (let (pid, tid) = get_pid_tid ptg; L = get_lua_state_arg1 arch ctx in
      if pid_filtered cfg pid \<or> L = 0 then No_write
      else Put tid \<lparr>slot_ptr = L,
             slot_depth = (case old of
                             Some o' \<Rightarrow> if slot_depth o' < 0xffff then slot_depth o' + 1 else 1
                           | None \<Rightarrow> 1)\<rparr>)"
| "handler_write cfg arch (Return ptg) old =
     (let (pid, tid) = get_pid_tid ptg in
      if pid_filtered cfg pid then No_write
      else case old of
             None \<Rightarrow> Remove tid
           | Some slot \<Rightarrow>
               if slot_depth slot \<le> 1 then Remove tid
               else Put tid (slot\<lparr>slot_depth := slot_depth slot - 1\<rparr>))"

abbreviation thread_of :: "lua_probe \<Rightarrow> u32" where
  "thread_of e \<equiv> tid_of (probe_id e)"

lemma probe_step_split:
  "probe_step cfg arch ops e m =
     apply_write ops (handler_write cfg arch e (map_lookup ops m (thread_of e))) m"
  by (cases e)
     (auto simp: handle_entry_lua_def handle_return_lua_def get_pid_tid_eq Let_def split: option.split)

section \<open>A sample as three accesses\<close>

text \<open>The second access numbers the sample by what the first one found.\<close>

definition stale :: "('q, u32) map_ops \<Rightarrow> u32 option \<Rightarrow> ('q, u32) map_ops" where
  "stale ops old = ops\<lparr>map_lookup := \<lambda>m t. old\<rparr>"

lemma next_seq_stale: "next_seq (stale ops (map_lookup ops m t)) t m = next_seq ops t m"
  by (simp add: next_seq_def stale_def)

text \<open>The third one is the rest of the handler.\<close>

definition emit_sample ::
    "config \<Rightarrow> arch \<Rightarrow> ('s, 'q) bpf_helpers \<Rightarrow> sample_input \<Rightarrow> u32 \<Rightarrow> ('s, 'q) bpf_state \<Rightarrow>
     ('s, 'q) bpf_state \<times> bpf_output" where
  "emit_sample cfg arch h i seq st =
     (let key = sample_key_of (in_task i) seq;
          (st, native) = sample_native_part cfg arch i key st;
          (st, lua) = sample_lua_part cfg (states_ops h) i key st
      in (st, \<lparr>native_events = native, lua_events_out = lua\<rparr>))"

abbreviation sampled_thread :: "sample_input \<Rightarrow> u32" where
  "sampled_thread i \<equiv> tid_of (in_task i)"

lemma do_perf_event_split:
  assumes "accepted cfg (in_task i)"
    and "next_seq (seq_ops h) (sampled_thread i) (seq_map st) = (seqs, seq)"
  shows "do_perf_event cfg arch h i st = emit_sample cfg arch h i seq (st\<lparr>seq_map := seqs\<rparr>)"
proof -
  obtain st1 native where n: "sample_native_part cfg arch i (sample_key_of (in_task i) seq)
      (st\<lparr>seq_map := seqs\<rparr>) = (st1, native)" by fastforce
  obtain st2 lua where l: "sample_lua_part cfg (states_ops h) i (sample_key_of (in_task i) seq) st1 =
      (st2, lua)" by fastforce
  from do_perf_event_parts [OF assms n l] show ?thesis by (simp add: emit_sample_def n l)
qed

text \<open>It touches the scratch events of its CPU only, and depends on them and on the thread's slot.\<close>

definition cpu_view :: "nat \<Rightarrow> ('s, 'q) bpf_state \<Rightarrow> native_event option \<times> lua_stack_event option" where
  "cpu_view c st = (native_buf st c, lua_event_buf st c)"

lemma emit_sample_frame:
  assumes "emit_sample cfg arch h i seq st = (st', out)"
  shows "lua_states st' = lua_states st" and "seq_map st' = seq_map st"
    and "c \<noteq> in_cpu i \<Longrightarrow> cpu_view c st' = cpu_view c st"
  using assms
  by (auto simp: emit_sample_def sample_native_part_def sample_lua_part_def cpu_view_def Let_def
      split: if_splits option.splits prod.splits)

lemma native_part_local:
  assumes "cpu_view (in_cpu i) st = cpu_view (in_cpu i) st1"
  shows "snd (sample_native_part cfg arch i key st) = snd (sample_native_part cfg arch i key st1) \<and>
    cpu_view (in_cpu i) (fst (sample_native_part cfg arch i key st)) =
    cpu_view (in_cpu i) (fst (sample_native_part cfg arch i key st1))"
  using assms by (auto simp: sample_native_part_def cpu_view_def Let_def split: prod.split option.split)

lemma lua_part_local:
  assumes "cpu_view (in_cpu i) st = cpu_view (in_cpu i) st1"
    and "map_lookup ops (lua_states st) (sk_tid key) = map_lookup ops (lua_states st1) (sk_tid key)"
  shows "snd (sample_lua_part cfg ops i key st) = snd (sample_lua_part cfg ops i key st1) \<and>
    cpu_view (in_cpu i) (fst (sample_lua_part cfg ops i key st)) =
    cpu_view (in_cpu i) (fst (sample_lua_part cfg ops i key st1))"
proof -
  have "walk_lua_stack rd rdstr ops (lua_states st) key buf = walk_lua_stack rd rdstr ops (lua_states st1) key buf"
    for rd rdstr buf
    using assms(2) by (simp add: walk_lua_stack_def)
  with assms(1) show ?thesis
    by (auto simp: sample_lua_part_def cpu_view_def Let_def split: prod.split)
qed

lemma native_part_states: "lua_states (fst (sample_native_part cfg arch i key st)) = lua_states st"
  using sample_native_part_frame(2) [of cfg arch i key st] by (metis prod.collapse)

lemma emit_sample_local:
  assumes "cpu_view (in_cpu i) st = cpu_view (in_cpu i) st1"
    and "map_lookup (states_ops h) (lua_states st) (sampled_thread i) =
         map_lookup (states_ops h) (lua_states st1) (sampled_thread i)"
  shows "snd (emit_sample cfg arch h i seq st) = snd (emit_sample cfg arch h i seq st1) \<and>
    cpu_view (in_cpu i) (fst (emit_sample cfg arch h i seq st)) =
    cpu_view (in_cpu i) (fst (emit_sample cfg arch h i seq st1))"
proof -
  let ?key = "sample_key_of (in_task i) seq"
  let ?n = "sample_native_part cfg arch i ?key st" and ?n1 = "sample_native_part cfg arch i ?key st1"
  note N = native_part_local [OF assms(1), of cfg arch ?key]
  have slot: "map_lookup (states_ops h) (lua_states (fst ?n)) (sk_tid ?key) =
      map_lookup (states_ops h) (lua_states (fst ?n1)) (sk_tid ?key)"
    using assms(2) by (simp add: native_part_states sample_key_of_def del: tid_of_eq)
  from lua_part_local [OF conjunct2 [OF N] slot, of cfg] N show ?thesis
    by (simp add: emit_sample_def case_prod_beta Let_def)
qed

section \<open>Interleaved runs\<close>

text \<open>
  What the handlers and the samples in flight have found is kept by thread, with the CPUs that are
  taking a sample. \<open>effects\<close> is auxiliary: the whole steps in the order of the map updates so far. The
  output of a sample carries the sample's position in it, its ticket.
\<close>

datatype access =
    Begin lua_probe
  | Finish lua_probe
  | Skip sample_input       \<comment> \<open>a sample the filters reject\<close>
  | Look sample_input
  | Count u32
  | Emit u32

datatype sample_phase = Looked sample_input "u32 option" | Counted sample_input u32 nat

record in_flight =
  handlers :: "u32 \<rightharpoonup> lua_probe \<times> lua_state_slot option"
  sampling :: "u32 \<rightharpoonup> sample_phase"
  busy :: "nat \<Rightarrow> bool"
  effects :: "bpf_action list"

definition quiet :: in_flight where
  "quiet = \<lparr>handlers = Map.empty, sampling = Map.empty, busy = (\<lambda>c. False), effects = []\<rparr>"

fun access_step ::
    "config \<Rightarrow> arch \<Rightarrow> ('s, 'q) bpf_helpers \<Rightarrow> access \<Rightarrow> ('s, 'q) bpf_state \<times> in_flight \<Rightarrow>
     ((('s, 'q) bpf_state \<times> in_flight) \<times> (nat \<times> bpf_output) list) option" where
  "access_step cfg arch h (Begin e) (st, fl) =
     (if handlers fl (thread_of e) = None \<and> sampling fl (thread_of e) = None
      then Some ((st, fl\<lparr>handlers := (handlers fl)
             (thread_of e \<mapsto> (e, map_lookup (states_ops h) (lua_states st) (thread_of e)))\<rparr>), [])
      else None)"
| "access_step cfg arch h (Finish e) (st, fl) =
     (case handlers fl (thread_of e) of
        None \<Rightarrow> None
      | Some (e', old) \<Rightarrow>
          if e' = e \<and> sampling fl (thread_of e) = None
          then Some ((st\<lparr>lua_states := apply_write (states_ops h) (handler_write cfg arch e old) (lua_states st)\<rparr>,
                      fl\<lparr>handlers := (handlers fl)(thread_of e := None), effects := effects fl @ [Probe e]\<rparr>),
                     [(length (effects fl), no_output)])
          else None)"
| "access_step cfg arch h (Skip i) (st, fl) =
     (if \<not> accepted cfg (in_task i) \<and> sampling fl (sampled_thread i) = None
      then Some ((st, fl\<lparr>effects := effects fl @ [Sample i]\<rparr>), [(length (effects fl), no_output)])
      else None)"
| "access_step cfg arch h (Look i) (st, fl) =
     (if accepted cfg (in_task i) \<and> sampling fl (sampled_thread i) = None \<and> \<not> busy fl (in_cpu i)
      then Some ((st, fl\<lparr>sampling := (sampling fl)
             (sampled_thread i \<mapsto> Looked i (map_lookup (seq_ops h) (seq_map st) (sampled_thread i))),
             busy := (busy fl)(in_cpu i := True)\<rparr>), [])
      else None)"
| "access_step cfg arch h (Count t) (st, fl) =
     (case sampling fl t of
        Some (Looked i old) \<Rightarrow>
          let (seqs, seq) = next_seq (stale (seq_ops h) old) t (seq_map st)
          in Some ((st\<lparr>seq_map := seqs\<rparr>,
                    fl\<lparr>sampling := (sampling fl)(t \<mapsto> Counted i seq (length (effects fl))),
                       effects := effects fl @ [Sample i]\<rparr>), [])
      | _ \<Rightarrow> None)"
| "access_step cfg arch h (Emit t) (st, fl) =
     (case sampling fl t of
        Some (Counted i seq k) \<Rightarrow>
          let (st, out) = emit_sample cfg arch h i seq st
          in Some ((st, fl\<lparr>sampling := (sampling fl)(t := None), busy := (busy fl)(in_cpu i := False)\<rparr>),
                   [(k, out)])
      | _ \<Rightarrow> None)"

fun interleaved_run ::
    "config \<Rightarrow> arch \<Rightarrow> ('s, 'q) bpf_helpers \<Rightarrow> access list \<Rightarrow> ('s, 'q) bpf_state \<times> in_flight \<Rightarrow>
     ((('s, 'q) bpf_state \<times> in_flight) \<times> (nat \<times> bpf_output) list) option" where
  "interleaved_run cfg arch h [] c = Some (c, [])"
| "interleaved_run cfg arch h (x # xs) c =
     (case access_step cfg arch h x c of
        None \<Rightarrow> None
      | Some (c, out) \<Rightarrow>
          (case interleaved_run cfg arch h xs c of
             None \<Rightarrow> None
           | Some (c, outs) \<Rightarrow> Some (c, out @ outs)))"


lemma bpf_run_append:
  "bpf_run cfg arch h (xs @ ys) st =
     (let (st, outs) = bpf_run cfg arch h xs st; (st, outs') = bpf_run cfg arch h ys st in (st, outs @ outs'))"
  by (induction xs arbitrary: st) (auto simp: Let_def split: prod.split)

section \<open>Linearization\<close>

fun sample_of :: "sample_phase \<Rightarrow> sample_input" where
  "sample_of (Looked i old) = i"
| "sample_of (Counted i seq k) = i"

text \<open>What a handler in flight has found is still there.\<close>

definition handlers_current :: "('s, lua_state_slot) map_ops \<Rightarrow> 's \<Rightarrow> in_flight \<Rightarrow> bool" where
  "handlers_current ops m fl \<longleftrightarrow>
     (\<forall>t e old. handlers fl t = Some (e, old) \<longrightarrow> thread_of e = t \<and> old = map_lookup ops m t)"

text \<open>The samples in flight are of different threads and on different, busy CPUs.\<close>

definition samples_apart :: "in_flight \<Rightarrow> bool" where
  "samples_apart fl \<longleftrightarrow>
     (\<forall>t ph. sampling fl t = Some ph \<longrightarrow> sampled_thread (sample_of ph) = t \<and> busy fl (in_cpu (sample_of ph))) \<and>
     (\<forall>t t' ph ph'. sampling fl t = Some ph \<longrightarrow> sampling fl t' = Some ph' \<longrightarrow>
        in_cpu (sample_of ph) = in_cpu (sample_of ph') \<longrightarrow> t = t')"

text \<open>
  The sequential run is ahead: a sample that has been counted has already been output there, and its
  CPU's scratch events are already those it leaves.
\<close>

definition counted_on :: "in_flight \<Rightarrow> nat \<Rightarrow> bool" where
  "counted_on fl c \<longleftrightarrow> (\<exists>t i seq k. sampling fl t = Some (Counted i seq k) \<and> in_cpu i = c)"

lemma counted_onI: "sampling fl t = Some (Counted i seq k) \<Longrightarrow> counted_on fl (in_cpu i)"
  unfolding counted_on_def by blast

lemma counted_on_cong:
  "(\<And>t i seq k. sampling fl' t = Some (Counted i seq k) \<longleftrightarrow> sampling fl t = Some (Counted i seq k)) \<Longrightarrow>
   counted_on fl' = counted_on fl"
  by (simp add: counted_on_def fun_eq_iff)

lemma counted_on_other:
  assumes "counted_on fl c" and "\<And>i seq k. sampling fl t = Some (Counted i seq k) \<Longrightarrow> in_cpu i \<noteq> c"
    and "\<And>t'. t' \<noteq> t \<Longrightarrow> sampling fl' t' = sampling fl t'"
  shows "counted_on fl' c"
proof -
  from assms(1) obtain t' i seq k where "sampling fl t' = Some (Counted i seq k)" "in_cpu i = c"
    unfolding counted_on_def by blast
  with assms(2,3) counted_onI [of fl' t' i seq k] show ?thesis by (cases "t' = t") auto
qed

definition phase_ok ::
    "config \<Rightarrow> arch \<Rightarrow> ('s, 'q) bpf_helpers \<Rightarrow> ('s, 'q) bpf_state \<Rightarrow> ('s, 'q) bpf_state \<Rightarrow> bpf_output list \<Rightarrow>
     sample_phase \<Rightarrow> bool" where
  "phase_ok cfg arch h st sq outs ph \<longleftrightarrow>
     (case ph of
        Looked i old \<Rightarrow>
          accepted cfg (in_task i) \<and> old = map_lookup (seq_ops h) (seq_map st) (sampled_thread i)
      | Counted i seq k \<Rightarrow>
          k < length outs \<and> outs ! k = snd (emit_sample cfg arch h i seq st) \<and>
          cpu_view (in_cpu i) sq = cpu_view (in_cpu i) (fst (emit_sample cfg arch h i seq st)))"

lemma phase_ok_later:
  assumes "phase_ok cfg arch h st sq outs ph"
    and "map_lookup (states_ops h) (lua_states st') (sampled_thread (sample_of ph)) =
         map_lookup (states_ops h) (lua_states st) (sampled_thread (sample_of ph))"
    and "map_lookup (seq_ops h) (seq_map st') (sampled_thread (sample_of ph)) =
         map_lookup (seq_ops h) (seq_map st) (sampled_thread (sample_of ph))"
    and "cpu_view (in_cpu (sample_of ph)) st' = cpu_view (in_cpu (sample_of ph)) st"
    and "cpu_view (in_cpu (sample_of ph)) sq' = cpu_view (in_cpu (sample_of ph)) sq"
  shows "phase_ok cfg arch h st' sq' (outs @ out) ph"
proof (cases ph)
  case (Looked i old)
  with assms(1,3) show ?thesis by (simp add: phase_ok_def del: tid_of_eq)
next
  case (Counted i seq k)
  from emit_sample_local [of i st' st h cfg arch seq] assms(2,4) Counted
  have "snd (emit_sample cfg arch h i seq st') = snd (emit_sample cfg arch h i seq st)"
    "cpu_view (in_cpu i) (fst (emit_sample cfg arch h i seq st')) =
     cpu_view (in_cpu i) (fst (emit_sample cfg arch h i seq st))"
    by (simp_all del: tid_of_eq)
  with assms(1,5) Counted show ?thesis by (simp add: phase_ok_def nth_append)
qed

text \<open>Outputs carry their tickets, each once; the tickets not yet output are of samples in flight.\<close>

definition ticket :: "in_flight \<Rightarrow> u32 \<rightharpoonup> nat" where
  "ticket fl t = (case sampling fl t of Some (Counted i seq k) \<Rightarrow> Some k | _ \<Rightarrow> None)"

definition tickets_ok :: "(u32 \<rightharpoonup> nat) \<Rightarrow> (nat \<times> bpf_output) list \<Rightarrow> bpf_output list \<Rightarrow> bool" where
  "tickets_ok tk emitted outs \<longleftrightarrow>
     distinct (map fst emitted) \<and> (\<forall>(k, out) \<in> set emitted. k < length outs \<and> outs ! k = out) \<and>
     inj_on tk (dom tk) \<and> ran tk \<inter> fst ` set emitted = {} \<and> fst ` set emitted \<union> ran tk = {..<length outs}"

lemma tickets_bound:
  "tickets_ok tk emitted outs \<Longrightarrow> length outs \<notin> fst ` set emitted \<and> length outs \<notin> ran tk"
  unfolding tickets_ok_def by (metis UnI1 UnI2 lessThan_iff less_irrefl)

lemma tickets_step:
  assumes "tickets_ok tk emitted outs"
  shows "tickets_ok tk (emitted @ [(length outs, out)]) (outs @ [out])"
  using assms tickets_bound [OF assms]
  by (auto simp: tickets_ok_def nth_append lessThan_Suc)

lemma tickets_count:
  assumes "tickets_ok tk emitted outs" and "tk t = None"
  shows "tickets_ok (tk(t \<mapsto> length outs)) emitted (outs @ [out])"
proof -
  note new = tickets_bound [OF assms(1)]
  have "ran (tk(t \<mapsto> length outs)) = insert (length outs) (ran tk)" using assms(2) by (rule ran_map_upd)
  moreover have "inj_on (tk(t \<mapsto> length outs)) (insert t (dom tk))"
    using assms(1) new by (auto simp: tickets_ok_def inj_on_def ran_def)
  ultimately show ?thesis
    using assms(1) new by (auto simp: tickets_ok_def nth_append lessThan_Suc)
qed

lemma tickets_emit:
  assumes "tickets_ok tk emitted outs" and "tk t = Some k" and "outs ! k = out"
  shows "tickets_ok (tk(t := None)) (emitted @ [(k, out)]) outs"
proof -
  have uniq: "t' = t" if "tk t' = Some k" for t'
    using assms(1,2) that by (auto simp: tickets_ok_def inj_on_def dom_def)
  have "ran (tk(t := None)) = ran tk - {k}"
  proof
    show "ran (tk(t := None)) \<subseteq> ran tk - {k}"
      by (auto simp: ran_def split: if_splits dest: uniq)
    show "ran tk - {k} \<subseteq> ran (tk(t := None))"
    proof
      fix k' assume "k' \<in> ran tk - {k}"
      then obtain t' where "tk t' = Some k'" "k' \<noteq> k" by (auto simp: ran_def)
      then have "(tk(t := None)) t' = Some k'" using assms(2) by auto
      then show "k' \<in> ran (tk(t := None))" by (rule ranI)
    qed
  qed
  moreover have "k \<in> ran tk" using assms(2) by (rule ranI)
  moreover from this have "k \<notin> fst ` set emitted" "k < length outs"
    using assms(1) by (auto simp: tickets_ok_def)
  moreover have "inj_on (tk(t := None)) (dom tk - {t})"
    using assms(1) by (auto simp: tickets_ok_def inj_on_def)
  ultimately show ?thesis
    using assms(1,3) by (auto simp: tickets_ok_def)
qed

lemma tickets_all_done:
  assumes "tickets_ok Map.empty emitted outs"
  shows "distinct emitted \<and> set emitted = set (enumerate 0 outs)"
proof
  show "distinct emitted" using assms by (auto simp: tickets_ok_def distinct_map)
  have "fst ` set emitted = {..<length outs}" "\<forall>(k, out) \<in> set emitted. k < length outs \<and> outs ! k = out"
    using assms by (simp_all add: tickets_ok_def)
  then show "set emitted = set (enumerate 0 outs)"
    by (fastforce simp: in_set_enumerate_eq)
qed

text \<open>Which part of the bookkeeping each notion depends on.\<close>

lemma in_flight_frames [simp]:
  "samples_apart (fl\<lparr>handlers := hs\<rparr>) = samples_apart fl"
  "samples_apart (fl\<lparr>effects := es\<rparr>) = samples_apart fl"
  "counted_on (fl\<lparr>handlers := hs\<rparr>) = counted_on fl"
  "counted_on (fl\<lparr>effects := es\<rparr>) = counted_on fl"
  "counted_on (fl\<lparr>busy := b\<rparr>) = counted_on fl"
  "ticket (fl\<lparr>handlers := hs\<rparr>) = ticket fl"
  "ticket (fl\<lparr>effects := es\<rparr>) = ticket fl"
  "ticket (fl\<lparr>busy := b\<rparr>) = ticket fl"
  "handlers_current ops m (fl\<lparr>effects := es\<rparr>) = handlers_current ops m fl"
  "handlers_current ops m (fl\<lparr>sampling := ss\<rparr>) = handlers_current ops m fl"
  "handlers_current ops m (fl\<lparr>busy := b\<rparr>) = handlers_current ops m fl"
  by (auto simp: samples_apart_def counted_on_def ticket_def handlers_current_def fun_eq_iff)

lemma sampled_phase:
  assumes "samples_apart fl" and "sampling fl t = Some ph"
  shows "sampled_thread (sample_of ph) = t" and "busy fl (in_cpu (sample_of ph))"
    and "sampling fl t' = Some ph' \<Longrightarrow> in_cpu (sample_of ph) = in_cpu (sample_of ph') \<Longrightarrow> t = t'"
  using assms unfolding samples_apart_def by blast+

lemma samples_apart_fewer:
  assumes "samples_apart fl"
    and "\<And>t ph. sampling fl' t = Some ph \<Longrightarrow> \<exists>ph0. sampling fl t = Some ph0 \<and> sample_of ph0 = sample_of ph"
    and "\<And>t ph. sampling fl' t = Some ph \<Longrightarrow> busy fl (in_cpu (sample_of ph)) \<Longrightarrow>
           busy fl' (in_cpu (sample_of ph))"
  shows "samples_apart fl'"
  unfolding samples_apart_def
proof (intro conjI allI impI)
  fix t ph assume ph: "sampling fl' t = Some ph"
  then obtain ph0 where ph0: "sampling fl t = Some ph0" "sample_of ph0 = sample_of ph" using assms(2) by blast
  with sampled_phase(1,2) [OF assms(1) ph0(1)] assms(3) [OF ph]
  show "sampled_thread (sample_of ph) = t" "busy fl' (in_cpu (sample_of ph))" by simp_all
  fix t' ph' assume "sampling fl' t' = Some ph'" and cpu: "in_cpu (sample_of ph) = in_cpu (sample_of ph')"
  then obtain ph1 where "sampling fl t' = Some ph1" "sample_of ph1 = sample_of ph'" using assms(2) by blast
  with sampled_phase(3) [OF assms(1) ph0(1)] ph0(2) cpu show "t = t'" by simp
qed

locale concurrent_program =
  states: lua_states_map "states_ops h" scap sinvar + seqs: seq_numbers "seq_ops h" qcap qinvar
  for h :: "('s, 'q) bpf_helpers" and scap and sinvar and qcap and qinvar
begin

definition simulates ::
    "config \<Rightarrow> arch \<Rightarrow> ('s, 'q) bpf_state \<Rightarrow> in_flight \<Rightarrow> (nat \<times> bpf_output) list \<Rightarrow>
     ('s, 'q) bpf_state \<Rightarrow> bpf_output list \<Rightarrow> bool" where
  "simulates cfg arch st fl emitted sq outs \<longleftrightarrow>
     sinvar (lua_states st) \<and> qinvar (seq_map st) \<and>
     lua_states sq = lua_states st \<and> seq_map sq = seq_map st \<and> length (effects fl) = length outs \<and>
     handlers_current (states_ops h) (lua_states st) fl \<and> samples_apart fl \<and>
     (\<forall>t ph. sampling fl t = Some ph \<longrightarrow> phase_ok cfg arch h st sq outs ph) \<and>
     (\<forall>c. \<not> counted_on fl c \<longrightarrow> cpu_view c sq = cpu_view c st) \<and> tickets_ok (ticket fl) emitted outs"

definition one_step ::
    "config \<Rightarrow> arch \<Rightarrow> in_flight \<Rightarrow> in_flight \<Rightarrow> (nat \<times> bpf_output) list \<Rightarrow> ('s, 'q) bpf_state \<Rightarrow>
     bpf_output list \<Rightarrow> ('s, 'q) bpf_state \<Rightarrow> bool" where
  "one_step cfg arch fl fl' emitted sq outs st' \<longleftrightarrow>
     (\<exists>ys sq' outs'. effects fl' = effects fl @ ys \<and> bpf_run cfg arch h ys sq = (sq', outs') \<and>
        simulates cfg arch st' fl' emitted sq' (outs @ outs'))"

lemma probe_step_other:
  "sinvar m \<Longrightarrow> t \<noteq> thread_of e \<Longrightarrow>
   map_lookup (states_ops h) (probe_step cfg arch (states_ops h) e m) t = map_lookup (states_ops h) m t"
  using states.probe_run_other [of m "[e]" t cfg arch] by simp

lemma begin_simulates:
  assumes "simulates cfg arch st fl emitted sq outs"
    and "access_step cfg arch h (Begin e) (st, fl) = Some ((st', fl'), out)"
  shows "one_step cfg arch fl fl' (emitted @ out) sq outs st'"
proof -
  let ?found = "map_lookup (states_ops h) (lua_states st) (thread_of e)"
  from assms(2) have [simp]: "st' = st" "out = []"
    and fl': "fl' = fl\<lparr>handlers := (handlers fl)(thread_of e \<mapsto> (e, ?found))\<rparr>"
    by (auto simp del: tid_of_eq split: if_splits)
  have "handlers_current (states_ops h) (lua_states st) fl'"
    using assms(1) by (auto simp: fl' simulates_def handlers_current_def simp del: tid_of_eq)
  with assms(1) have "simulates cfg arch st fl' emitted sq outs"
    by (simp add: fl' simulates_def del: tid_of_eq)
  then show ?thesis by (auto simp: one_step_def fl' intro!: exI [of _ "[]"])
qed

lemma skip_simulates:
  assumes "simulates cfg arch st fl emitted sq outs"
    and "access_step cfg arch h (Skip i) (st, fl) = Some ((st', fl'), out)"
  shows "one_step cfg arch fl fl' (emitted @ out) sq outs st'"
proof -
  from assms have rejected: "\<not> accepted cfg (in_task i)" and [simp]: "st' = st"
    and out: "out = [(length outs, no_output)]" and fl': "fl' = fl\<lparr>effects := effects fl @ [Sample i]\<rparr>"
    by (auto simp: simulates_def split: if_splits)
  have "phase_ok cfg arch h st sq (outs @ [no_output]) ph" if "sampling fl t = Some ph" for t ph
    using assms(1) that by (intro phase_ok_later [OF _ refl refl refl refl]) (auto simp: simulates_def)
  with assms(1) have "simulates cfg arch st fl' (emitted @ out) sq (outs @ [no_output])"
    by (simp add: fl' out simulates_def tickets_step)
  then show ?thesis
    by (auto simp: one_step_def fl' do_perf_event_rejected [OF rejected] intro!: exI [of _ "[Sample i]"])
qed

lemma finish_simulates:
  assumes "simulates cfg arch st fl emitted sq outs"
    and "access_step cfg arch h (Finish e) (st, fl) = Some ((st', fl'), out)"
  shows "one_step cfg arch fl fl' (emitted @ out) sq outs st'"
proof -
  let ?ops = "states_ops h"
  let ?m = "probe_step cfg arch ?ops e (lua_states st)"
  from assms obtain old where fl: "handlers fl (thread_of e) = Some (e, old)" "sampling fl (thread_of e) = None"
    and fl': "fl' = fl\<lparr>handlers := (handlers fl)(thread_of e := None), effects := effects fl @ [Probe e]\<rparr>"
    and out: "out = [(length outs, no_output)]"
    and st': "st' = st\<lparr>lua_states := apply_write ?ops (handler_write cfg arch e old) (lua_states st)\<rparr>"
    by (auto simp: simulates_def simp del: tid_of_eq handler_write.simps apply_write.simps
        split: option.splits if_splits)
  have cur: "handlers_current ?ops (lua_states st) fl" and inv: "sinvar (lua_states st)"
    using assms(1) by (simp_all add: simulates_def)
  have "old = map_lookup ?ops (lua_states st) (thread_of e)"
    using cur fl(1) unfolding handlers_current_def by blast
  then have st': "st' = st\<lparr>lua_states := ?m\<rparr>" by (simp add: st' probe_step_split)
  have "handlers_current ?ops ?m fl'"
    using cur probe_step_other [OF inv]
    by (auto simp: fl' handlers_current_def simp del: tid_of_eq split: if_splits)
  moreover have "phase_ok cfg arch h st' (sq\<lparr>lua_states := ?m\<rparr>) (outs @ [no_output]) ph"
    if ph: "sampling fl t = Some ph" for t ph
  proof -
    have "sampled_thread (sample_of ph) = t" using assms(1) ph sampled_phase(1) by (auto simp: simulates_def)
    moreover have "t \<noteq> thread_of e" using ph fl(2) by auto
    ultimately show ?thesis
      using assms(1) ph probe_step_other [OF inv]
      by (intro phase_ok_later [of cfg arch h st sq]) (auto simp: st' cpu_view_def simulates_def)
  qed
  ultimately have "simulates cfg arch st' fl' (emitted @ out) (sq\<lparr>lua_states := ?m\<rparr>) (outs @ [no_output])"
    using assms(1) states.probe_step_invar [OF inv]
    by (simp add: fl' st' out simulates_def tickets_step cpu_view_def del: tid_of_eq)
  moreover have "bpf_run cfg arch h [Probe e] sq = (sq\<lparr>lua_states := ?m\<rparr>, [no_output])"
    using assms(1) by (simp add: simulates_def)
  ultimately show ?thesis unfolding one_step_def fl' by fastforce
qed

lemma look_simulates:
  assumes "simulates cfg arch st fl emitted sq outs"
    and "access_step cfg arch h (Look i) (st, fl) = Some ((st', fl'), out)"
  shows "one_step cfg arch fl fl' (emitted @ out) sq outs st'"
proof -
  let ?t = "sampled_thread i"
  let ?ph = "Looked i (map_lookup (seq_ops h) (seq_map st) ?t)"
  from assms(2) have acc: "accepted cfg (in_task i)" and free: "sampling fl ?t = None" "\<not> busy fl (in_cpu i)"
    and [simp]: "st' = st" "out = []"
    and fl': "fl' = fl\<lparr>sampling := (sampling fl)(?t \<mapsto> ?ph), busy := (busy fl)(in_cpu i := True)\<rparr>"
    by (auto simp del: tid_of_eq split: if_splits)
  have apart: "samples_apart fl" using assms(1) by (simp add: simulates_def)
  have "in_cpu (sample_of ph) \<noteq> in_cpu i \<and> in_cpu i \<noteq> in_cpu (sample_of ph)"
    if "sampling fl t = Some ph" for t ph
    using sampled_phase(2) [OF apart that] free(2) by auto
  with apart have "samples_apart fl'"
    unfolding samples_apart_def by (auto simp: fl' simp del: tid_of_eq)
  moreover have "ticket fl' = ticket fl" using free(1) by (auto simp: fl' ticket_def fun_eq_iff)
  moreover have "counted_on fl' = counted_on fl" using free(1) by (intro counted_on_cong) (auto simp: fl')
  moreover have "phase_ok cfg arch h st sq outs ?ph" using acc by (simp add: phase_ok_def)
  ultimately have "simulates cfg arch st fl' emitted sq outs"
    using assms(1) by (auto simp: fl' simulates_def simp del: tid_of_eq)
  then show ?thesis by (auto simp: one_step_def fl' intro!: exI [of _ "[]"])
qed

lemma count_simulates:
  assumes "simulates cfg arch st fl emitted sq outs"
    and "access_step cfg arch h (Count t) (st, fl) = Some ((st', fl'), out)"
  shows "one_step cfg arch fl fl' (emitted @ out) sq outs st'"
proof -
  from assms(2) obtain i old where phase: "sampling fl t = Some (Looked i old)"
    by (auto split: option.splits sample_phase.splits)
  have apart: "samples_apart fl" and inv: "qinvar (seq_map st)" and len: "length (effects fl) = length outs"
    and same: "lua_states sq = lua_states st" "seq_map sq = seq_map st"
    and ok: "phase_ok cfg arch h st sq outs (Looked i old)"
    using assms(1) phase by (auto simp: simulates_def)
  have t: "sampled_thread i = t" using sampled_phase(1) [OF apart phase] by simp
  with ok have old: "old = map_lookup (seq_ops h) (seq_map st) t" and acc: "accepted cfg (in_task i)"
    by (simp_all add: phase_ok_def del: tid_of_eq)
  obtain seqs seq where seq: "next_seq (seq_ops h) t (seq_map st) = (seqs, seq)" by fastforce
  have st': "st' = st\<lparr>seq_map := seqs\<rparr>" and out: "out = []"
    and fl': "fl' = fl\<lparr>sampling := (sampling fl)(t \<mapsto> Counted i seq (length outs)),
                  effects := effects fl @ [Sample i]\<rparr>"
    using assms(2) phase seq len by (simp_all add: old next_seq_stale)
  obtain sq' o1 where run: "do_perf_event cfg arch h i sq = (sq', o1)" by fastforce
  then have emit: "emit_sample cfg arch h i seq (sq\<lparr>seq_map := seqs\<rparr>) = (sq', o1)"
    using do_perf_event_split [OF acc, of h sq seqs seq arch] seq by (simp add: same t del: tid_of_eq)
  note frame = emit_sample_frame [OF emit]
  have seqs: "map_lookup (seq_ops h) seqs t' = map_lookup (seq_ops h) (seq_map st) t'" if "t' \<noteq> t" for t'
    using seq that seqs.lookup_update_cases [OF inv] by (auto simp: next_seq_def Let_def)
  have alone: "\<not> counted_on fl (in_cpu i)"
    using sampled_phase(3) [OF apart phase] phase unfolding counted_on_def
    by (metis option.inject sample_of.simps sample_phase.distinct(1))
  then have view: "cpu_view (in_cpu i) sq = cpu_view (in_cpu i) st" using assms(1) by (simp add: simulates_def)
  have "phase_ok cfg arch h st' sq' (outs @ [o1]) ph" if "sampling fl' t' = Some ph" for t' ph
  proof (cases "t' = t")
    case True
    with that have ph: "ph = Counted i seq (length outs)" by (simp add: fl')
    have "snd (emit_sample cfg arch h i seq st') = o1 \<and>
        cpu_view (in_cpu i) (fst (emit_sample cfg arch h i seq st')) = cpu_view (in_cpu i) sq'"
      using emit_sample_local [of i st' "sq\<lparr>seq_map := seqs\<rparr>" h cfg arch seq] view emit
      by (simp add: st' cpu_view_def same)
    then show ?thesis by (simp add: ph phase_ok_def)
  next
    case False
    with that have ph: "sampling fl t' = Some ph" by (simp add: fl')
    have "in_cpu (sample_of ph) \<noteq> in_cpu i"
      using sampled_phase(3) [OF apart phase ph] False by auto
    with False ph sampled_phase(1) [OF apart ph] show ?thesis
      using assms(1) seqs frame(3) [of "in_cpu (sample_of ph)"]
      by (intro phase_ok_later [of cfg arch h st sq])
         (auto simp: st' cpu_view_def simulates_def simp del: tid_of_eq)
  qed
  moreover have "samples_apart fl'"
    using phase by (intro samples_apart_fewer [OF apart]) (auto simp: fl' split: if_splits)
  moreover have "cpu_view c sq' = cpu_view c st'" if "\<not> counted_on fl' c" for c
  proof -
    have "c \<noteq> in_cpu i" using that counted_onI [of fl' t i seq "length outs"] by (auto simp: fl')
    moreover have "\<not> counted_on fl c"
      using that phase counted_on_other [of fl c t fl'] by (auto simp: fl')
    ultimately show ?thesis
      using assms(1) frame(3) [of c] by (simp add: st' simulates_def cpu_view_def)
  qed
  moreover have "ticket fl' = (ticket fl)(t \<mapsto> length outs)" "ticket fl t = None"
    by (auto simp: fl' ticket_def phase fun_eq_iff)
  then have "tickets_ok (ticket fl') emitted (outs @ [o1])"
    using assms(1) by (simp add: simulates_def tickets_count)
  moreover have "qinvar seqs" using seq seqs.invar_update [OF inv] by (auto simp: next_seq_def Let_def)
  ultimately have "simulates cfg arch st' fl' emitted sq' (outs @ [o1])"
    using assms(1) frame(1,2) by (simp add: st' fl' simulates_def)
  with run show ?thesis by (auto simp: one_step_def fl' out intro!: exI [of _ "[Sample i]"])
qed

lemma emit_simulates:
  assumes "simulates cfg arch st fl emitted sq outs"
    and "access_step cfg arch h (Emit t) (st, fl) = Some ((st', fl'), out)"
  shows "one_step cfg arch fl fl' (emitted @ out) sq outs st'"
proof -
  from assms(2) obtain i seq k where phase: "sampling fl t = Some (Counted i seq k)"
    by (auto split: option.splits sample_phase.splits)
  obtain o1 where emit: "emit_sample cfg arch h i seq st = (st', o1)"
    and fl': "fl' = fl\<lparr>sampling := (sampling fl)(t := None), busy := (busy fl)(in_cpu i := False)\<rparr>"
    and out: "out = [(k, o1)]"
    using assms(2) phase by (auto split: prod.splits)
  have apart: "samples_apart fl" using assms(1) by (simp add: simulates_def)
  have "phase_ok cfg arch h st sq outs (Counted i seq k)" using assms(1) phase by (simp add: simulates_def)
  then have k: "k < length outs" "outs ! k = o1" "cpu_view (in_cpu i) sq = cpu_view (in_cpu i) st'"
    by (simp_all add: phase_ok_def emit)
  note frame = emit_sample_frame [OF emit]
  have others: "in_cpu (sample_of ph) \<noteq> in_cpu i" if "sampling fl t' = Some ph" "t' \<noteq> t" for t' ph
    using sampled_phase(3) [OF apart phase that(1)] that(2) by auto
  have "phase_ok cfg arch h st' sq outs ph" if "sampling fl' t' = Some ph" for t' ph
  proof -
    from that have ph: "sampling fl t' = Some ph" "t' \<noteq> t" by (auto simp: fl' split: if_splits)
    then have "phase_ok cfg arch h st' sq (outs @ []) ph"
      using assms(1) frame others [OF ph]
      by (intro phase_ok_later [of cfg arch h st sq]) (auto simp: simulates_def)
    then show ?thesis by simp
  qed
  moreover have "samples_apart fl'"
    using others by (intro samples_apart_fewer [OF apart]) (auto simp: fl' split: if_splits)
  moreover have "cpu_view c sq = cpu_view c st'" if "\<not> counted_on fl' c" for c
  proof (cases "c = in_cpu i")
    case False
    then have "\<not> counted_on fl c"
      using that phase counted_on_other [of fl c t fl'] by (auto simp: fl')
    with False show ?thesis using assms(1) frame(3) by (simp add: simulates_def)
  qed (simp add: k(3))
  moreover have "ticket fl' = (ticket fl)(t := None)" "ticket fl t = Some k"
    by (auto simp: fl' ticket_def phase fun_eq_iff)
  then have "tickets_ok (ticket fl') (emitted @ out) outs"
    using assms(1) k(2) by (simp add: simulates_def tickets_emit out)
  ultimately have "simulates cfg arch st' fl' (emitted @ out) sq outs"
    using assms(1) frame(1,2) by (simp add: fl' simulates_def)
  then show ?thesis by (auto simp: one_step_def fl' intro!: exI [of _ "[]"])
qed

lemma access_simulates:
  assumes "simulates cfg arch st fl emitted sq outs"
    and "access_step cfg arch h x (st, fl) = Some ((st', fl'), out)"
  shows "one_step cfg arch fl fl' (emitted @ out) sq outs st'"
proof (cases x)
  case (Begin a)
  show ?thesis using assms(2) unfolding Begin by (rule begin_simulates [OF assms(1)])
next
  case (Finish a)
  show ?thesis using assms(2) unfolding Finish by (rule finish_simulates [OF assms(1)])
next
  case (Skip a)
  show ?thesis using assms(2) unfolding Skip by (rule skip_simulates [OF assms(1)])
next
  case (Look a)
  show ?thesis using assms(2) unfolding Look by (rule look_simulates [OF assms(1)])
next
  case (Count a)
  show ?thesis using assms(2) unfolding Count by (rule count_simulates [OF assms(1)])
next
  case (Emit a)
  show ?thesis using assms(2) unfolding Emit by (rule emit_simulates [OF assms(1)])
qed

lemma interleaved_run_simulates:
  assumes "simulates cfg arch st fl emitted sq outs"
    and "interleaved_run cfg arch h xs (st, fl) = Some ((st', fl'), out)"
  shows "one_step cfg arch fl fl' (emitted @ out) sq outs st'"
  using assms
proof (induction xs arbitrary: st fl emitted sq outs out)
  case Nil
  then show ?case by (auto simp: one_step_def intro!: exI [of _ "[]"])
next
  case (Cons x xs)
  from Cons.prems(2) obtain st1 fl1 out1 out2 where
    step: "access_step cfg arch h x (st, fl) = Some ((st1, fl1), out1)"
    and rest: "interleaved_run cfg arch h xs (st1, fl1) = Some ((st', fl'), out2)" and out: "out = out1 @ out2"
    by (auto split: option.splits prod.splits)
  have "one_step cfg arch fl fl1 (emitted @ out1) sq outs st1"
    using Cons.prems(1) step by (rule access_simulates)
  then obtain ys sq1 outs1 where one: "effects fl1 = effects fl @ ys" "bpf_run cfg arch h ys sq = (sq1, outs1)"
    "simulates cfg arch st1 fl1 (emitted @ out1) sq1 (outs @ outs1)"
    unfolding one_step_def by blast
  from Cons.IH [OF one(3) rest] obtain zs sq2 outs2 where two: "effects fl' = effects fl1 @ zs"
    "bpf_run cfg arch h zs sq1 = (sq2, outs2)"
    "simulates cfg arch st' fl' ((emitted @ out1) @ out2) sq2 ((outs @ outs1) @ outs2)"
    unfolding one_step_def by blast
  have "bpf_run cfg arch h (ys @ zs) sq = (sq2, outs1 @ outs2)"
    by (simp add: bpf_run_append one(2) two(2))
  with one(1) two(1,3) show ?case unfolding one_step_def out by (auto intro!: exI [of _ "ys @ zs"])
qed

lemma ticket_quiet: "ticket quiet = Map.empty"
  by (simp add: ticket_def quiet_def fun_eq_iff)

lemma simulates_quiet:
  "sinvar (lua_states st) \<Longrightarrow> qinvar (seq_map st) \<Longrightarrow> simulates cfg arch st quiet [] st []"
  using ticket_quiet
  by (simp add: simulates_def quiet_def handlers_current_def samples_apart_def tickets_ok_def)

lemma simulates_at_rest:
  assumes "simulates cfg arch st fl emitted sq outs" and "sampling fl = Map.empty"
  shows "sq = st \<and> distinct emitted \<and> set emitted = set (enumerate 0 outs)"
proof -
  have "ticket fl = Map.empty" "\<not> counted_on fl c" for c
    using assms(2) by (auto simp: ticket_def counted_on_def fun_eq_iff)
  then have "cpu_view c sq = cpu_view c st" "tickets_ok Map.empty emitted outs" for c
    using assms(1) by (simp_all add: simulates_def)
  moreover from this(1) have "native_buf sq = native_buf st" "lua_event_buf sq = lua_event_buf st"
    by (auto simp: cpu_view_def fun_eq_iff)
  ultimately show ?thesis
    using assms(1) tickets_all_done by (auto simp: simulates_def)
qed

end

text \<open>The two maps of the program, as association lists of the declared size.\<close>

interpretation alist_program: concurrent_program alist_helpers MAX_ENTRIES "alist_invar MAX_ENTRIES"
    MAX_ENTRIES "alist_invar MAX_ENTRIES"
  by (simp add: concurrent_program_def lua_states_map_def seq_numbers_def alist_helpers_def alist_hash_map)

text \<open>The probes take effect in the order of their handlers' writes.\<close>

fun finished :: "access list \<Rightarrow> lua_probe list" where
  "finished [] = []"
| "finished (Finish e # xs) = e # finished xs"
| "finished (x # xs) = finished xs"

lemma access_step_probes:
  assumes "access_step cfg arch h x (st, fl) = Some ((st', fl'), out)"
  shows "probes_of (effects fl') = probes_of (effects fl) @ finished [x]"
  using assms
  by (cases x) (auto simp: probes_of_append split: option.splits sample_phase.splits prod.splits if_splits)

lemma interleaved_run_probes:
  "interleaved_run cfg arch h xs (st, fl) = Some ((st', fl'), out) \<Longrightarrow>
   probes_of (effects fl') = probes_of (effects fl) @ finished xs"
proof (induction xs arbitrary: st fl out)
  case (Cons x xs)
  have "finished (x # xs) = finished [x] @ finished xs" by (cases x) simp_all
  with Cons access_step_probes show ?case by (fastforce split: option.splits prod.splits)
qed simp

text \<open>The samples of each thread take effect in the order in which they began.\<close>

fun samples_in :: "bpf_action list \<Rightarrow> sample_input list" where
  "samples_in [] = []"
| "samples_in (Probe e # xs) = samples_in xs"
| "samples_in (Sample i # xs) = i # samples_in xs"

fun started :: "access list \<Rightarrow> sample_input list" where
  "started [] = []"
| "started (Look i # xs) = i # started xs"
| "started (Skip i # xs) = i # started xs"
| "started (x # xs) = started xs"

definition of_thread :: "u32 \<Rightarrow> sample_input list \<Rightarrow> sample_input list" where
  "of_thread t is = filter (\<lambda>i. sampled_thread i = t) is"

definition waiting :: "in_flight \<Rightarrow> u32 \<Rightarrow> sample_input list" where
  "waiting fl t = (case sampling fl t of Some (Looked i old) \<Rightarrow> [i] | _ \<Rightarrow> [])"

definition own_samples :: "in_flight \<Rightarrow> bool" where
  "own_samples fl \<longleftrightarrow> (\<forall>t ph. sampling fl t = Some ph \<longrightarrow> sampled_thread (sample_of ph) = t)"

lemma samples_in_append: "samples_in (xs @ ys) = samples_in xs @ samples_in ys"
  by (induction xs rule: samples_in.induct) auto

lemma access_step_own:
  assumes "own_samples fl" and "access_step cfg arch h x (st, fl) = Some ((st', fl'), out)"
  shows "own_samples fl'"
proof (cases x)
  case (Count t)
  with assms(2) obtain i old seq n where "sampling fl t = Some (Looked i old)"
    "sampling fl' = (sampling fl)(t \<mapsto> Counted i seq n)"
    by (auto split: option.splits sample_phase.splits prod.splits)
  with assms(1) show ?thesis by (fastforce simp: own_samples_def simp del: tid_of_eq split: if_splits)
qed (use assms in \<open>auto simp: own_samples_def simp del: tid_of_eq
       split: option.splits sample_phase.splits prod.splits if_splits\<close>)

lemma access_step_samples:
  assumes "own_samples fl" and "access_step cfg arch h x (st, fl) = Some ((st', fl'), out)"
  shows "of_thread t (samples_in (effects fl')) @ waiting fl' t =
         of_thread t (samples_in (effects fl)) @ waiting fl t @ of_thread t (started [x])"
proof (cases x)
  case (Count t')
  with assms(2) obtain i old seq n where "sampling fl t' = Some (Looked i old)"
    "sampling fl' = (sampling fl)(t' \<mapsto> Counted i seq n)" "effects fl' = effects fl @ [Sample i]"
    by (auto split: option.splits sample_phase.splits prod.splits)
  moreover from this(1) assms(1) have "sampled_thread i = t'" by (force simp: own_samples_def simp del: tid_of_eq)
  ultimately show ?thesis
    using Count by (auto simp: waiting_def of_thread_def samples_in_append simp del: tid_of_eq)
qed (use assms(2) in \<open>auto simp: waiting_def of_thread_def samples_in_append simp del: tid_of_eq
       split: option.splits sample_phase.splits prod.splits if_splits\<close>)

lemma interleaved_run_samples:
  assumes "own_samples fl" and "interleaved_run cfg arch h xs (st, fl) = Some ((st', fl'), out)"
  shows "of_thread t (samples_in (effects fl')) @ waiting fl' t =
         of_thread t (samples_in (effects fl)) @ waiting fl t @ of_thread t (started xs)"
  using assms
proof (induction xs arbitrary: st fl out)
  case Nil
  then show ?case by (simp add: of_thread_def)
next
  case (Cons x xs)
  from Cons.prems(2) obtain st1 fl1 out1 out2 where
    step: "access_step cfg arch h x (st, fl) = Some ((st1, fl1), out1)"
    and rest: "interleaved_run cfg arch h xs (st1, fl1) = Some ((st', fl'), out2)"
    by (auto split: option.splits prod.splits)
  have "started (x # xs) = started [x] @ started xs" by (cases x) simp_all
  with Cons.IH [OF access_step_own [OF Cons.prems(1) step] rest] access_step_samples [OF Cons.prems(1) step, of t]
  show ?case by (simp add: of_thread_def)
qed

lemma interleaved_run_whole:
  assumes "hash_map (states_ops h) cap invar" and "invar (lua_states st)"
    and "hash_map (seq_ops h) cap' invar'" and "invar' (seq_map st)"
    and "interleaved_run cfg arch h xs (st, quiet) = Some ((st', fl), outs)" and "sampling fl = Map.empty"
  shows "\<exists>seq_outs. bpf_run cfg arch h (effects fl) st = (st', seq_outs) \<and>
    distinct outs \<and> set outs = set (enumerate 0 seq_outs) \<and>
    probes_of (effects fl) = finished xs \<and>
    (\<forall>t. of_thread t (samples_in (effects fl)) = of_thread t (started xs))"
proof -
  have prog: "concurrent_program h cap invar cap' invar'"
    using assms(1,3) by (simp add: concurrent_program_def lua_states_map_def seq_numbers_def)
  note run = concurrent_program.interleaved_run_simulates
    [OF prog concurrent_program.simulates_quiet [OF prog assms(2,4)] assms(5)]
  from run obtain sq seq_outs where seq: "bpf_run cfg arch h (effects fl) st = (sq, seq_outs)"
    and sim: "concurrent_program.simulates h invar invar' cfg arch st' fl outs sq seq_outs"
    unfolding concurrent_program.one_step_def [OF prog] by (auto simp: quiet_def)
  from concurrent_program.simulates_at_rest [OF prog sim assms(6)] seq interleaved_run_probes [OF assms(5)]
  have linear: "bpf_run cfg arch h (effects fl) st = (st', seq_outs) \<and>
      distinct outs \<and> set outs = set (enumerate 0 seq_outs) \<and> probes_of (effects fl) = finished xs"
    by (simp add: quiet_def)
  have "own_samples quiet" by (simp add: own_samples_def quiet_def)
  from interleaved_run_samples [OF this assms(5)] assms(6)
  have "of_thread t (samples_in (effects fl)) = of_thread t (started xs)" for t
    by (simp add: waiting_def quiet_def of_thread_def)
  with linear show ?thesis by blast
qed

section \<open>Properties\<close>

text \<open>
  C7. Concurrent programs are as good as sequential ones: whatever the interleaving of the accesses of
  handlers and samples on all CPUs, once no sample is in flight the state is that of running the
  handlers and the samples whole, in the order of their map updates; each of these steps has output
  exactly once and exactly what it outputs in that run; and the probes take effect in the order of
  their handlers' writes, the samples of each thread in the order they began.
\<close>

theorem interleaved_run_linearizes:
  assumes "hash_map (states_ops h) cap invar" and "invar (lua_states st)"
    and "hash_map (seq_ops h) cap' invar'" and "invar' (seq_map st)"
    and "interleaved_run cfg arch h xs (st, quiet) = Some ((st', fl), outs)" and "sampling fl = Map.empty"
  shows "\<exists>seq_outs. bpf_run cfg arch h (effects fl) st = (st', seq_outs) \<and>
    distinct outs \<and> set outs = set (enumerate 0 seq_outs) \<and>
    probes_of (effects fl) = finished xs \<and>
    (\<forall>t. of_thread t (samples_in (effects fl)) = of_thread t (started xs))"
  using assms by (rule interleaved_run_whole)

text \<open>
  Thread 7 is sampled while it is entering a call, and meanwhile thread 8 enters one: the first
  handler writes when the sample is over.
\<close>

definition racing_accesses :: "access list" where
  "racing_accesses =
     [Begin (Entry 7 (example_regs 0x5000)), Look example_sample, Begin (Entry 8 (example_regs 0x6000)),
      Finish (Entry 8 (example_regs 0x6000)), Count 7, Emit 7, Finish (Entry 7 (example_regs 0x5000))]"

lemma interleaved_run_linearizes_witness:
  "\<exists>st' fl outs. interleaved_run default_config X86_64 alist_helpers racing_accesses (initial_state, quiet) =
       Some ((st', fl), outs) \<and> map fst outs = [0, 1, 2] \<and>
     (\<exists>seq_outs. bpf_run default_config X86_64 alist_helpers
        [Probe (Entry 8 (example_regs 0x6000)), Sample example_sample, Probe (Entry 7 (example_regs 0x5000))]
        initial_state = (st', seq_outs) \<and> set outs = set (enumerate 0 seq_outs))"
proof -
  have h: "hash_map (states_ops alist_helpers) MAX_ENTRIES (alist_invar MAX_ENTRIES)"
    "hash_map (seq_ops alist_helpers) MAX_ENTRIES (alist_invar MAX_ENTRIES)"
    by (simp_all add: alist_helpers_def alist_hash_map)
  have acc: "accepted default_config (in_task example_sample)"
    by (simp add: accepted_def pid_filtered_def default_config_def example_sample_def pid_tgid_def)
  have task: "in_task example_sample = pid_tgid 3 7" by (simp add: example_sample_def)
  have tid: "ucast (pid_tgid 3 7) = (7 :: u32)" by code_simp
  obtain seqs seq where q: "next_seq (stale (alist_ops MAX_ENTRIES) None) 7 [] = (seqs, seq)" by fastforce
  obtain st1 out where t: "emit_sample default_config X86_64 alist_helpers example_sample seq
      (initial_state\<lparr>lua_states := apply_write (states_ops alist_helpers)
         (handler_write default_config X86_64 (Entry 8 (example_regs 0x6000)) None) [], seq_map := seqs\<rparr>) =
      (st1, out)" by fastforce
  have "\<exists>st' fl outs. interleaved_run default_config X86_64 alist_helpers racing_accesses (initial_state, quiet) =
      Some ((st', fl), outs) \<and> map fst outs = [0, 1, 2] \<and> sampling fl = Map.empty \<and>
      effects fl = [Probe (Entry 8 (example_regs 0x6000)), Sample example_sample,
        Probe (Entry 7 (example_regs 0x5000))]"
    using t acc q by (simp add: racing_accesses_def Let_def initial_state_def alist_helpers_def quiet_def
        task tid del: handler_write.simps apply_write.simps)
  then obtain st' fl outs where run: "interleaved_run default_config X86_64 alist_helpers racing_accesses
      (initial_state, quiet) = Some ((st', fl), outs)" "map fst outs = [0, 1, 2]" "sampling fl = Map.empty"
    "effects fl = [Probe (Entry 8 (example_regs 0x6000)), Sample example_sample,
        Probe (Entry 7 (example_regs 0x5000))]" by (elim exE conjE) (rule that; assumption)
  from interleaved_run_linearizes [OF h(1) _ h(2) _ run(1,3)] have linear:
    "\<exists>seq_outs. bpf_run default_config X86_64 alist_helpers (effects fl) initial_state = (st', seq_outs) \<and>
      set outs = set (enumerate 0 seq_outs)"
    by (auto simp: initial_state_def)
  show ?thesis
    by (rule exI, rule exI, rule exI, intro conjI, rule run(1), rule run(2), rule linear [unfolded run(4)])
qed

end
