(* ===== verification/Signals.thy ===== *)
theory Signals
  imports Program
begin

text \<open>
  The interrupt key (\<open>install_ctrlc\<close>, \<open>handle_sigint\<close> and \<open>EXITING\<close> of src/main.rs) around the whole
  program: signals that arrive during the set-up meet the inherited disposition, later ones set the
  flag that each round of the poll loop reads first.
\<close>

section \<open>Source functions\<close>

text \<open>What the process does on \<open>SIGINT\<close>: the kernel's two defaults, or the program's handler.\<close>

datatype disposition = Terminate | Ignore | Call_handler

record signal_state =
  EXITING :: bool
  sigint_action :: disposition

definition handle_sigint :: "signal_state \<Rightarrow> signal_state" where
  "handle_sigint s = s\<lparr>EXITING := True\<rparr>"

text \<open>\<open>sigaction\<close> fails only for a signal or an address that is not valid; its result is not read.\<close>

definition install_ctrlc :: "signal_state \<Rightarrow> signal_state" where
  "install_ctrlc s = s\<lparr>sigint_action := Call_handler\<rparr>"

text \<open>\<open>None\<close> is a process that has been killed.\<close>

definition take_sigint :: "signal_state \<Rightarrow> signal_state option" where
  "take_sigint s =
     (case sigint_action s of
        Terminate \<Rightarrow> None
      | Ignore \<Rightarrow> Some s
      | Call_handler \<Rightarrow> Some (handle_sigint s))"

fun take_sigints :: "nat \<Rightarrow> signal_state \<Rightarrow> signal_state option" where
  "take_sigints 0 s = Some s"
| "take_sigints (Suc n) s = (case take_sigint s of None \<Rightarrow> None | Some s \<Rightarrow> take_sigints n s)"

text \<open>
  The state when round \<open>i\<close> of the loop reads the flag: \<open>arrivals i\<close> signals came since the round before,
  and \<open>arrivals 0\<close> since the handler was installed.
\<close>

fun at_check :: "signal_state \<Rightarrow> (nat \<Rightarrow> nat) \<Rightarrow> nat \<Rightarrow> signal_state option" where
  "at_check s arrivals 0 = take_sigints (arrivals 0) s"
| "at_check s arrivals (Suc i) =
     (case at_check s arrivals i of None \<Rightarrow> None | Some s \<Rightarrow> take_sigints (arrivals (Suc i)) s)"

definition with_flag :: "signal_state \<Rightarrow> (nat \<Rightarrow> nat) \<Rightarrow> (nat \<Rightarrow> poll_round) \<Rightarrow> nat \<Rightarrow> poll_round" where
  "with_flag s arrivals rounds i =
     (rounds i)\<lparr>pr_exiting := (case at_check s arrivals i of None \<Rightarrow> False | Some s \<Rightarrow> EXITING s)\<rparr>"

datatype 'a outcome = Killed | Exited 'a

text \<open>
  \<open>main\<close> as a process: \<open>early\<close> signals arrive before the handler is installed. \<open>None\<close> is a process that
  runs for ever.
\<close>

definition main_process ::
    "'u main_env \<Rightarrow> args \<Rightarrow> disposition \<Rightarrow> nat \<Rightarrow> (nat \<Rightarrow> nat) \<Rightarrow> (nat \<Rightarrow> poll_round) \<Rightarrow> files \<Rightarrow>
     ((main_error + unit) \<times> files) outcome option" where
  "main_process me a inherited early arrivals rounds fs =
     (case take_sigints early \<lparr>EXITING = False, sigint_action = inherited\<rparr> of
        None \<Rightarrow> Some Killed
      | Some s \<Rightarrow> map_option Exited (main_program me a (with_flag (install_ctrlc s) arrivals rounds) fs))"

section \<open>What the flag says\<close>

lemma take_sigints_handled:
  "sigint_action s = Call_handler \<Longrightarrow>
   take_sigints n s = Some (s\<lparr>EXITING := EXITING s \<or> 0 < n\<rparr>)"
  by (induction n arbitrary: s) (simp_all add: take_sigint_def handle_sigint_def)

lemma take_sigints_ignored:
  "sigint_action s = Ignore \<Longrightarrow> take_sigints n s = Some s"
  by (induction n) (simp_all add: take_sigint_def)

lemma take_sigints_default:
  "sigint_action s = Terminate \<Longrightarrow> take_sigints n s = (if n = 0 then Some s else None)"
  by (cases n) (simp_all add: take_sigint_def)

text \<open>Whether a signal has come by the check of round \<open>i\<close>.\<close>

definition signalled :: "(nat \<Rightarrow> nat) \<Rightarrow> nat \<Rightarrow> bool" where
  "signalled arrivals i \<longleftrightarrow> list_ex (\<lambda>j. 0 < arrivals j) [0..<Suc i]"

lemma at_check_handled:
  assumes "sigint_action s = Call_handler" and "\<not> EXITING s"
  shows "at_check s arrivals i = Some (s\<lparr>EXITING := signalled arrivals i\<rparr>)"
proof (induction i)
  case 0
  then show ?case using assms by (simp add: take_sigints_handled signalled_def)
next
  case (Suc i)
  then show ?case using assms by (auto simp: take_sigints_handled signalled_def)
qed

text \<open>No signal before the handler is installed leaves the flag set.\<close>

lemma early_sigints:
  assumes "take_sigints n \<lparr>EXITING = False, sigint_action = d\<rparr> = Some s" and "d \<noteq> Call_handler"
  shows "\<not> EXITING s"
  using assms by (cases d) (auto simp: take_sigints_ignored take_sigints_default split: if_splits)

lemma with_flag_installed:
  assumes "\<not> EXITING s"
  shows "with_flag (install_ctrlc s) arrivals rounds i = (rounds i)\<lparr>pr_exiting := signalled arrivals i\<rparr>"
  using at_check_handled [of "install_ctrlc s" arrivals i] assms
  by (simp add: with_flag_def install_ctrlc_def)

section \<open>The profile of a run\<close>

text \<open>The folded counts of the deliveries \<open>ds\<close>.\<close>

definition folded_after :: "'u main_env \<Rightarrow> args \<Rightarrow> session \<Rightarrow> delivery list \<Rightarrow> (string \<rightharpoonup> u64)" where
  "folded_after me a s ds =
     (let inc = include_native_stacks a;
          fin = (\<lambda>g. finalize (me_symbolizer me) inc (me_iteration me (pd_native g)) g) in
      case s_unwinder s of
        None \<Rightarrow> fin (fst (fold (deliver (None :: unit unwinder option) inc) ds (default_pending, ())))
      | Some modules \<Rightarrow>
          (case me_unwinder me modules of (run, cache) \<Rightarrow>
             fin (fst (fold (deliver (Some run) inc) ds (default_pending, cache)))))"

definition ends_at :: "u64 \<Rightarrow> (nat \<Rightarrow> poll_round) \<Rightarrow> nat \<Rightarrow> bool" where
  "ends_at d rounds n \<longleftrightarrow>
     last_round d (rounds n) \<and> list_all (\<lambda>j. \<not> last_round d (rounds j)) [0..<n]"

lemma ends_at_loop:
  "ends_at d rounds n \<Longrightarrow> poll_loop d rounds f 0 st = Some (fold f (handled rounds 0 n) st)"
  using poll_loop_returns [of d rounds 0 n] by (auto simp: ends_at_def list_all_iff)

lemma never_ends_loop:
  "(\<And>n. \<not> last_round d (rounds n)) \<Longrightarrow> poll_loop d rounds f 0 st = None"
  using poll_loop_stops [of d rounds f 0 st] by (cases "poll_loop d rounds f 0 st") auto

lemma ends_at_exists: "last_round d (rounds k) \<Longrightarrow> \<exists>n. ends_at d rounds n"
  using exists_least_iff [of "\<lambda>n. last_round d (rounds n)"] by (auto simp: ends_at_def list_all_iff)

lemma run_profile_returns:
  "ends_at (arg_duration a) rounds n \<Longrightarrow>
   run_profile me a s rounds = Some (folded_after me a s (handled rounds 0 n))"
  by (simp add: run_profile_def profile_def folded_after_def ends_at_loop Let_def
      split: option.split prod.split)

lemma run_profile_forever:
  "(\<And>n. \<not> last_round (arg_duration a) (rounds n)) \<Longrightarrow> run_profile me a s rounds = None"
  by (simp add: run_profile_def profile_def never_ends_loop split: option.split prod.split)

lemma last_round_flag:
  "\<not> EXITING s \<Longrightarrow> last_round d (with_flag (install_ctrlc s) arrivals rounds n) \<longleftrightarrow>
     signalled arrivals n \<or> time_up d (rounds n)"
  by (simp add: with_flag_installed last_round_def time_up_def)

lemma handled_flag:
  "\<not> EXITING s \<Longrightarrow> handled (with_flag (install_ctrlc s) arrivals rounds) 0 n =
     concat (map (\<lambda>j. round_data (rounds j)) [0..<(if signalled arrivals n then n else Suc n)])"
  by (simp add: handled_def with_flag_installed round_data_def)

lemma signalled_iff: "signalled arrivals n \<longleftrightarrow> (\<exists>j \<le> n. 0 < arrivals j)"
  by (auto simp: signalled_def list_ex_iff less_Suc_eq_le simp del: upt_Suc)

text \<open>The first signal to arrive ends the loop, at the next check of the flag.\<close>

lemma ends_at_first_signal:
  assumes "\<not> EXITING s" and "0 < arrivals n"
    and "list_all (\<lambda>j. arrivals j = 0 \<and> \<not> time_up d (rounds j)) [0..<n]"
  shows "ends_at d (with_flag (install_ctrlc s) arrivals rounds) n"
proof -
  have "\<not> signalled arrivals j" if "j < n" for j
    using assms(3) that by (fastforce simp: signalled_iff list_all_iff)
  moreover have "signalled arrivals n" using assms(2) by (auto simp: signalled_iff)
  ultimately show ?thesis
    using assms(1,3) by (simp add: ends_at_def last_round_flag list_all_iff)
qed

text \<open>What \<open>main\<close> does after a successful set-up depends on the rounds only through the profile.\<close>

lemma main_after_setup:
  assumes "start_session (me_session me) a = Inr s" and "me_native_buffer me" and "me_lua_buffer me"
  shows "main_program me a rounds fs =
    map_option (\<lambda>folded. write_results me a folded fs) (run_profile me a s rounds)"
  using assms by (simp add: main_program_def split: option.split)

lemma process_survives:
  assumes "inherited \<noteq> Call_handler" and "inherited = Ignore \<or> early = 0"
  obtains s where "\<not> EXITING s" and
    "main_process me a inherited early arrivals rounds fs =
       map_option Exited (main_program me a (with_flag (install_ctrlc s) arrivals rounds) fs)"
proof -
  let ?s = "\<lparr>EXITING = False, sigint_action = inherited\<rparr>"
  have "take_sigints early ?s = Some ?s"
    using assms by (cases inherited) (auto simp: take_sigints_ignored)
  then show ?thesis by (intro that [of ?s]) (simp_all add: main_process_def)
qed

section \<open>Properties\<close>

text \<open>
  C10. The interrupt key ends the profile and keeps it. Before the handler is installed a signal
  kills the process, which has written nothing, unless signals were ignored when it started. After a
  successful set-up the process runs for ever exactly when no signal ever comes and its time is never
  up; and the first signal to come makes \<open>main\<close> return with the results of exactly the samples that
  the rounds before its check handed to the callbacks, however many signals follow.
\<close>

theorem sigint_ends_process:
  assumes "start_session (me_session me) a = Inr s" and "me_native_buffer me" and "me_lua_buffer me"
    and "inherited \<noteq> Call_handler"
  shows "if inherited = Terminate \<and> 0 < early
    then main_process me a inherited early arrivals rounds fs = Some Killed
    else (main_process me a inherited early arrivals rounds fs = None \<longleftrightarrow>
            (\<forall>n. arrivals n = 0 \<and> \<not> time_up (arg_duration a) (rounds n))) \<and>
         (\<forall>n. 0 < arrivals n \<and>
              list_all (\<lambda>j. arrivals j = 0 \<and> \<not> time_up (arg_duration a) (rounds j)) [0..<n] \<longrightarrow>
            main_process me a inherited early arrivals rounds fs =
              Some (Exited (write_results me a
                (folded_after me a s (concat (map (\<lambda>j. round_data (rounds j)) [0..<n]))) fs)))"
proof (cases "inherited = Terminate \<and> 0 < early")
  case True
  then show ?thesis by (simp add: main_process_def take_sigints_default)
next
  case False
  with assms(4) have "inherited = Ignore \<or> early = 0" by (cases inherited) auto
  from process_survives [OF assms(4) this, of me a arrivals rounds fs] obtain s0
    where s0: "\<not> EXITING s0" and proc: "main_process me a inherited early arrivals rounds fs =
       map_option Exited (main_program me a (with_flag (install_ctrlc s0) arrivals rounds) fs)" .
  let ?rounds = "with_flag (install_ctrlc s0) arrivals rounds" and ?d = "arg_duration a"
  have run: "main_process me a inherited early arrivals rounds fs =
      map_option (\<lambda>folded. Exited (write_results me a folded fs)) (run_profile me a s ?rounds)"
    by (simp add: proc main_after_setup [OF assms(1-3)] option.map_comp comp_def)
  have ends: "run_profile me a s ?rounds = None \<longleftrightarrow> (\<forall>n. \<not> last_round ?d (?rounds n))"
    using run_profile_forever [of a ?rounds me s] ends_at_exists [of ?d ?rounds]
      run_profile_returns [of a ?rounds _ me s] by (metis option.distinct(1))
  have "(\<forall>n. \<not> last_round ?d (?rounds n)) \<longleftrightarrow> (\<forall>n. arrivals n = 0 \<and> \<not> time_up ?d (rounds n))"
    by (auto simp: last_round_flag [OF s0] signalled_iff)
  moreover have "main_process me a inherited early arrivals rounds fs =
      Some (Exited (write_results me a
        (folded_after me a s (concat (map (\<lambda>j. round_data (rounds j)) [0..<n]))) fs))"
    if "0 < arrivals n" and "list_all (\<lambda>j. arrivals j = 0 \<and> \<not> time_up ?d (rounds j)) [0..<n]" for n
  proof -
    have "signalled arrivals n" using that(1) by (auto simp: signalled_iff)
    with run_profile_returns [OF ends_at_first_signal [OF s0 that], of me s] show ?thesis
      by (simp add: run handled_flag [OF s0])
  qed
  ultimately show ?thesis unfolding if_not_P [OF False] using ends by (simp add: run)
qed

text \<open>One sample, then two interrupts before the flag is read again: the sample is in the file.\<close>

lemma sigint_ends_process_witness:
  "\<exists>fs'. main_process example_main (default_args 3) Terminate 0 (\<lambda>i. if i = 1 then 2 else 0)
     main_rounds Map.empty = Some (Exited (Inr (), fs')) \<and> fs' ''folded.txt'' \<noteq> None"
proof -
  obtain s where s: "start_session (me_session example_main) (default_args 3) = Inr s" "s_unwinder s = None"
    using probed_session by (auto simp: example_main_def)
  have facts: "me_native_buffer example_main" "me_lua_buffer example_main" "Terminate \<noteq> Call_handler"
    "oe_create (me_output example_main) (arg_output (default_args 3))"
    "arg_output (default_args 3) = ''folded.txt''"
    by (simp_all add: example_main_def default_args_def)
  let ?arrivals = "\<lambda>i :: nat. if i = 1 then 2 else 0 :: nat"
  let ?ds = "concat (map (\<lambda>j. round_data (main_rounds j)) [0..<1])"
  have "ends_at (arg_duration (default_args 3)) main_rounds 1" "handled main_rounds 0 1 = ?ds"
    by (simp_all add: ends_at_def last_round_def time_up_def main_rounds_def default_args_def handled_def)
  with run_profile_returns [of "default_args 3" main_rounds 1 example_main s] s(2) example_profile
  have folded: "folded_after example_main (default_args 3) s ?ds = [''builtin#7'' \<mapsto> 1]"
    by (simp add: run_profile_def) (simp add: example_main_def)
  have first: "0 < ?arrivals 1 \<and> list_all (\<lambda>j. ?arrivals j = 0 \<and>
      \<not> time_up (arg_duration (default_args 3)) (main_rounds j)) [0..<1]"
    by (simp add: time_up_def default_args_def)
  have alive: "\<not> (Terminate = Terminate \<and> 0 < (0 :: nat))" by simp
  note outcome = sigint_ends_process [OF s(1) facts(1-3), of 0 ?arrivals main_rounds Map.empty,
      unfolded if_not_P [OF alive], THEN conjunct2, rule_format, OF first, unfolded folded]
  have "length (write_folded [''builtin#7'' \<mapsto> 1] (me_keys example_main [''builtin#7'' \<mapsto> 1])) \<le>
      oe_room (me_output example_main) (arg_output (default_args 3))"
    by (simp add: write_folded_def folded_line_def unlines_def dec_str_def radix_str.simps example_main_def)
  note write_results_complete [OF facts(4) this]
  moreover have "svg_path ''folded.txt'' = ''folded.svg''"
    using svg_path_of_file [of "''folded''" "''txt''" "[]"] by simp
  ultimately show ?thesis
    using outcome by (simp add: facts(5) make_svg_others)
qed

end
