(* ===== verification/Build.thy ===== *)
theory Build
  imports BpfEnv
begin

text \<open>
  The build script (src/build.rs): which processors it accepts and what it passes to clang, which is
  what makes the two variants of \<open>arch\<close>, and \<open>LJ_TARGET_GC64\<close>, those of the compiled program. The
  environment and libbpf's skeleton builder are arguments.
\<close>

section \<open>Source functions\<close>

datatype build_panic = OutDirUnset | TargetArchUnset | UnsupportedArch string | SkeletonFailed

record skeleton_job =
  job_source :: string
  job_obj :: string
  job_clang_args :: "string list"
  job_skel :: string

record build_env =
  be_out_dir :: "string option"
  be_target_arch :: "string option"
  be_build :: "skeleton_job \<Rightarrow> bool"

text \<open>\<open>PathBuf::join\<close> with a relative path.\<close>

definition join_path :: "string \<Rightarrow> string \<Rightarrow> string" where
  "join_path dir p = (if dir = '''' \<or> last dir = CHR ''/'' then dir @ p else dir @ ''/'' @ p)"

definition bpf_target :: "string \<Rightarrow> build_panic + string \<times> string" where
  "bpf_target target_arch =
     (if target_arch = ''x86_64'' then Inr (''x86'', ''x86_64-linux-gnu'')
      else if target_arch = ''aarch64'' then Inr (''arm64'', ''aarch64-linux-gnu'')
      else Inl (UnsupportedArch target_arch))"

definition clang_args :: "string \<Rightarrow> string \<Rightarrow> string list" where
  "clang_args bpf_arch multiarch_include =
     (let gc64 = ''1'' in
      [''-g'', ''-O2'', ''-target'', ''bpf'', ''-D__TARGET_ARCH_'' @ bpf_arch, ''-DLJ_TARGET_GC64='' @ gc64,
       ''-I/usr/include/'' @ multiarch_include, ''-Ibpf''])"

definition rerun_lines :: "string list" where
  "rerun_lines =
     [''cargo:rerun-if-changed=bpf/profile.bpf.c'', ''cargo:rerun-if-changed=bpf/lua_state.h'',
      ''cargo:rerun-if-changed=bpf/common.h'', ''cargo:rerun-if-changed=bpf/vmlinux.h'',
      ''cargo:rerun-if-changed=build.rs'', ''cargo:rerun-if-env-changed=CARGO_CFG_TARGET_ARCH'']"

text \<open>The script: a panic, or the job it ran and the lines it prints for cargo.\<close>

definition build_main :: "build_env \<Rightarrow> build_panic + skeleton_job \<times> string list" where
  "build_main env =
     (case be_out_dir env of
        None \<Rightarrow> Inl OutDirUnset
      | Some out_dir \<Rightarrow>
     (case be_target_arch env of
        None \<Rightarrow> Inl TargetArchUnset
      | Some target_arch \<Rightarrow>
     (case bpf_target target_arch of
        Inl p \<Rightarrow> Inl p
      | Inr (bpf_arch, multiarch_include) \<Rightarrow>
          let job = \<lparr>job_source = ''bpf/profile.bpf.c'', job_obj = join_path out_dir ''profile.bpf.o'',
                job_clang_args = clang_args bpf_arch multiarch_include,
                job_skel = join_path out_dir ''profile.skel.rs''\<rparr>
          in if \<not> be_build env job then Inl SkeletonFailed else Inr (job, rerun_lines))))"

section \<open>What is compiled\<close>

text \<open>Rust's name of a processor, and the macro that selects its registers in bpf_tracing.h.\<close>

fun arch_name :: "arch \<Rightarrow> string" where
  "arch_name X86_64 = ''x86_64''"
| "arch_name Aarch64 = ''aarch64''"

fun arch_macro :: "arch \<Rightarrow> string" where
  "arch_macro X86_64 = ''-D__TARGET_ARCH_x86''"
| "arch_macro Aarch64 = ''-D__TARGET_ARCH_arm64''"

text \<open>
  The object exists only for the two processors the model distinguishes, is compiled with that
  processor's registers, and always with 64-bit GC references.
\<close>

lemma build_main_arch:
  assumes "build_main env = Inr (job, out)"
  shows "\<exists>a. be_target_arch env = Some (arch_name a) \<and> arch_macro a \<in> set (job_clang_args job) \<and>
    ''-DLJ_TARGET_GC64=1'' \<in> set (job_clang_args job)"
proof -
  from assms obtain t b m where t: "be_target_arch env = Some t" "bpf_target t = Inr (b, m)"
    and job: "job_clang_args job = clang_args b m"
    by (auto simp: build_main_def Let_def split: option.splits sum.splits if_splits)
  have gc64: "''-DLJ_TARGET_GC64=1'' \<in> set (job_clang_args job)" by (simp add: job clang_args_def)
  from t(2) consider "t = arch_name X86_64" "b = ''x86''" | "t = arch_name Aarch64" "b = ''arm64''"
    by (auto simp: bpf_target_def split: if_splits)
  then show ?thesis
  proof cases
    case 1
    then have "arch_macro X86_64 \<in> set (job_clang_args job)" by (simp add: job clang_args_def)
    with 1 t gc64 show ?thesis by blast
  next
    case 2
    then have "arch_macro Aarch64 \<in> set (job_clang_args job)" by (simp add: job clang_args_def)
    with 2 t gc64 show ?thesis by blast
  qed
qed

text \<open>It is built whenever libbpf can compile it for a supported processor.\<close>

lemma build_main_succeeds:
  assumes "be_out_dir env = Some dir" and "be_target_arch env = Some (arch_name a)" and "\<And>job. be_build env job"
  shows "\<exists>job. build_main env = Inr (job, rerun_lines)"
  using assms by (cases a) (simp_all add: build_main_def bpf_target_def Let_def)

end
