(* ===== verification/Concurrent.thy ===== *)
theory Concurrent
  imports Interleaving LuaProfile
begin

text \<open>
  The profile of a concurrent run: what EndToEnd and LuaProfile say of runs of whole steps holds when
  the handlers and the samples of all CPUs interleave, because the concurrent program outputs the same
  events, and the profile does not depend on their order.
\<close>

section \<open>Outputs up to their order\<close>

lemma carried_permuted:
  assumes "carried sent received" and "mset sent = mset sent'"
  shows "carried sent' received"
proof -
  from assms(1) obtain pads where pads: "length pads = length sent" "list_all (\<lambda>p. length p < 8) pads"
    and received: "mset received = mset (map2 (@) sent pads)"
    unfolding carried_def by blast
  from ex_mset_zip_left [OF pads(1) [symmetric] assms(2) [symmetric]] obtain pads' where
    "length pads' = length sent'" and zip: "mset (zip sent' pads') = mset (zip sent pads)" by auto
  moreover from zip have "mset (map snd (zip sent' pads')) = mset (map snd (zip sent pads))"
    by (simp only: mset_map)
  then have "mset pads' = mset pads" using pads(1) \<open>length pads' = length sent'\<close> by simp
  then have "set pads' = set pads" by (rule mset_eq_setD)
  then have "list_all (\<lambda>p. length p < 8) pads'" using pads(2) by (simp add: list_all_iff)
  moreover have "mset (map2 (@) sent' pads') = mset (map2 (@) sent pads)"
    using zip by (simp only: mset_map)
  ultimately show ?thesis unfolding carried_def received by (intro exI [of _ pads']) simp
qed

lemma mset_concat_map: "mset (concat (map f xs)) = (\<Sum>x \<in># mset xs. mset (f x))"
  by (induction xs) simp_all

lemma mset_outputs:
  assumes "mset outs = mset outs'"
  shows "mset (all_native outs) = mset (all_native outs')" and "mset (all_lua outs) = mset (all_lua outs')"
  using assms by (simp_all add: all_native_def all_lua_def mset_concat_map)

lemma lossless_permuted:
  assumes "lossless outs ds" and "mset outs = mset outs'"
  shows "lossless outs' ds"
  using assms(1) mset_outputs [OF assms(2)]
  by (auto simp: lossless_def elim!: carried_permuted)

lemma filter_permuted: "mset xs = mset ys \<Longrightarrow> length (filter P xs) = length (filter P ys)"
  by (metis mset_filter size_mset)

text \<open>The events a concurrent run hands to the perf buffers are those of the run of its whole steps.\<close>

lemma concurrent_outputs:
  assumes "hash_map (states_ops h) cap invar" and "invar (lua_states st)"
    and "hash_map (seq_ops h) cap' invar'" and "invar' (seq_map st)"
    and "interleaved_run cfg arch h xs (st, quiet) = Some ((st', fl), emitted)" and "sampling fl = Map.empty"
  obtains outs where "bpf_run cfg arch h (effects fl) st = (st', outs)"
    and "mset (map snd emitted) = mset outs"
proof -
  from interleaved_run_whole [OF assms] obtain outs where run: "bpf_run cfg arch h (effects fl) st = (st', outs)"
    and "distinct emitted" "set emitted = set (enumerate 0 outs)" by blast
  then have "mset emitted = mset (enumerate 0 outs)"
    by (simp add: set_eq_iff_mset_eq_distinct [symmetric] distinct_enumerate)
  then have "mset (map snd emitted) = mset (map snd (enumerate 0 outs))" by (simp only: mset_map)
  with run show ?thesis by (intro that) simp_all
qed

lemma set_samples_in: "set (samples_in xs) = {i. Sample i \<in> set xs}"
  by (induction xs rule: samples_in.induct) auto

text \<open>A sample that took effect is one that began.\<close>

lemma effect_started:
  assumes "\<forall>t. of_thread t (samples_in ys) = of_thread t (started xs)" and "Sample i \<in> set ys"
  shows "i \<in> set (started xs)"
proof -
  have "i \<in> set (of_thread (sampled_thread i) (samples_in ys))"
    using assms(2) by (simp add: of_thread_def set_samples_in)
  then have "i \<in> set (of_thread (sampled_thread i) (started xs))" by (simp only: assms(1))
  then show ?thesis by (simp add: of_thread_def)
qed

lemma iteration_permuted:
  assumes "\<And>m. dom m = (ne_key \<circ> fst) ` set (all_native outs) \<Longrightarrow>
      map_of (iteration m) = m \<and> distinct (map fst (iteration m))"
    and "mset outs = mset outs'" and "dom m = (ne_key \<circ> fst) ` set (all_native outs')"
  shows "map_of (iteration m) = m \<and> distinct (map fst (iteration m))"
proof -
  have "set (all_native outs) = set (all_native outs')" by (rule mset_eq_setD [OF mset_outputs(1) [OF assms(2)]])
  with assms(3) show ?thesis by (intro assms(1)) simp
qed

section \<open>Properties\<close>

text \<open>
  C3. The Lua profile of a concurrent run counts call chains: the handlers and the samples of all CPUs
  may interleave in any way; when none is left unfinished and the perf buffers lose nothing, the session
  gives each line the number of accepted samples at which the sampled thread's running Lua state had
  that call chain, the state being that of the thread's own probes that had written before the sample
  was counted.
\<close>

theorem concurrent_profile_names_call_chains:
  assumes "\<not> include_native_stacks a"
    and "hash_map (seq_ops h) MAX_ENTRIES invar_q" and "invar_q (seq_map st)"
    and "map_lookup (seq_ops h) (seq_map st) = Map.empty"
    and "hash_map (states_ops h) MAX_ENTRIES invar_s" and "invar_s (lua_states st)"
    and "map_lookup (states_ops h) (lua_states st) = Map.empty"
    and "interleaved_run (rodata a) arch h xs (st, quiet) = Some ((st', fl), emitted)"
    and "sampling fl = Map.empty"
    and "card (sampled_tids (rodata a) (effects fl)) \<le> MAX_ENTRIES"
    and "\<forall>t. samples_of (rodata a) t (effects fl) < 2 ^ 32"
    and "card ((\<lambda>e. tid_of (probe_id e)) ` set (finished xs)) < MAX_ENTRIES"
    and "\<And>t. spec_peak (rodata a) arch t (finished xs) no_calls \<le> 0xffff"
    and "\<And>i. i \<in> set (started xs) \<Longrightarrow> sample_law i \<and> str_terminated (in_read_str i)"
    and "buffers_ok st" and "buffers_present st"
    and "last_round (arg_duration a) (rounds n)"
    and "\<And>j. j < n \<Longrightarrow> \<not> last_round (arg_duration a) (rounds j)"
    and "lossless (map snd emitted) (handled rounds 0 n)"
    and "\<And>m. dom m = (ne_key \<circ> fst) ` set (all_native (map snd emitted)) \<Longrightarrow>
           map_of (iteration m) = m \<and> distinct (map fst (iteration m))"
  shows "\<exists>folded. profile symb a None iteration rounds u = Some folded \<and>
    (\<forall>s. folded s =
       (let c = length (filter (\<lambda>j. chain_line (rodata a) arch (effects fl) j = Some s)
                  [0..<length (effects fl)])
        in if c = 0 then None else Some (of_nat c)))"
proof -
  from interleaved_run_whole [OF assms(5,6,2,3,8,9)]
  have probes: "probes_of (effects fl) = finished xs"
    and threads: "\<forall>t. of_thread t (samples_in (effects fl)) = of_thread t (started xs)" by blast+
  obtain outs where run: "bpf_run (rodata a) arch h (effects fl) st = (st', outs)"
    and outs: "mset (map snd emitted) = mset outs"
    by (rule concurrent_outputs [OF assms(5,6,2,3,8,9)])
  have laws: "sample_law i \<and> str_terminated (in_read_str i)" if "Sample i \<in> set (effects fl)" for i
    by (rule assms(14) [OF effect_started [OF threads that]])
  note bounds = assms(12,13) [folded probes]
  show ?thesis
    by (rule profile_call_chains [OF assms(1-7,10,11) bounds laws assms(15,16) run assms(17,18)
          lossless_permuted [OF assms(19) outs] iteration_permuted [OF assms(20) outs]])
qed

text \<open>Thread 7 is sampled in a call while thread 8 is between the two accesses of its entry handler.\<close>

definition call_accesses :: "access list" where
  "call_accesses =
     [Begin (Entry (pid_tgid 3 7) (example_regs 0x5000)), Finish (Entry (pid_tgid 3 7) (example_regs 0x5000)),
      Begin (Entry (pid_tgid 3 8) (example_regs 0x6000)), Look call_sample, Count 7, Emit 7]"

lemma call_run:
  "\<exists>st' fl emitted. interleaved_run (rodata (default_args 3)) X86_64 alist_helpers call_accesses
     (initial_state, quiet) = Some ((st', fl), emitted) \<and> sampling fl = Map.empty \<and>
     effects fl = call_actions"
proof -
  let ?cfg = "rodata (default_args 3)" and ?e = "Entry (pid_tgid 3 7) (example_regs 0x5000)"
  have task: "in_task call_sample = pid_tgid 3 7" by (simp add: call_sample_def example_sample_def)
  have tids: "ucast (pid_tgid 3 7) = (7 :: u32)" "ucast (pid_tgid 3 8) = (8 :: u32)" by code_simp+
  obtain seqs seq where q: "next_seq (stale (alist_ops MAX_ENTRIES) None) 7 [] = (seqs, seq)" by fastforce
  obtain st1 out where t: "emit_sample ?cfg X86_64 alist_helpers call_sample seq
      (initial_state\<lparr>lua_states := apply_write (states_ops alist_helpers)
         (handler_write ?cfg X86_64 ?e None) [], seq_map := seqs\<rparr>) = (st1, out)" by fastforce
  show ?thesis
    using t q call_accepted
    by (simp add: call_accesses_def call_actions_def Let_def initial_state_def alist_helpers_def quiet_def
        task tids del: handler_write.simps apply_write.simps)
qed

lemma concurrent_profile_names_call_chains_witness:
  "\<exists>st' fl emitted folded.
     interleaved_run (rodata (default_args 3)) X86_64 alist_helpers call_accesses (initial_state, quiet) =
       Some ((st', fl), emitted) \<and>
     profile (\<lambda>ip. None) (default_args 3) None example_iteration call_rounds () = Some folded \<and>
     folded ''JIT:a:10'' = Some 1"
proof -
  let ?a = "default_args 3" and ?h = alist_helpers
  obtain st' fl emitted where run: "interleaved_run (rodata ?a) X86_64 ?h call_accesses (initial_state, quiet) =
      Some ((st', fl), emitted)" and rest: "sampling fl = Map.empty" and eff: "effects fl = call_actions"
    using call_run by (elim exE conjE) (rule that; assumption)
  have h: "hash_map (seq_ops ?h) MAX_ENTRIES (alist_invar MAX_ENTRIES)"
    "hash_map (states_ops ?h) MAX_ENTRIES (alist_invar MAX_ENTRIES)"
    by (simp_all add: alist_helpers_def alist_hash_map)
  have init: "alist_invar MAX_ENTRIES (seq_map initial_state)" "alist_invar MAX_ENTRIES (lua_states initial_state)"
    "map_lookup (seq_ops ?h) (seq_map initial_state) = Map.empty"
    "map_lookup (states_ops ?h) (lua_states initial_state) = Map.empty"
    "buffers_ok initial_state" "buffers_present initial_state"
    by (simp_all add: initial_state_def alist_helpers_def buffers_ok_def buffers_present_def)
  obtain outs where outs: "bpf_run (rodata ?a) X86_64 ?h (effects fl) initial_state = (st', outs)"
    and perm: "mset (map snd emitted) = mset outs"
    by (rule concurrent_outputs [OF h(2) init(2) h(1) init(1) run rest])
  then have calls: "outs = call_outs" by (simp add: call_outs_def eff)
  have fin: "finished call_accesses = probes_of call_actions" "started call_accesses = [call_sample]"
    by (simp_all add: call_accesses_def call_actions_def)
  let ?ds = "map NativeData (map native_payload (all_native call_outs)) @
      map LuaData (map lua_bytes (all_lua call_outs))"
  have handled: "handled call_rounds 0 1 = ?ds"
    by (simp add: handled_def call_rounds_def round_data_def)
  have lossless: "lossless (map snd emitted) (handled call_rounds 0 1)"
    unfolding handled by (rule lossless_permuted [OF lossless_unpadded]) (simp only: perm calls)
  have ends: "last_round (arg_duration ?a) (call_rounds 1)"
    "\<And>j. j < 1 \<Longrightarrow> \<not> last_round (arg_duration ?a) (call_rounds j)"
    by (simp_all add: last_round_def time_up_def call_rounds_def default_args_def)
  have iteration: "map_of (example_iteration m) = m \<and> distinct (map fst (example_iteration m))"
    if "dom m = (ne_key \<circ> fst) ` set (all_native (map snd emitted))" for m
    using that example_iteration_ok mset_eq_setD [OF mset_outputs(1) [OF perm]] call_native_keys
    by (simp add: calls)
  have "\<exists>folded. profile (\<lambda>ip. None) ?a None example_iteration call_rounds () = Some folded \<and>
    (\<forall>s. folded s =
       (let c = length (filter (\<lambda>j. chain_line (rodata ?a) X86_64 (effects fl) j = Some s) [0..<length (effects fl)])
        in if c = 0 then None else Some (of_nat c)))"
    by (rule concurrent_profile_names_call_chains
          [OF _ h(1) init(1,3) h(2) init(2,4) run rest _ _ _ _ _ init(5,6) ends lossless iteration])
       (use call_bounds call_sample_laws in \<open>simp_all add: eff fin default_args_def include_native_stacks_def\<close>)
  then obtain folded where folded: "profile (\<lambda>ip. None) ?a None example_iteration call_rounds () = Some folded"
    "\<forall>s. folded s =
       (let c = length (filter (\<lambda>j. chain_line (rodata ?a) X86_64 (effects fl) j = Some s) [0..<length (effects fl)])
        in if c = 0 then None else Some (of_nat c))" by (elim exE conjE) (rule that; assumption)
  have "[0..<length call_actions] = [0, 1]" by (simp add: call_actions_def upt_rec)
  then have "folded ''JIT:a:10'' = Some 1" using folded(2) call_lines by (simp add: eff)
  with run folded(1) show ?thesis by (intro exI conjI)
qed

end
