(* ===== verification/Spec2Isabelle.thy ===== *)
theory Spec2Isabelle
  imports Prelude CLayout BpfMaps Events BpfEnv LuaTracker LuaState LineInfo StackWalk Snapshot Sampler
    KernelAbi PerfAttr Wire RustStr FrameFormat StackFold NativeUnwind Pending ProcMaps
    ElfFile LuaOffsets NativeModules Session Skeleton EndToEnd CallChain LuaProfile Output Program Interleaving
    Signals Build Concurrent
begin

text \<open>
  luajit2-flame-rs is a sampling profiler for a running LuaJIT 2 process. An eBPF program in C
  (bpf/profile.bpf.c, lua_state.h and common.h) runs in the kernel at every tick of a CPU clock and
  records the native and the Lua stack of the interrupted thread; a Rust program (src/main.rs,
  unwind.rs, syms.rs, types.rs and perf.rs) loads it, attaches it, collects its records, unwinds and
  symbolizes the native part and writes folded stacks with their counts.

  \<^bold>\<open>How the parts interact.\<close> User space finds LuaJIT in the target's maps (ProcMaps), resolves
  the file offsets of three of its functions (ElfFile, LuaOffsets), loads unwind data for the mapped
  files (NativeModules), opens and loads the BPF object, attaches the uprobes and opens one sampler
  per CPU (Session, PerfAttr). In the kernel the uprobes maintain, per thread, the \<open>lua_State\<close> that
  is running (LuaTracker, in the map \<open>lua_states\<close> of BpfMaps). A sampler's tick runs
  \<open>do_perf_event\<close> (Sampler): it filters, takes a sequence number from the map \<open>seq_map\<close>, copies
  the registers and up to 4 KiB of the user stack (Snapshot) into a native event, and walks the Lua
  stack (StackWalk, over the VM's structures of LuaState and the line tables of LineInfo) into one
  Lua event per frame. Both kinds of event (Events) cross as bytes (Wire) and meet again in user
  space under their key of pid, tid and sequence number (Pending), where native stacks are unwound
  (NativeUnwind), frames are labelled (FrameFormat), the two stacks are folded into a line
  (StackFold) and the lines are counted and written (Output). EndToEnd and LuaProfile compose the two
  halves, Program is the whole of \<open>main\<close>.

  \<^bold>\<open>Theories and the code they model.\<close>

  \<^item> Prelude: machine integers as words, little-endian bytes, buffers overlaid with fresh bytes,
    Rust's checked arithmetic, and the collections \<open>layout_simps\<close>, \<open>event_simps\<close>,
    \<open>step_simps\<close> and \<open>text_simps\<close>.
  \<^item> CLayout and Codec: C's rules of size, alignment and offset on LP64 targets, with a
    computable \<open>field_loc\<close>, and the reading of a field out of raw bytes.
  \<^item> KernelPerf, KernelBpf, KernelTask, KernelEnums: the declarations of bpf/vmlinux.h on the
    interfaces the program uses (the perf-event context and attribute, the \<open>bpf\<close> system call and
    its objects, the task and the probes, the enumerations). KernelAbi compares the program with them:
    its map definitions, the context of a perf-event program, the registers of a probe.
  \<^item> Events: bpf/common.h and its mirror src/types.rs; the constants, the records and both layouts.
  \<^item> BpfMaps: the three map helpers as a locale \<open>hash_map\<close> (lookup, update that may fail when
    the map is full, delete), interpreted on association lists with the capacity \<open>MAX_ENTRIES\<close>.
  \<^item> BpfEnv: the read-only configuration, \<open>get_pid_tid\<close>, \<open>get_lua_state_arg1\<close>, the
    pid/tid filter, and reads of user memory.
  \<^item> LuaTracker: \<open>handle_entry_lua\<close> and \<open>handle_return_lua\<close>. The locale
    \<open>lua_states_map\<close> extends \<open>hash_map\<close>; its abstract specification is a number of open calls
    and a pointer per thread.
  \<^item> LuaState: bpf/lua_state.h, the VM's structures (offsets computed from the declarations) and
    the frame accessors. LineInfo: \<open>get_frame_pc\<close> and \<open>get_lua_line\<close>.
  \<^item> StackWalk: \<open>emit_lua\<close> and \<open>walk_lua_stack\<close>, against the inductive relations
    \<open>frame_step\<close> and \<open>complete_chain\<close> of the VM's frame chain.
  \<^item> Snapshot: \<open>read_user_stack_snapshot\<close>. Sampler: \<open>next_seq\<close>, \<open>do_perf_event\<close> and the
    program as a transition system (\<open>bpf_step\<close>, \<open>bpf_reachable\<close>, \<open>bpf_run\<close>).
  \<^item> PerfAttr: src/perf.rs, its bytes read through the kernel's declaration. ProcMaps: \<open>parse_maps\<close> and its helpers (unwind.rs) and
    \<open>find_luajit\<close> (syms.rs), over the Rust strings of RustStr.
  \<^item> ElfFile: load biases, module ranges (unwind.rs) and file offsets (syms.rs). LuaOffsets:
    \<open>resolve_lua_offsets\<close>. NativeModules: \<open>FileId\<close>, \<open>read_mapped_file\<close> and
    \<open>UserUnwinder::new\<close>. NativeUnwind: \<open>NativeSample\<close>, \<open>read_stack_word\<close> and
    \<open>UserUnwinder::unwind\<close>.
  \<^item> Wire: the bytes of the events, \<open>from_bytes_aligned\<close> and \<open>native_event_from_bytes\<close>; the
    locale \<open>event_codec\<close> is interpreted on both kinds of event.
  \<^item> FrameFormat: \<open>strip_chunkname\<close>, \<open>format_lua_frame\<close>, \<open>is_native_function_symbol\<close>.
    StackFold: \<open>build_stack\<close>, \<open>fold_symbolized_stack\<close>. Pending: the two perf-buffer
    callbacks, the final pass and \<open>write_folded\<close>. Session: \<open>main\<close>'s set-up and poll loop.
  \<^item> Skeleton: every function of the generated bpf/profile.skel.h over a heap of blocks in which
    each allocation may fail.
  \<^item> EndToEnd: from the probes and ticks of a run to the folded counts. CallChain: the call chain of a
    Lua state and the labels of its frames, specified over the target's memory alone. LuaProfile: a
    Lua profile counts these chains.
  \<^item> Interleaving: each probe handler as two accesses to the shared maps and each sample as three
    (\<open>access_step\<close>), interleaved on all CPUs; locale \<open>concurrent_program\<close> holds what the maps promise
    them and the simulation by whole steps. Concurrent: the Lua profile of such a run.
  \<^item> Output: \<open>write_folded\<close> through a \<open>BufWriter\<close> on a device that may run full, \<open>make_svg\<close> and the
    path of the graph. Program: \<open>main\<close> with every early return. Signals: the interrupt key around
    \<open>main\<close>. Build: src/build.rs, whose arguments to clang fix the processor and the 64-bit references.

  \<^bold>\<open>State.\<close> The BPF program's state is the record \<open>bpf_state\<close>: the two hash maps and the two
  per-CPU scratch events, whose contents persist from one tick to the next; a handler takes the
  state and returns it with the events it outputs. User space's state is \<open>pending\<close>, the hash maps
  of \<open>Pending\<close>; the callbacks run under one mutex, so they are steps on it. A hash map whose
  iteration order is unspecified gets the order as an argument, and the properties hold for each.

  \<^bold>\<open>What the lemmas show.\<close> The tracker's slots represent each thread's open calls under every
  interleaving, and sampling does not disturb them. A sample's key is unique within the capacity of
  the sequence map, so that a native event is joined with the Lua events of its own tick. The walk
  reports exactly the reportable frames among the first \<open>MAX_LUA_DEPTH\<close> of the VM's chain, each under
  its number from the top, and whatever the memory holds its loop moves down inside the stack and
  visits no frame twice. Lines come from the line table in
  each of its three widths. A snapshot is the target's memory, as long as it can be, and inside its
  buffer. Every event is read back from its bytes as it was sent. Folding puts every Lua frame,
  outermost first, into the place the native stack leaves for it, does not depend on the order of arrival or of iteration, and each line's count is the number
  of samples that fold to it. The poll loop returns exactly when it is interrupted or its time is
  up. A Lua profile counts the call chains the sampled threads were in, and \<open>main\<close> leaves the counts on
  disk, where the folded file is never anything but a prefix of them. Handlers that run concurrently
  have the effect of running one after the other. After a successful set-up the probes are at the entries and returns of LuaJIT's functions, and
  biases and ranges hit the code they are computed for. The skeleton neither leaks
  nor frees twice. Lemmas named \<open>tracker_return_keeps_inner_state\<close>,
  \<open>tracker_yield_drops_outer_call\<close>, \<open>tracker_depth_overflow_restarts\<close>,
  \<open>full_seq_map_repeats_keys\<close>, \<open>walk_top_frame_has_definition_line\<close>,
  \<open>load_bias_takes_first_segment\<close>, \<open>find_luajit_cuts_at_space\<close>, \<open>lost_output_is_reported_ok\<close>,
  \<open>graph_replaces_profile\<close> and \<open>skeleton_is_stale\<close> show
  where the code falls short of what it or its documentation intends.

  \<^bold>\<open>Bounds and fuel.\<close> The walk's loop recurs on the code's own counter
  (\<open>for (i = 0; i < MAX_LUA_DEPTH; i++)\<close>, 8 frames), the unwind loop on the
  \<open>PERF_MAX_STACK_DEPTH\<close> (32) addresses it may still collect, and the snapshot's loop on its
  eight chunks of 512 bytes: no fuel is added to what the code has. The specified call chain follows
  links that strictly descend. The writer's buffer is the standard library's 8 KiB. Maps hold \<open>MAX_ENTRIES\<close> (10240)
  entries. The poll loop may run for ever; it is a \<open>partial_function (option)\<close>, whose value
  \<open>None\<close> is not returning.

  \<^bold>\<open>Parameters.\<close> What is not in this repository is an argument of the definitions that use it:
  the user memory a probe read sees, the results of the other BPF helpers, framehop's frame iterator
  and its cache, what the \<open>object\<close> crate returns for an ELF file, blazesym's symbolizer, the calls into
  libbpf and the system calls with the result they return, the file system and the
  room on its device, inferno, the clock, when signals arrive, and the iteration order of hash maps.

  \<^bold>\<open>Not modelled.\<close> What is printed for the user has no effect on the profile.
  The branches of lua_state.h for \<open>LJ_TARGET_GC64=0\<close> are never compiled
  (build.rs passes 1, and profile.bpf.c does not compile without it). Of vmlinux.h, the kernel's
  complete dump of its types, only what the perf, BPF, task and probe interfaces reach is
  declared; the remaining types are named by nothing in the program. The object file embedded in the
  committed skeleton as a string is data from an older version of the program (see
  \<open>skeleton_is_stale\<close>).

  \<^bold>\<open>Limits.\<close> framehop is taken to answer the same whatever its cache holds (\<open>answers\<close>), which its cache
  rules promise but nothing here derives. The time between an event and the reading of the maps is not
  modelled, so modules loaded after the set-up are outside \<open>unwinder_covers_mapping\<close>.
\<close>

section \<open>The committed skeleton\<close>

text \<open>
  Only the two event handlers of the skeleton exist in the program: none of its maps does, and one of
  its programs neither.
\<close>

lemma skeleton_is_stale:
  "filter (\<lambda>ms. ms_name ms \<in> fst ` set (map_defs cpus)) (map_table obj) = []"
  "map ps_name (prog_table obj) = [''do_perf_event'', ''handle_entry_lua'', ''handle_entry_lua_cancel'']"
  by (simp_all add: map_table_def map_skel_def map_defs_def prog_table_def prog_skel_def)

end
